theory Spec2Isabelle
  imports Main "HOL-Library.Sublist" "HOL-Library.AList"
begin

section \<open>Python values\<close>

text \<open>
  The two services of the backend that carry its logic are embedded here:
  \<^verbatim>\<open>services/document_processor.py\<close> (class \<^verbatim>\<open>DocumentAnalyzer\<close>) and
  \<^verbatim>\<open>services/ai_service.py\<close> (class \<^verbatim>\<open>AIFinancialAdvisor\<close>).

  A Python \<^verbatim>\<open>str\<close> is a \<^typ>\<open>string\<close> holding its UTF-8 encoding: an ASCII character
  is one \<^typ>\<open>char\<close>, any other code point is its lead byte followed by continuation
  bytes. Lengths, slices, whitespace and \<^verbatim>\<open>repr\<close> work on code points. The two tables of
  the Unicode database that are too large to write out, which code points outside ASCII
  are printable and how text outside ASCII is lower-cased, are a parameter of the model.
\<close>

datatype py_error =
    ValueError string
  | AttributeError string
  | TypeError
  | IndexError
  | KeyError
  | ModelError string
  | ValidationError

text \<open>
  The text of an exception, \<^verbatim>\<open>str(e)\<close>. The built-in errors raised inside the
  model carry no message of their own except \<^verbatim>\<open>AttributeError\<close>.
\<close>

fun error_str :: "py_error \<Rightarrow> string" where
  "error_str (ValueError m) = m"
| "error_str (AttributeError m) = m"
| "error_str TypeError = ''TypeError''"
| "error_str IndexError = ''IndexError''"
| "error_str KeyError = ''KeyError''"
| "error_str (ModelError m) = m"
| "error_str ValidationError = ''ValidationError''"

text \<open>
  A value of \<^verbatim>\<open>Dict[str, Any]\<close>. A float is carried as the text \<^verbatim>\<open>repr\<close> gives for
  it (the model never computes with floats); \<open>PObj\<close> is an object of any other
  type (a datetime, say), carried as its \<^verbatim>\<open>str\<close> rendering. A dictionary keeps its
  insertion order.
\<close>

datatype pyval =
    PNone
  | PBool bool
  | PInt int
  | PFloat string
  | PStr string
  | PList "pyval list"
  | PTuple "pyval list"
  | PDict "(string \<times> pyval) list"
  | PObj string

type_synonym pydict = "(string \<times> pyval) list"

subsection \<open>Characters and strings\<close>

definition upper_letters :: string where
  "upper_letters = ''ABCDEFGHIJKLMNOPQRSTUVWXYZ''"

definition lower_letters :: string where
  "lower_letters = ''abcdefghijklmnopqrstuvwxyz''"

definition lower_char :: "char \<Rightarrow> char" where
  "lower_char c = (case map_of (zip upper_letters lower_letters) c of Some l \<Rightarrow> l | None \<Rightarrow> c)"

text \<open>
  \<^verbatim>\<open>str.lower()\<close> on the ASCII letters. The code compares lower-cased text with ASCII words
  only (extensions, keywords), and for those this part of the case mapping decides: the
  only code points outside ASCII whose lower case holds an ASCII letter are U+212A (to
  \<^verbatim>\<open>k\<close>) and U+0130 (to \<^verbatim>\<open>i\<close> followed by U+0307), and no extension or keyword has a \<^verbatim>\<open>k\<close> or
  ends in \<^verbatim>\<open>i\<close>. Where the lower-cased text itself is the result, in \<^verbatim>\<open>detect_language\<close>,
  the model uses \<open>str_lower\<close> below.
\<close>

definition py_lower :: "string \<Rightarrow> string" where
  "py_lower s = map lower_char s"

text \<open>
  Code points of a UTF-8 string. A byte below \<open>0x80\<close> is a code point of its own; a byte
  from \<open>0x80\<close> on belongs to the code point of the continuation bytes (\<open>0x80\<close>..\<open>0xBF\<close>)
  that follow it.
\<close>

definition is_ascii :: "char \<Rightarrow> bool" where
  "is_ascii c = ((of_char c :: nat) < 128)"

definition is_cont :: "char \<Rightarrow> bool" where
  "is_cont c = (128 \<le> (of_char c :: nat) \<and> (of_char c :: nat) < 192)"

fun code_points :: "string \<Rightarrow> string list" where
  "code_points [] = []"
| "code_points (c # cs) =
     (case code_points cs of
        [] \<Rightarrow> [[c]]
      | g # gs \<Rightarrow> (if \<not> is_ascii c \<and> g \<noteq> [] \<and> is_cont (hd g) then (c # g) # gs
                   else [c] # g # gs))"

text \<open>\<^verbatim>\<open>len(s)\<close> and \<^verbatim>\<open>s[:n]\<close>\<close>

definition py_len :: "string \<Rightarrow> nat" where
  "py_len s = length (code_points s)"

definition py_take :: "nat \<Rightarrow> string \<Rightarrow> string" where
  "py_take n s = concat (take n (code_points s))"

text \<open>
  \<^verbatim>\<open>str.isspace()\<close> for one code point. These are all the whitespace code points of
  Python: U+0009..U+000D, U+001C..U+001F, U+0020, U+0085, U+00A0, U+1680,
  U+2000..U+200A, U+2028, U+2029, U+202F, U+205F and U+3000.
\<close>

definition whitespace :: "string list" where
  "whitespace =
     [[CHR 0x09], [CHR 0x0A], [CHR 0x0B], [CHR 0x0C], [CHR 0x0D],
      [CHR 0x1C], [CHR 0x1D], [CHR 0x1E], [CHR 0x1F], [CHR 0x20],
      [CHR 0xC2, CHR 0x85], [CHR 0xC2, CHR 0xA0], [CHR 0xE1, CHR 0x9A, CHR 0x80],
      [CHR 0xE2, CHR 0x80, CHR 0x80], [CHR 0xE2, CHR 0x80, CHR 0x81],
      [CHR 0xE2, CHR 0x80, CHR 0x82], [CHR 0xE2, CHR 0x80, CHR 0x83],
      [CHR 0xE2, CHR 0x80, CHR 0x84], [CHR 0xE2, CHR 0x80, CHR 0x85],
      [CHR 0xE2, CHR 0x80, CHR 0x86], [CHR 0xE2, CHR 0x80, CHR 0x87],
      [CHR 0xE2, CHR 0x80, CHR 0x88], [CHR 0xE2, CHR 0x80, CHR 0x89],
      [CHR 0xE2, CHR 0x80, CHR 0x8A], [CHR 0xE2, CHR 0x80, CHR 0xA8],
      [CHR 0xE2, CHR 0x80, CHR 0xA9], [CHR 0xE2, CHR 0x80, CHR 0xAF],
      [CHR 0xE2, CHR 0x81, CHR 0x9F], [CHR 0xE3, CHR 0x80, CHR 0x80]]"

definition is_space :: "string \<Rightarrow> bool" where
  "is_space g = (g \<in> set whitespace)"

text \<open>\<^verbatim>\<open>str.strip()\<close>: the whitespace code points at both ends are removed.\<close>

definition py_strip :: "string \<Rightarrow> string" where
  "py_strip s = concat (rev (dropWhile is_space (rev (dropWhile is_space (code_points s)))))"

text \<open>
  \<^verbatim>\<open>str.split()\<close>: the maximal runs of code points that are not whitespace. \<open>cur\<close> is the
  run being read.
\<close>

fun split_ws :: "string list \<Rightarrow> string \<Rightarrow> string list" where
  "split_ws [] cur = (if cur = [] then [] else [cur])"
| "split_ws (g # gs) cur =
     (if is_space g then (if cur = [] then split_ws gs [] else cur # split_ws gs [])
      else split_ws gs (cur @ g))"

definition py_split :: "string \<Rightarrow> string list" where
  "py_split s = split_ws (code_points s) []"

text \<open>\<^verbatim>\<open>sep.join(parts)\<close> on strings.\<close>

fun join :: "string \<Rightarrow> string list \<Rightarrow> string" where
  "join sep [] = []"
| "join sep [x] = x"
| "join sep (x # y # ys) = x @ sep @ join sep (y # ys)"

text \<open>\<^verbatim>\<open>w in s\<close> on strings: \<open>w\<close> occurs in \<open>s\<close> as a contiguous run.\<close>

definition py_in :: "string \<Rightarrow> string \<Rightarrow> bool" where
  "py_in w s = sublist w s"

text \<open>
  The Unicode database of the Python runtime, for text outside ASCII: \<open>u_printable g\<close> is
  \<^verbatim>\<open>str.isprintable()\<close> of the code point with the UTF-8 bytes \<open>g\<close>, and \<open>u_lower s\<close> is
  \<^verbatim>\<open>str.lower()\<close> of a string \<open>s\<close> that has a code point outside ASCII (the mapping is not one
  of single characters: a capital sigma is lower-cased by its position in the word).
\<close>

record unicode =
  u_printable :: "string \<Rightarrow> bool"
  u_lower :: "string \<Rightarrow> string"

text \<open>\<^verbatim>\<open>str.lower()\<close> on any string.\<close>

definition str_lower :: "unicode \<Rightarrow> string \<Rightarrow> string" where
  "str_lower U s = (if list_all is_ascii s then py_lower s else u_lower U s)"

subsection \<open>Numbers as text\<close>

definition digit :: "nat \<Rightarrow> char" where
  "digit d = ''0123456789abcdef'' ! d"

fun str_nat :: "nat \<Rightarrow> string" where
  "str_nat n = (if n < 10 then [digit n] else str_nat (n div 10) @ [digit (n mod 10)])"

declare str_nat.simps [simp del]

definition str_int :: "int \<Rightarrow> string" where
  "str_int i = (if i < 0 then CHR ''-'' # str_nat (nat (- i)) else str_nat (nat i))"

subsection \<open>\<^verbatim>\<open>repr\<close> and \<^verbatim>\<open>str\<close>\<close>

text \<open>
  \<^verbatim>\<open>repr\<close> of a string: double quotes when the string has a single quote and no
  double quote, single quotes otherwise; the backslash and the chosen quote are
  escaped, tab, line feed and carriage return are written \<^verbatim>\<open>\t \n \r\<close>, and any other code
  point that is not printable is written \<^verbatim>\<open>\xNN\<close>, \<^verbatim>\<open>\uNNNN\<close> or \<^verbatim>\<open>\UNNNNNNNN\<close> by its size,
  with lower-case hex digits. \<open>escape_char\<close> is the rule for an ASCII character,
  \<open>escape_cp\<close> the rule for a code point.
\<close>

definition repr_quote :: "string \<Rightarrow> char" where
  "repr_quote s = (if CHR 0x27 \<in> set s \<and> CHR 0x22 \<notin> set s then CHR 0x22 else CHR 0x27)"

definition escape_char :: "char \<Rightarrow> char \<Rightarrow> string" where
  "escape_char q c =
     (let n = (of_char c :: nat) in
      if c = CHR 0x5C then [CHR 0x5C, CHR 0x5C]
      else if c = q then [CHR 0x5C, q]
      else if n = 9 then [CHR 0x5C, CHR ''t'']
      else if n = 10 then [CHR 0x5C, CHR ''n'']
      else if n = 13 then [CHR 0x5C, CHR ''r'']
      else if n < 32 \<or> n = 127 then [CHR 0x5C, CHR ''x'', digit (n div 16), digit (n mod 16)]
      else [c])"

text \<open>The number of a code point given by its UTF-8 bytes, and \<open>w\<close> hex digits of a number.\<close>

definition cp_value :: "string \<Rightarrow> nat" where
  "cp_value g =
     (case map of_char g of
        [b0] \<Rightarrow> b0
      | [b0, b1] \<Rightarrow> (b0 mod 32) * 64 + b1 mod 64
      | [b0, b1, b2] \<Rightarrow> (b0 mod 16) * 4096 + (b1 mod 64) * 64 + b2 mod 64
      | [b0, b1, b2, b3] \<Rightarrow> (b0 mod 8) * 262144 + (b1 mod 64) * 4096 + (b2 mod 64) * 64 + b3 mod 64
      | _ \<Rightarrow> 0)"

fun hex_digits :: "nat \<Rightarrow> nat \<Rightarrow> string" where
  "hex_digits 0 n = []"
| "hex_digits (Suc w) n = hex_digits w (n div 16) @ [digit (n mod 16)]"

definition escape_cp :: "unicode \<Rightarrow> char \<Rightarrow> string \<Rightarrow> string" where
  "escape_cp U q g =
     (if length g = 1 \<and> is_ascii (hd g) then escape_char q (hd g)
      else if u_printable U g then g
      else (let n = cp_value g in
            if n < 256 then [CHR 0x5C, CHR ''x''] @ hex_digits 2 n
            else if n < 65536 then [CHR 0x5C, CHR ''u''] @ hex_digits 4 n
            else [CHR 0x5C, CHR ''U''] @ hex_digits 8 n))"

definition repr_str :: "unicode \<Rightarrow> string \<Rightarrow> string" where
  "repr_str U s =
     (let q = repr_quote s in [q] @ concat (map (escape_cp U q) (code_points s)) @ [q])"

fun py_repr :: "unicode \<Rightarrow> pyval \<Rightarrow> string" where
  "py_repr U PNone = ''None''"
| "py_repr U (PBool b) = (if b then ''True'' else ''False'')"
| "py_repr U (PInt i) = str_int i"
| "py_repr U (PFloat r) = r"
| "py_repr U (PStr s) = repr_str U s"
| "py_repr U (PList xs) = ''['' @ join '', '' (map (py_repr U) xs) @ '']''"
| "py_repr U (PTuple xs) =
     (case xs of
        [x] \<Rightarrow> ''('' @ py_repr U x @ '',)''
      | _ \<Rightarrow> ''('' @ join '', '' (map (py_repr U) xs) @ '')'')"
| "py_repr U (PDict kvs) =
     ''{'' @ join '', '' (map (\<lambda>kv. repr_str U (fst kv) @ '': '' @ py_repr U (snd kv)) kvs) @ ''}''"
| "py_repr U (PObj r) = r"

text \<open>\<^verbatim>\<open>str(v)\<close>, which is also what an f-string writes for \<^verbatim>\<open>{v}\<close>.\<close>

definition py_str :: "unicode \<Rightarrow> pyval \<Rightarrow> string" where
  "py_str U v = (case v of PStr s \<Rightarrow> s | _ \<Rightarrow> py_repr U v)"

subsection \<open>Dictionaries and the dynamic operations the code applies to values\<close>

text \<open>\<^verbatim>\<open>d.get(k, default)\<close>, \<^verbatim>\<open>d.get(k)\<close> and \<^verbatim>\<open>d[k] = v\<close>\<close>

definition py_get :: "pydict \<Rightarrow> string \<Rightarrow> pyval \<Rightarrow> pyval" where
  "py_get d k dflt = (case map_of d k of None \<Rightarrow> dflt | Some v \<Rightarrow> v)"

definition py_get_none :: "pydict \<Rightarrow> string \<Rightarrow> pyval" where
  "py_get_none d k = py_get d k PNone"

definition dict_set :: "pydict \<Rightarrow> string \<Rightarrow> pyval \<Rightarrow> pydict" where
  "dict_set d k v = AList.update k v d"

text \<open>\<^verbatim>\<open>d.update(other)\<close>, and a dictionary built from pairs (a later pair wins).\<close>

definition dict_update :: "pydict \<Rightarrow> pydict \<Rightarrow> pydict" where
  "dict_update d other = fold (\<lambda>kv acc. dict_set acc (fst kv) (snd kv)) other d"

definition dict_of :: "(string \<times> pyval) list \<Rightarrow> pydict" where
  "dict_of kvs = dict_update [] kvs"

text \<open>Truth value of a value in a condition.\<close>

fun truthy :: "pyval \<Rightarrow> bool" where
  "truthy PNone = False"
| "truthy (PBool b) = b"
| "truthy (PInt i) = (i \<noteq> 0)"
| "truthy (PFloat r) = (r \<noteq> ''0.0'' \<and> r \<noteq> ''-0.0'')"
| "truthy (PStr s) = (s \<noteq> [])"
| "truthy (PList xs) = (xs \<noteq> [])"
| "truthy (PTuple xs) = (xs \<noteq> [])"
| "truthy (PDict kvs) = (kvs \<noteq> [])"
| "truthy (PObj r) = True"

definition str_list :: "string list \<Rightarrow> pyval" where
  "str_list xs = PList (map PStr xs)"

text \<open>
  The elements iterating over a value yields, as \<^verbatim>\<open>str.join\<close> sees them: only strings
  are accepted. A string yields its code points, a dictionary its keys.
\<close>

fun the_strs :: "pyval list \<Rightarrow> py_error + string list" where
  "the_strs [] = Inr []"
| "the_strs (PStr s # vs) = (case the_strs vs of Inl e \<Rightarrow> Inl e | Inr ss \<Rightarrow> Inr (s # ss))"
| "the_strs (_ # vs) = Inl TypeError"

fun py_join :: "string \<Rightarrow> pyval \<Rightarrow> py_error + string" where
  "py_join sep (PList xs) = (case the_strs xs of Inl e \<Rightarrow> Inl e | Inr ss \<Rightarrow> Inr (join sep ss))"
| "py_join sep (PTuple xs) = (case the_strs xs of Inl e \<Rightarrow> Inl e | Inr ss \<Rightarrow> Inr (join sep ss))"
| "py_join sep (PStr s) = Inr (join sep (code_points s))"
| "py_join sep (PDict kvs) = Inr (join sep (map fst kvs))"
| "py_join sep _ = Inl TypeError"

text \<open>\<^verbatim>\<open>len(v)\<close>\<close>

fun py_len_val :: "pyval \<Rightarrow> py_error + nat" where
  "py_len_val (PList xs) = Inr (length xs)"
| "py_len_val (PTuple xs) = Inr (length xs)"
| "py_len_val (PStr s) = Inr (py_len s)"
| "py_len_val (PDict kvs) = Inr (length kvs)"
| "py_len_val _ = Inl TypeError"

text \<open>\<^verbatim>\<open>v[i]\<close> for an index \<open>i \<ge> 0\<close>; a dictionary of string keys has no integer key.\<close>

fun py_index :: "pyval \<Rightarrow> nat \<Rightarrow> py_error + pyval" where
  "py_index (PList xs) i = (if i < length xs then Inr (xs ! i) else Inl IndexError)"
| "py_index (PTuple xs) i = (if i < length xs then Inr (xs ! i) else Inl IndexError)"
| "py_index (PStr s) i = (if i < py_len s then Inr (PStr (code_points s ! i)) else Inl IndexError)"
| "py_index (PDict kvs) i = Inl KeyError"
| "py_index _ i = Inl TypeError"

text \<open>\<^verbatim>\<open>v > 0\<close>: defined on numbers only.\<close>

fun py_gt_zero :: "pyval \<Rightarrow> py_error + bool" where
  "py_gt_zero (PInt i) = Inr (0 < i)"
| "py_gt_zero (PBool b) = Inr b"
| "py_gt_zero (PFloat r) = Inr (r \<noteq> ''0.0'' \<and> r \<noteq> ''nan'' \<and> r \<noteq> [] \<and> hd r \<noteq> CHR ''-'')"
| "py_gt_zero _ = Inl TypeError"

text \<open>\<^verbatim>\<open>v[:n]\<close>\<close>

fun py_slice_to :: "nat \<Rightarrow> pyval \<Rightarrow> py_error + pyval" where
  "py_slice_to n (PStr s) = Inr (PStr (py_take n s))"
| "py_slice_to n (PList xs) = Inr (PList (take n xs))"
| "py_slice_to n (PTuple xs) = Inr (PTuple (take n xs))"
| "py_slice_to n _ = Inl TypeError"

text \<open>The name of a value's type, as the message of an \<^verbatim>\<open>AttributeError\<close> quotes it.\<close>

fun type_name :: "pyval \<Rightarrow> string" where
  "type_name PNone = ''NoneType''"
| "type_name (PBool b) = ''bool''"
| "type_name (PInt i) = ''int''"
| "type_name (PFloat r) = ''float''"
| "type_name (PStr s) = ''str''"
| "type_name (PList xs) = ''list''"
| "type_name (PTuple xs) = ''tuple''"
| "type_name (PDict kvs) = ''dict''"
| "type_name (PObj r) = ''object''"

definition no_attribute :: "string \<Rightarrow> string \<Rightarrow> py_error" where
  "no_attribute ty attr =
     AttributeError ([CHR 0x27] @ ty @ [CHR 0x27] @ '' object has no attribute '' @
                     [CHR 0x27] @ attr @ [CHR 0x27])"

text \<open>\<^verbatim>\<open>v.lower()\<close>\<close>

definition py_lower_val :: "pyval \<Rightarrow> py_error + string" where
  "py_lower_val v = (case v of PStr s \<Rightarrow> Inr (py_lower s) | _ \<Rightarrow> Inl (no_attribute (type_name v) ''lower''))"

section \<open>The document analyzer (\<^verbatim>\<open>services/document_processor.py\<close>)\<close>

subsection \<open>What the libraries hand to the analyzer\<close>

text \<open>
  A \<^verbatim>\<open>pathlib.Path\<close>: the code reads its \<^verbatim>\<open>suffix\<close> and passes the path on.
\<close>

record path =
  path_str :: string
  path_suffix :: string

text \<open>
  A page of a \<^verbatim>\<open>PdfReader\<close>: \<^verbatim>\<open>extract_text()\<close> gives a text, gives \<^verbatim>\<open>None\<close>, or raises.
\<close>

datatype pdf_page = PageText "string option" | PageError string

text \<open>
  A \<^verbatim>\<open>docx.Document\<close>: the texts of its paragraphs, and its tables as rows of cell
  texts.
\<close>

record docx =
  doc_paragraphs :: "string list"
  doc_tables :: "string list list list"

text \<open>
  A column label of a \<^verbatim>\<open>DataFrame\<close>: a string, or a value of another type (a number or
  a timestamp in a spreadsheet header) with the name of its type and its \<^verbatim>\<open>str\<close>
  rendering.
\<close>

datatype label = LStr string | LOther string string

fun label_str :: "label \<Rightarrow> string" where
  "label_str (LStr s) = s"
| "label_str (LOther ty r) = r"

fun label_val :: "label \<Rightarrow> pyval" where
  "label_val (LStr s) = PStr s"
| "label_val (LOther ty r) = PObj r"

text \<open>
  How \<^verbatim>\<open>select_dtypes\<close> classes a column: \<^verbatim>\<open>'number'\<close>, \<^verbatim>\<open>'object'\<close>, \<^verbatim>\<open>'datetime'\<close>, or
  none of them (a boolean or categorical column).
\<close>

datatype dtype_kind = Number | Object | Datetime | OtherKind

record column =
  col_label :: label
  col_dtype :: string
  col_kind :: dtype_kind
  col_nulls :: nat

text \<open>
  A \<^verbatim>\<open>pandas.DataFrame\<close>, as far as the analyzer looks at it: \<open>df_len\<close> is \<^verbatim>\<open>len(df)\<close>,
  \<open>df_describe\<close> is \<^verbatim>\<open>df[numeric_cols].describe().to_dict()\<close>, \<open>df_head_table n\<close> is
  \<^verbatim>\<open>tabulate(df.head(n), headers='keys', tablefmt='pipe')\<close> and \<open>df_describe_table\<close> is
  \<^verbatim>\<open>tabulate(df[numeric_cols].describe(), headers='keys', tablefmt='pipe')\<close>.
\<close>

record dataframe =
  df_len :: nat
  df_columns :: "column list"
  df_describe :: pyval
  df_head_table :: "nat \<Rightarrow> string"
  df_describe_table :: string

text \<open>\<^verbatim>\<open>df.empty\<close>: one of the two axes has length 0.\<close>

definition df_empty :: "dataframe \<Rightarrow> bool" where
  "df_empty df = (df_len df = 0 \<or> df_columns df = [])"

text \<open>\<^verbatim>\<open>df.select_dtypes(include=[kind]).columns\<close>\<close>

definition select_dtypes :: "dataframe \<Rightarrow> dtype_kind \<Rightarrow> label list" where
  "select_dtypes df k = map col_label (filter (\<lambda>c. col_kind c = k) (df_columns df))"

text \<open>
  An opened image: its size, its mode, and what \<^verbatim>\<open>pytesseract.image_to_string\<close> makes
  of it (a text, or the message of the exception it raises).
\<close>

record image =
  image_size :: "nat \<times> nat"
  image_mode :: string
  image_to_string :: "string + string"

text \<open>
  The file system as the libraries read it, with a log of the paths handed to a
  reader. \<open>Inl m\<close> is a reader that raises an exception whose text is \<open>m\<close>.
\<close>

record world =
  pdf_reader :: "string \<Rightarrow> string + pdf_page list"
  docx_document :: "string \<Rightarrow> string + docx"
  pd_read_excel :: "string \<Rightarrow> string + (string \<times> dataframe) list"
  pd_read_csv :: "string \<Rightarrow> string + dataframe"
  image_open :: "string \<Rightarrow> string + image"
  reads :: "string list"

definition log_read :: "world \<Rightarrow> path \<Rightarrow> world" where
  "log_read w file_path = w\<lparr>reads := reads w @ [path_str file_path]\<rparr>"

subsection \<open>\<^verbatim>\<open>DocumentAnalyzer\<close>\<close>

definition supported_types :: "(string \<times> string) list" where
  "supported_types =
     [(''.pdf'', ''PDF Document''),
      (''.doc'', ''Word Document''),
      (''.docx'', ''Word Document''),
      (''.xlsx'', ''Excel Spreadsheet''),
      (''.xls'', ''Excel Spreadsheet''),
      (''.csv'', ''CSV File''),
      (''.png'', ''Image''),
      (''.jpg'', ''Image''),
      (''.jpeg'', ''Image''),
      (''.bmp'', ''Image''),
      (''.tiff'', ''Image'')]"

definition get_file_type :: "path \<Rightarrow> string" where
  "get_file_type file_path =
     (let suffix = py_lower (path_suffix file_path) in
      case map_of supported_types suffix of None \<Rightarrow> ''Unknown'' | Some t \<Rightarrow> t)"

text \<open>The loop of \<^verbatim>\<open>_analyze_pdf\<close> over the pages; \<open>text_parts\<close> is the list it appends to.\<close>

fun pdf_pages_loop :: "pdf_page list \<Rightarrow> string list \<Rightarrow> string + string list" where
  "pdf_pages_loop [] text_parts = Inr text_parts"
| "pdf_pages_loop (PageError m # pages) text_parts = Inl m"
| "pdf_pages_loop (PageText page_text # pages) text_parts =
     (case page_text of
        None \<Rightarrow> pdf_pages_loop pages text_parts
      | Some t \<Rightarrow> if t \<noteq> [] then pdf_pages_loop pages (text_parts @ [t])
                  else pdf_pages_loop pages text_parts)"

definition analyze_pdf :: "world \<Rightarrow> path \<Rightarrow> (py_error + pydict) \<times> world" where
  "analyze_pdf w file_path =
     (let w' = log_read w file_path in
      case pdf_reader w (path_str file_path) of
        Inl m \<Rightarrow> (Inl (ValueError (''Error analyzing PDF: '' @ m)), w')
      | Inr pages \<Rightarrow>
          (let page_count = length pages in
           case pdf_pages_loop pages [] of
             Inl m \<Rightarrow> (Inl (ValueError (''Error analyzing PDF: '' @ m)), w')
           | Inr text_parts \<Rightarrow>
               (let full_text = join [CHR 0x0A] text_parts in
                (Inr [(''file_type'', PStr ''PDF Document''),
                      (''page_count'', PInt (int page_count)),
                      (''text_content'', PStr full_text),
                      (''word_count'', PInt (int (length (py_split full_text)))),
                      (''char_count'', PInt (int (py_len full_text))),
                      (''analysis_type'', PStr ''text_extraction''),
                      (''summary'', PStr (''PDF document with '' @ str_nat page_count @
                          '' pages containing '' @ str_nat (length (py_split full_text)) @
                          '' words''))],
                 w'))))"

text \<open>The two loops of \<^verbatim>\<open>_analyze_word_document\<close>.\<close>

fun paragraphs_loop :: "string list \<Rightarrow> string list \<Rightarrow> string list" where
  "paragraphs_loop [] text_parts = text_parts"
| "paragraphs_loop (t # ps) text_parts =
     (if py_strip t \<noteq> [] then paragraphs_loop ps (text_parts @ [t])
      else paragraphs_loop ps text_parts)"

fun rows_loop :: "string list list \<Rightarrow> string list list \<times> string list \<Rightarrow> string list list \<times> string list" where
  "rows_loop [] (table_data, text_parts) = (table_data, text_parts)"
| "rows_loop (cells # rows) (table_data, text_parts) =
     (let row_data = map py_strip cells in
      rows_loop rows (table_data @ [row_data], text_parts @ [join '' | '' row_data]))"

fun tables_loop :: "string list list list \<Rightarrow> string list list \<times> string list \<Rightarrow> string list list \<times> string list" where
  "tables_loop [] acc = acc"
| "tables_loop (t # ts) acc = tables_loop ts (rows_loop t acc)"

definition analyze_word_document :: "world \<Rightarrow> path \<Rightarrow> (py_error + pydict) \<times> world" where
  "analyze_word_document w file_path =
     (let w' = log_read w file_path in
      case docx_document w (path_str file_path) of
        Inl m \<Rightarrow> (Inl (ValueError (''Error analyzing Word document: '' @ m)), w')
      | Inr doc \<Rightarrow>
          (let text_parts = paragraphs_loop (doc_paragraphs doc) [];
               (table_data, text_parts) = tables_loop (doc_tables doc) ([], text_parts);
               full_text = join [CHR 0x0A] text_parts
           in (Inr [(''file_type'', PStr ''Word Document''),
                    (''paragraph_count'', PInt (int (length (doc_paragraphs doc)))),
                    (''table_count'', PInt (int (length (doc_tables doc)))),
                    (''text_content'', PStr full_text),
                    (''word_count'', PInt (int (length (py_split full_text)))),
                    (''char_count'', PInt (int (py_len full_text))),
                    (''analysis_type'', PStr ''text_extraction''),
                    (''tables'', if table_data \<noteq> [] then PList (map str_list table_data) else PNone),
                    (''summary'', PStr (''Word document with '' @
                        str_nat (length (doc_paragraphs doc)) @ '' paragraphs and '' @
                        str_nat (length (doc_tables doc)) @ '' tables''))],
               w')))"

text \<open>
  \<^verbatim>\<open>_analyze_dataframe\<close>. The comprehension that collects the financial columns calls
  \<^verbatim>\<open>col.lower()\<close> on every label, which raises on a label that is not a string.
\<close>

definition financial_keywords :: "string list" where
  "financial_keywords =
     [''amount'', ''price'', ''cost'', ''fee'', ''balance'', ''total'', ''sum'', ''revenue'',
      ''income'', ''expense'']"

fun financial_cols :: "label list \<Rightarrow> py_error + string list" where
  "financial_cols [] = Inr []"
| "financial_cols (LOther ty r # cols) = Inl (no_attribute ty ''lower'')"
| "financial_cols (LStr col # cols) =
     (case financial_cols cols of
        Inl e \<Rightarrow> Inl e
      | Inr rest \<Rightarrow>
          Inr (if list_ex (\<lambda>keyword. py_in keyword (py_lower col)) financial_keywords
               then col # rest else rest))"

definition analyze_dataframe :: "dataframe \<Rightarrow> string \<Rightarrow> py_error + pydict" where
  "analyze_dataframe df data_name =
     (let analysis =
            [(''name'', PStr data_name),
             (''rows'', PInt (int (df_len df))),
             (''columns'', PInt (int (length (df_columns df)))),
             (''column_names'', PList (map (label_val \<circ> col_label) (df_columns df))),
             (''data_types'',
                PDict (dict_of (map (\<lambda>c. (label_str (col_label c), PStr (col_dtype c))) (df_columns df)))),
             (''null_counts'',
                PDict (dict_of (map (\<lambda>c. (label_str (col_label c), PInt (int (col_nulls c)))) (df_columns df)))),
             (''numeric_columns'', PList (map label_val (select_dtypes df Number))),
             (''text_columns'', PList (map label_val (select_dtypes df Object))),
             (''date_columns'', PList (map label_val (select_dtypes df Datetime)))];
          numeric_cols = select_dtypes df Number;
          analysis = (if length numeric_cols > 0
                      then dict_set analysis ''numeric_statistics'' (df_describe df)
                      else analysis)
      in case financial_cols (map col_label (df_columns df)) of
           Inl e \<Rightarrow> Inl e
         | Inr fcols \<Rightarrow>
             Inr (if fcols \<noteq> []
                  then dict_set analysis ''potential_financial_columns'' (str_list fcols)
                  else analysis))"

text \<open>
  \<^verbatim>\<open>_analyze_excel_file\<close>. \<open>set_sheet\<close> is the nested store
  \<^verbatim>\<open>analysis['sheets'][sheet_name] = sheet_analysis\<close>; \<open>excel_loop\<close> is the loop over the
  sheets with the four variables it updates.
\<close>

definition set_sheet :: "pydict \<Rightarrow> string \<Rightarrow> pydict \<Rightarrow> py_error + pydict" where
  "set_sheet analysis sheet_name sheet_analysis =
     (case map_of analysis ''sheets'' of
        None \<Rightarrow> Inl KeyError
      | Some (PDict sheets) \<Rightarrow>
          Inr (dict_set analysis ''sheets'' (PDict (dict_set sheets sheet_name (PDict sheet_analysis))))
      | Some _ \<Rightarrow> Inl TypeError)"

text \<open>
  The two lines that both \<^verbatim>\<open>_analyze_excel_file\<close> and \<^verbatim>\<open>_analyze_csv_file\<close> append for a
  table: its row and column counts, and its column names joined by \<^verbatim>\<open>", "\<close>.
\<close>

definition table_header_lines :: "dataframe \<Rightarrow> string list" where
  "table_header_lines df =
     [''Rows: '' @ str_nat (df_len df) @ '', Columns: '' @ str_nat (length (df_columns df)),
      ''Columns: '' @ join '', '' (map (label_str \<circ> col_label) (df_columns df))]"

fun excel_loop ::
  "(string \<times> dataframe) list \<Rightarrow> pydict \<times> string list \<times> nat \<times> nat \<Rightarrow>
   py_error + pydict \<times> string list \<times> nat \<times> nat" where
  "excel_loop [] acc = Inr acc"
| "excel_loop ((sheet_name, df) # sheets) (analysis, text_content, total_rows, total_cols) =
     (case analyze_dataframe df sheet_name of
        Inl e \<Rightarrow> Inl e
      | Inr sheet_analysis \<Rightarrow>
          (case set_sheet analysis sheet_name sheet_analysis of
             Inl e \<Rightarrow> Inl e
           | Inr analysis' \<Rightarrow>
               (let text_content =
                      text_content @
                      [[CHR 0x0A] @ ''--- Sheet: '' @ sheet_name @ '' ---''] @
                      table_header_lines df;
                    text_content =
                      (if \<not> df_empty df
                       then text_content @ [''Sample data:'', df_head_table df 5]
                       else text_content)
                in excel_loop sheets
                     (analysis', text_content, total_rows + df_len df,
                      total_cols + length (df_columns df)))))"

definition analyze_excel_file :: "world \<Rightarrow> path \<Rightarrow> (py_error + pydict) \<times> world" where
  "analyze_excel_file w file_path =
     (let w' = log_read w file_path in
      case pd_read_excel w (path_str file_path) of
        Inl m \<Rightarrow> (Inl (ValueError (''Error analyzing Excel file: '' @ m)), w')
      | Inr excel_data \<Rightarrow>
          (let analysis =
                 [(''file_type'', PStr ''Excel Spreadsheet''),
                  (''sheet_count'', PInt (int (length excel_data))),
                  (''sheets'', PDict []),
                  (''analysis_type'', PStr ''data_analysis''),
                  (''summary'', PStr (''Excel file with '' @ str_nat (length excel_data) @ '' sheets''))]
           in case excel_loop excel_data (analysis, [], 0, 0) of
                Inl e \<Rightarrow> (Inl (ValueError (''Error analyzing Excel file: '' @ error_str e)), w')
              | Inr (analysis, text_content, total_rows, total_cols) \<Rightarrow>
                  (let analysis = dict_set analysis ''text_content'' (PStr (join [CHR 0x0A] text_content));
                       analysis = dict_set analysis ''total_rows'' (PInt (int total_rows));
                       analysis = dict_set analysis ''total_columns'' (PInt (int total_cols));
                       analysis = dict_set analysis ''summary''
                                    (PStr (''Excel file with '' @ str_nat (length excel_data) @
                                           '' sheets, '' @ str_nat total_rows @ '' total rows''))
                   in (Inr analysis, w'))))"

text \<open>\<^verbatim>\<open>_analyze_csv_file\<close>\<close>

definition analyze_csv_file :: "world \<Rightarrow> path \<Rightarrow> (py_error + pydict) \<times> world" where
  "analyze_csv_file w file_path =
     (let w' = log_read w file_path in
      case pd_read_csv w (path_str file_path) of
        Inl m \<Rightarrow> (Inl (ValueError (''Error analyzing CSV file: '' @ m)), w')
      | Inr df \<Rightarrow>
          (case analyze_dataframe df ''CSV Data'' of
             Inl e \<Rightarrow> (Inl (ValueError (''Error analyzing CSV file: '' @ error_str e)), w')
           | Inr analysis \<Rightarrow>
               (let analysis = dict_update analysis
                      [(''file_type'', PStr ''CSV File''),
                       (''analysis_type'', PStr ''data_analysis''),
                       (''summary'', PStr (''CSV file with '' @ str_nat (df_len df) @ '' rows and '' @
                                           str_nat (length (df_columns df)) @ '' columns''))];
                    text_content = [''CSV File Analysis''] @ table_header_lines df;
                    text_content =
                      (if \<not> df_empty df
                       then text_content @ [[CHR 0x0A] @ ''Sample data:'', df_head_table df 10]
                       else text_content);
                    numeric_cols = select_dtypes df Number;
                    text_content =
                      (if length numeric_cols > 0
                       then text_content @ [[CHR 0x0A] @ ''Numeric columns summary:'', df_describe_table df]
                       else text_content);
                    analysis = dict_set analysis ''text_content'' (PStr (join [CHR 0x0A] text_content))
                in (Inr analysis, w'))))"

text \<open>\<^verbatim>\<open>_analyze_image\<close>\<close>

definition analyze_image :: "world \<Rightarrow> path \<Rightarrow> (py_error + pydict) \<times> world" where
  "analyze_image w file_path =
     (let w' = log_read w file_path in
      case image_open w (path_str file_path) of
        Inl m \<Rightarrow> (Inl (ValueError (''Error analyzing image: '' @ m)), w')
      | Inr img \<Rightarrow>
          (case image_to_string img of
             Inl m \<Rightarrow> (Inl (ValueError (''Error analyzing image: '' @ m)), w')
           | Inr text \<Rightarrow>
               (Inr [(''file_type'', PStr ''Image''),
                     (''image_size'', PTuple [PInt (int (fst (image_size img))), PInt (int (snd (image_size img)))]),
                     (''image_mode'', PStr (image_mode img)),
                     (''text_content'', PStr text),
                     (''word_count'', PInt (int (length (py_split text)))),
                     (''char_count'', PInt (int (py_len text))),
                     (''analysis_type'', PStr ''ocr_extraction''),
                     (''summary'', PStr (''Image ('' @ str_nat (fst (image_size img)) @ ''x'' @
                         str_nat (snd (image_size img)) @ '') with '' @
                         str_nat (length (py_split text)) @ '' words extracted via OCR''))],
                w')))"

text \<open>\<^verbatim>\<open>analyze_document\<close>: the dispatch on the lower-cased suffix.\<close>

definition analyze_document :: "world \<Rightarrow> path \<Rightarrow> (py_error + pydict) \<times> world" where
  "analyze_document w file_path =
     (let suffix = py_lower (path_suffix file_path) in
      if suffix = ''.pdf'' then analyze_pdf w file_path
      else if suffix \<in> set [''.doc'', ''.docx''] then analyze_word_document w file_path
      else if suffix \<in> set [''.xlsx'', ''.xls''] then analyze_excel_file w file_path
      else if suffix = ''.csv'' then analyze_csv_file w file_path
      else if suffix \<in> {''.png'', ''.jpg'', ''.jpeg'', ''.bmp'', ''.tiff''} then analyze_image w file_path
      else (Inl (ValueError (''Unsupported file type: '' @ suffix)), w))"

section \<open>The advisor (\<^verbatim>\<open>services/ai_service.py\<close>)\<close>

subsection \<open>The language model\<close>

text \<open>
  The three message classes of the model client, and the client itself: what it
  answers to a message sequence (\<open>Inl m\<close> is a call that raises with text \<open>m\<close>), the
  log of the sequences it was invoked with, and what its message classes make of a content
  that is not a string.

  A message class validates the content it is built from: a string is stored as it is,
  \<^verbatim>\<open>None\<close> raises a validation error, and for a value of another type the outcome is the
  client library's (\<open>llm_validate\<close>: the content stored, or \<open>None\<close> when the validation
  refuses the value; a list of content blocks is stored as it is, a number is turned into
  its text by some versions and refused by others).
\<close>

datatype message = SystemMessage pyval | HumanMessage pyval | AIMessage pyval

record llm =
  llm_reply :: "message list \<Rightarrow> string + string"
  llm_calls :: "message list list"
  llm_validate :: "pyval \<Rightarrow> pyval option"

definition new_message :: "llm \<Rightarrow> (pyval \<Rightarrow> message) \<Rightarrow> pyval \<Rightarrow> py_error + message" where
  "new_message l cls content =
     (case content of
        PStr s \<Rightarrow> Inr (cls content)
      | PNone \<Rightarrow> Inl ValidationError
      | _ \<Rightarrow> (case llm_validate l content of
               None \<Rightarrow> Inl ValidationError
             | Some stored \<Rightarrow> Inr (cls stored)))"

definition ainvoke :: "llm \<Rightarrow> message list \<Rightarrow> (py_error + string) \<times> llm" where
  "ainvoke l messages =
     (case llm_reply l messages of Inl m \<Rightarrow> Inl (ModelError m) | Inr content \<Rightarrow> Inr content,
      l\<lparr>llm_calls := llm_calls l @ [messages]\<rparr>)"

subsection \<open>\<^verbatim>\<open>detect_language\<close>\<close>

definition detection_prompt :: "string \<Rightarrow> string" where
  "detection_prompt text =
     [CHR 0x0A] @
     ''        Detect the language of the following text and respond with onl'' @
     ''y the language code (e.g., '' @
     [CHR 0x27] @ ''en'' @ [CHR 0x27] @ '' for English, '' @
     [CHR 0x27] @ ''es'' @ [CHR 0x27] @ '' for Spanish, '' @
     [CHR 0x27] @ ''fr'' @ [CHR 0x27] @ '' for French, '' @
     [CHR 0x27] @ ''de'' @ [CHR 0x27] @ '' for German, '' @
     [CHR 0x27] @ ''hi'' @ [CHR 0x27] @ '' for Hindi, '' @
     [CHR 0x27] @ ''ta'' @ [CHR 0x27] @ '' for Tamil, '' @
     [CHR 0x27] @ ''te'' @ [CHR 0x27] @ '' for Telugu, '' @
     [CHR 0x27] @ ''ml'' @ [CHR 0x27] @ '' for Malayalam, '' @
     [CHR 0x27] @ ''kn'' @ [CHR 0x27] @ '' for Kannada, etc.).'' @
     [CHR 0x0A] @
     ''        '' @
     [CHR 0x0A] @
     ''        Text: '' @ text @
     [CHR 0x0A] @
     ''        '' @
     [CHR 0x0A] @
     ''        Language code:'' @
     [CHR 0x0A] @
     ''        ''"

text \<open>The prompt is a string, so the message is built without a validation error.\<close>

definition detect_language :: "unicode \<Rightarrow> llm \<Rightarrow> string \<Rightarrow> (py_error + string) \<times> llm" where
  "detect_language U l text =
     (let messages = [HumanMessage (PStr (detection_prompt text))] in
      case ainvoke l messages of
        (Inl e, l') \<Rightarrow> (Inl e, l')
      | (Inr response, l') \<Rightarrow>
          (let detected_language = str_lower U (py_strip response) in
           (Inr (if detected_language \<noteq> [] then detected_language else ''en''), l')))"

subsection \<open>\<^verbatim>\<open>get_advice\<close>\<close>

definition system_prompt :: "string \<Rightarrow> string" where
  "system_prompt language =
     [CHR 0x0A] @
     ''        You are a helpful multilingual financial advisor. The user has'' @
     '' asked a question in '' @ language @
     ''.'' @
     [CHR 0x0A] @
     ''        IMPORTANT: You must respond in the exact same language as the '' @
     ''user'' @ [CHR 0x27] @ ''s question.'' @
     [CHR 0x0A] @
     ''        '' @
     [CHR 0x0A] @
     ''        Language guidelines:'' @
     [CHR 0x0A] @
     ''        - If the user writes in English, respond in English'' @
     [CHR 0x0A] @
     ''        - If the user writes in Tamil, respond in Tamil'' @
     [CHR 0x0A] @
     ''        - If the user writes in Hindi, respond in Hindi'' @
     [CHR 0x0A] @
     ''        - If the user writes in Spanish, respond in Spanish'' @
     [CHR 0x0A] @
     ''        - If the user writes in French, respond in French'' @
     [CHR 0x0A] @
     ''        - If the user writes in German, respond in German'' @
     [CHR 0x0A] @
     ''        - If the user writes in any other language, respond in that sa'' @
     ''me language'' @
     [CHR 0x0A] @
     ''        '' @
     [CHR 0x0A] @
     ''        Always match the user'' @ [CHR 0x27] @
     ''s language exactly and provide helpful financial advice.'' @
     [CHR 0x0A] @
     ''        '' @
     [CHR 0x0A] @
     ''        ''"

text \<open>
  What one document of \<^verbatim>\<open>document_context\<close> adds to the system instruction. The
  analysis result is read with \<^verbatim>\<open>.get\<close>, so it has to be a dictionary when it is not
  empty.
\<close>

definition document_block :: "unicode \<Rightarrow> string \<Rightarrow> pydict \<Rightarrow> py_error + string" where
  "document_block U system_content doc =
     (let system_content = system_content @
            [CHR 0x0A, CHR 0xF0, CHR 0x9F, CHR 0x93, CHR 0x84] @ '' Document: '' @
            py_str U (py_get doc ''file_name'' (PStr ''Unknown'')) @ [CHR 0x0A];
          system_content = system_content @
            ''Type: '' @ py_str U (py_get doc ''file_type'' (PStr ''Unknown'')) @ [CHR 0x0A]
      in if truthy (py_get_none doc ''analysis_result'') then
           (case py_get_none doc ''analysis_result'' of
              PDict analysis \<Rightarrow>
                (let system_content = system_content @
                       ''Summary: '' @ py_str U (py_get analysis ''summary'' (PStr ''No summary available'')) @
                       [CHR 0x0A]
                 in if truthy (py_get_none analysis ''text_content'') then
                      (case py_slice_to 500 (py_get analysis ''text_content'' (PStr [])) of
                         Inl e \<Rightarrow> Inl e
                       | Inr text_preview \<Rightarrow>
                           Inr (system_content @ ''Content Preview: '' @ py_str U text_preview @
                                ''...'' @ [CHR 0x0A]))
                    else Inr system_content)
            | v \<Rightarrow> Inl (no_attribute (type_name v) ''get''))
         else Inr system_content)"

fun documents_loop :: "unicode \<Rightarrow> pydict list \<Rightarrow> string \<Rightarrow> py_error + string" where
  "documents_loop U [] system_content = Inr system_content"
| "documents_loop U (doc # docs) system_content =
     (case document_block U system_content doc of
        Inl e \<Rightarrow> Inl e
      | Inr system_content' \<Rightarrow> documents_loop U docs system_content')"

definition system_content_of :: "unicode \<Rightarrow> string \<Rightarrow> pydict list option \<Rightarrow> py_error + string" where
  "system_content_of U language document_context =
     (let system_content = system_prompt language in
      case document_context of
        None \<Rightarrow> Inr system_content
      | Some docs \<Rightarrow>
          if docs \<noteq> [] then
            (case documents_loop U docs
                    (system_content @ [CHR 0x0A, CHR 0x0A] @ ''IMPORTANT DOCUMENT CONTEXT:'' @ [CHR 0x0A]) of
               Inl e \<Rightarrow> Inl e
             | Inr system_content \<Rightarrow>
                 Inr (system_content @ [CHR 0x0A] @
                      ''Use this document context to provide more relevant and specific advice.'' @
                      [CHR 0x0A]))
          else Inr system_content)"

text \<open>
  The loop that replays the conversation history into \<open>messages\<close>. It stops with the
  validation error of the first entry whose content the message class refuses.
\<close>

fun history_loop :: "llm \<Rightarrow> pydict list \<Rightarrow> message list \<Rightarrow> py_error + message list" where
  "history_loop l [] messages = Inr messages"
| "history_loop l (msg # msgs) messages =
     (if py_get_none msg ''role'' = PStr ''user''
      then (case new_message l HumanMessage (py_get msg ''content'' (PStr [])) of
              Inl e \<Rightarrow> Inl e
            | Inr m \<Rightarrow> history_loop l msgs (messages @ [m]))
      else if py_get_none msg ''role'' = PStr ''assistant''
      then (case new_message l AIMessage (py_get msg ''content'' (PStr [])) of
              Inl e \<Rightarrow> Inl e
            | Inr m \<Rightarrow> history_loop l msgs (messages @ [m]))
      else history_loop l msgs messages)"

definition get_advice ::
  "unicode \<Rightarrow> llm \<Rightarrow> string \<Rightarrow> string option \<Rightarrow> pydict list option \<Rightarrow> pydict list option \<Rightarrow>
   (py_error + string) \<times> llm" where
  "get_advice U l prompt language conversation_context document_context =
     (case (case language of None \<Rightarrow> detect_language U l prompt | Some lang \<Rightarrow> (Inr lang, l)) of
        (Inl e, l') \<Rightarrow> (Inl e, l')
      | (Inr language, l') \<Rightarrow>
          (case system_content_of U language document_context of
             Inl e \<Rightarrow> (Inl e, l')
           | Inr system_content \<Rightarrow>
               (let messages = [];
                    messages = messages @ [SystemMessage (PStr system_content)]
                in case (case conversation_context of
                           None \<Rightarrow> Inr messages
                         | Some ctx \<Rightarrow> if ctx \<noteq> [] then history_loop l' ctx messages
                                      else Inr messages) of
                     Inl e \<Rightarrow> (Inl e, l')
                   | Inr messages \<Rightarrow>
                       (let messages = messages @ [HumanMessage (PStr prompt)]
                        in ainvoke l' messages))))"

subsection \<open>\<^verbatim>\<open>generate_document_insights\<close>\<close>

definition text_keywords :: "string list" where
  "text_keywords =
     [''expense'', ''income'', ''budget'', ''investment'', ''profit'', ''loss'', ''revenue'',
      ''cost'', ''salary'', ''payment'', ''transaction'', ''account'', ''balance'', ''credit'',
      ''debit'', ''loan'', ''mortgage'', ''insurance'', ''tax'', ''savings'']"

definition credit_insight :: string where
  "credit_insight = [CHR 0xF0, CHR 0x9F, CHR 0x8F, CHR 0xA6] @ '' Credit information found''"

definition expense_insight :: string where
  "expense_insight = [CHR 0xF0, CHR 0x9F, CHR 0x92, CHR 0xB0] @ '' Expense data found''"

text \<open>The insights of the branch on \<^verbatim>\<open>file_type\<close>.\<close>

definition file_type_insights :: "unicode \<Rightarrow> pydict \<Rightarrow> py_error + string list" where
  "file_type_insights U analysis_result =
     (let file_type = py_get analysis_result ''file_type'' (PStr ''Unknown'') in
      if file_type = PStr ''Excel Spreadsheet'' then
        (let insights =
               [[CHR 0xF0, CHR 0x9F, CHR 0x93, CHR 0x8A] @ '' Excel file contains '' @
                py_str U (py_get analysis_result ''sheet_count'' (PInt 0)) @ '' sheets with '' @
                py_str U (py_get analysis_result ''total_rows'' (PInt 0)) @ '' total rows'']
         in case (if truthy (py_get_none analysis_result ''potential_financial_columns'')
                  then (case py_join '', '' (py_get analysis_result ''potential_financial_columns'' (PList [])) of
                          Inl e \<Rightarrow> Inl e
                        | Inr cols \<Rightarrow>
                            Inr (insights @ [[CHR 0xF0, CHR 0x9F, CHR 0x92, CHR 0xB0] @
                                             '' Detected financial columns: '' @ cols]))
                  else Inr insights) of
              Inl e \<Rightarrow> Inl e
            | Inr insights \<Rightarrow>
                if truthy (py_get_none analysis_result ''numeric_columns'')
                then (case py_len_val (py_get analysis_result ''numeric_columns'' (PList [])) of
                        Inl e \<Rightarrow> Inl e
                      | Inr n \<Rightarrow>
                          Inr (insights @ [[CHR 0xF0, CHR 0x9F, CHR 0x93, CHR 0x88] @ '' Contains '' @
                                           str_nat n @ '' numeric columns for analysis'']))
                else Inr insights)
      else if file_type = PStr ''CSV File'' then
        (let insights =
               [[CHR 0xF0, CHR 0x9F, CHR 0x93, CHR 0x8B] @ '' CSV file with '' @
                py_str U (py_get analysis_result ''rows'' (PInt 0)) @ '' rows and '' @
                py_str U (py_get analysis_result ''columns'' (PInt 0)) @ '' columns'']
         in if truthy (py_get_none analysis_result ''potential_financial_columns'')
            then (case py_join '', '' (py_get analysis_result ''potential_financial_columns'' (PList [])) of
                    Inl e \<Rightarrow> Inl e
                  | Inr cols \<Rightarrow>
                      Inr (insights @ [[CHR 0xF0, CHR 0x9F, CHR 0x92, CHR 0xB0] @
                                       '' Financial data columns identified: '' @ cols]))
            else Inr insights)
      else if file_type = PStr ''PDF Document'' then
        Inr [[CHR 0xF0, CHR 0x9F, CHR 0x93, CHR 0x84] @ '' PDF document with '' @
             py_str U (py_get analysis_result ''page_count'' (PInt 0)) @ '' pages'',
             [CHR 0xF0, CHR 0x9F, CHR 0x93, CHR 0x9D] @ '' Contains '' @
             py_str U (py_get analysis_result ''word_count'' (PInt 0)) @ '' words of text content'']
      else if file_type = PStr ''Word Document'' then
        (let insights =
               [[CHR 0xF0, CHR 0x9F, CHR 0x93, CHR 0x9D] @ '' Word document with '' @
                py_str U (py_get analysis_result ''paragraph_count'' (PInt 0)) @ '' paragraphs'']
         in case py_gt_zero (py_get analysis_result ''table_count'' (PInt 0)) of
              Inl e \<Rightarrow> Inl e
            | Inr has_tables \<Rightarrow>
                Inr (if has_tables
                     then insights @ [[CHR 0xF0, CHR 0x9F, CHR 0x93, CHR 0x8A] @ '' Contains '' @
                                      py_str U (py_get analysis_result ''table_count'' (PInt 0)) @
                                      '' tables with structured data'']
                     else insights))
      else if file_type = PStr ''Image'' then
        (case py_index (py_get analysis_result ''image_size'' (PList [PInt 0, PInt 0])) 0 of
           Inl e \<Rightarrow> Inl e
         | Inr width \<Rightarrow>
             (case py_index (py_get analysis_result ''image_size'' (PList [PInt 0, PInt 0])) 1 of
                Inl e \<Rightarrow> Inl e
              | Inr height \<Rightarrow>
                  Inr [[CHR 0xF0, CHR 0x9F, CHR 0x96, CHR 0xBC, CHR 0xEF, CHR 0xB8, CHR 0x8F] @
                       '' Image document ('' @ py_str U width @ ''x'' @ py_str U height @ '')'',
                       [CHR 0xF0, CHR 0x9F, CHR 0x94, CHR 0x8D] @ '' OCR extracted '' @
                       py_str U (py_get analysis_result ''word_count'' (PInt 0)) @ '' words'']))
      else Inr [])"

text \<open>The insight on the financial keywords found in the text.\<close>

definition keyword_insights :: "pydict \<Rightarrow> string list \<Rightarrow> py_error + string list" where
  "keyword_insights analysis_result insights =
     (if truthy (py_get_none analysis_result ''text_content'') then
        (case py_lower_val (py_get analysis_result ''text_content'' (PStr [])) of
           Inl e \<Rightarrow> Inl e
         | Inr text_lower \<Rightarrow>
             (let found_keywords = filter (\<lambda>keyword. py_in keyword text_lower) text_keywords in
              Inr (if found_keywords \<noteq> []
                   then insights @ [[CHR 0xF0, CHR 0x9F, CHR 0x92, CHR 0xBC] @
                                    '' Financial keywords found: '' @ join '', '' (take 5 found_keywords)]
                   else insights)))
      else Inr insights)"

definition generate_document_insights :: "unicode \<Rightarrow> pydict \<Rightarrow> py_error + string list" where
  "generate_document_insights U analysis_result =
     (case file_type_insights U analysis_result of
        Inl e \<Rightarrow> Inl e
      | Inr insights \<Rightarrow>
          (case keyword_insights analysis_result insights of
             Inl e \<Rightarrow> Inl e
           | Inr insights \<Rightarrow>
               (let insights =
                      (if truthy (py_get_none analysis_result ''potential_financial_columns'')
                       then insights @ [expense_insight] else insights);
                    insights =
                      (if list_ex (\<lambda>col. py_in col (py_lower (py_str U (py_get analysis_result
                                       ''column_names'' (PList [])))))
                            [''credit'', ''debit'', ''balance'']
                       then insights @ [credit_insight] else insights)
                in Inr insights)))"

section \<open>The specification's side\<close>

text \<open>
  The replay of the conversation history as the specification words it: the entries in
  list order, an entry of role \<^verbatim>\<open>user\<close> as a user turn, an entry of role \<^verbatim>\<open>assistant\<close> as an
  assistant turn, an entry of any other role skipped.
\<close>

definition replay_turns :: "pydict list \<Rightarrow> message list" where
  "replay_turns ctx =
     List.map_filter
       (\<lambda>msg. if py_get_none msg ''role'' = PStr ''user''
              then Some (HumanMessage (py_get msg ''content'' (PStr [])))
              else if py_get_none msg ''role'' = PStr ''assistant''
              then Some (AIMessage (py_get msg ''content'' (PStr [])))
              else None)
       ctx"

text \<open>
  What \<^verbatim>\<open>pandas.read_csv\<close> returns for a file it parses: the labels are the strings of the
  header line, and a column that holds no value has the dtype \<^verbatim>\<open>object\<close> (a numeric dtype is
  inferred from values only).
\<close>

definition read_csv_table :: "dataframe \<Rightarrow> bool" where
  "read_csv_table df =
     (list_all (\<lambda>c. case col_label c of LStr s \<Rightarrow> True | LOther ty r \<Rightarrow> False) (df_columns df) \<and>
      (df_len df = 0 \<longrightarrow> list_all (\<lambda>c. col_kind c = Object) (df_columns df)))"

text \<open>
  The typing of an analysis record, as far as the insight extraction reads it: a field
  may be missing, and when it is present \<^verbatim>\<open>potential_financial_columns\<close> is a list of
  strings, \<^verbatim>\<open>numeric_columns\<close> a list, \<^verbatim>\<open>table_count\<close> an integer, \<^verbatim>\<open>image_size\<close> a pair
  (a tuple, or the list it becomes in JSON) and \<^verbatim>\<open>text_content\<close> a string.
\<close>

definition is_str :: "pyval \<Rightarrow> bool" where
  "is_str v = (case v of PStr s \<Rightarrow> True | _ \<Rightarrow> False)"

definition is_str_list :: "pyval \<Rightarrow> bool" where
  "is_str_list v = (case v of PList xs \<Rightarrow> list_all is_str xs | _ \<Rightarrow> False)"

definition is_list :: "pyval \<Rightarrow> bool" where
  "is_list v = (case v of PList xs \<Rightarrow> True | _ \<Rightarrow> False)"

definition is_int :: "pyval \<Rightarrow> bool" where
  "is_int v = (case v of PInt i \<Rightarrow> True | _ \<Rightarrow> False)"

definition is_pair :: "pyval \<Rightarrow> bool" where
  "is_pair v = (case v of PList xs \<Rightarrow> length xs = 2 | PTuple xs \<Rightarrow> length xs = 2 | _ \<Rightarrow> False)"

definition field_ok :: "pydict \<Rightarrow> string \<Rightarrow> (pyval \<Rightarrow> bool) \<Rightarrow> bool" where
  "field_ok r k ok = (case map_of r k of None \<Rightarrow> True | Some v \<Rightarrow> ok v)"

definition analysis_record :: "pydict \<Rightarrow> bool" where
  "analysis_record r =
     (field_ok r ''potential_financial_columns'' is_str_list \<and>
      field_ok r ''numeric_columns'' is_list \<and>
      field_ok r ''table_count'' is_int \<and>
      field_ok r ''image_size'' is_pair \<and>
      field_ok r ''text_content'' is_str)"

text \<open>
  \<^verbatim>\<open>str.isprintable()\<close>: every code point is printable. In ASCII those are the characters
  from the space to the tilde; outside ASCII the Unicode database says. These are the
  strings in which \<^verbatim>\<open>repr\<close> writes no code point as \<^verbatim>\<open>\t\<close>, \<^verbatim>\<open>\n\<close>, \<^verbatim>\<open>\r\<close>, \<^verbatim>\<open>\xNN\<close>, \<^verbatim>\<open>\uNNNN\<close> or
  \<^verbatim>\<open>\UNNNNNNNN\<close>.
\<close>

definition is_control :: "char \<Rightarrow> bool" where
  "is_control c = ((of_char c :: nat) < 32 \<or> (of_char c :: nat) = 127)"

definition printable_cp :: "unicode \<Rightarrow> string \<Rightarrow> bool" where
  "printable_cp U g =
     (if length g = 1 \<and> is_ascii (hd g) then \<not> is_control (hd g) else u_printable U g)"

definition printable :: "unicode \<Rightarrow> string \<Rightarrow> bool" where
  "printable U s = list_all (printable_cp U) (code_points s)"

text \<open>
  A conversation history whose replayed entries, those of role \<^verbatim>\<open>user\<close> or \<^verbatim>\<open>assistant\<close>,
  have a string as content (a missing content reads as the empty string).
\<close>

definition string_contents :: "pydict list \<Rightarrow> bool" where
  "string_contents ctx =
     list_all
       (\<lambda>msg. (py_get_none msg ''role'' = PStr ''user'' \<or>
               py_get_none msg ''role'' = PStr ''assistant'') \<longrightarrow>
              is_str (py_get msg ''content'' (PStr [])))
       ctx"

text \<open>A computation that returns a value rather than raising.\<close>

definition returns :: "py_error + 'a \<Rightarrow> bool" where
  "returns x = (\<exists>v. x = Inr v)"

text \<open>The three words of the last rule of the insight extraction.\<close>

definition credit_words :: "string list" where
  "credit_words = [''credit'', ''debit'', ''balance'']"

section \<open>Example inputs\<close>

text \<open>
  An excerpt of the Unicode database: six capital letters of Latin-1 with their small
  letters, and the code points U+0080..U+00A0, U+00AD and U+200B as the ones that are
  not printable.
\<close>

definition example_small_letters :: "(string \<times> string) list" where
  "example_small_letters =
     [([CHR 0xC3, CHR 0x84], [CHR 0xC3, CHR 0xA4]),
      ([CHR 0xC3, CHR 0x87], [CHR 0xC3, CHR 0xA7]),
      ([CHR 0xC3, CHR 0x89], [CHR 0xC3, CHR 0xA9]),
      ([CHR 0xC3, CHR 0x91], [CHR 0xC3, CHR 0xB1]),
      ([CHR 0xC3, CHR 0x96], [CHR 0xC3, CHR 0xB6]),
      ([CHR 0xC3, CHR 0x9C], [CHR 0xC3, CHR 0xBC])]"

definition example_unicode :: unicode where
  "example_unicode =
     \<lparr>u_printable =
        (\<lambda>g. \<not> (128 \<le> cp_value g \<and> cp_value g \<le> 160) \<and> cp_value g \<noteq> 173 \<and>
             cp_value g \<noteq> 8203),
      u_lower =
        (\<lambda>s. concat (map (\<lambda>g. case map_of example_small_letters g of
                                 Some l \<Rightarrow> l
                               | None \<Rightarrow> map lower_char g)
                          (code_points s)))\<rparr>"

text \<open>
  A small upload directory: a PDF of three pages, two Word documents (one with a table,
  one without), a workbook of one sheet, a CSV table of three rows with the columns
  \<^verbatim>\<open>Date\<close>, \<^verbatim>\<open>Amount\<close> and \<^verbatim>\<open>Category\<close>, a CSV file that has the header line only, and an
  image.
\<close>

definition example_docx :: docx where
  "example_docx =
     \<lparr>doc_paragraphs = [''Budget 2024'', ''   '', ''Totals''],
      doc_tables = [[[''Item '', '' Cost''], [''Rent'', ''1200'']], []]\<rparr>"

definition plain_docx :: docx where
  "plain_docx = \<lparr>doc_paragraphs = [''Notes''], doc_tables = []\<rparr>"

text \<open>
  A document whose first paragraph is a no-break space and an em space, and whose only
  cell has a no-break space on each side of its word.
\<close>

definition spaced_docx :: docx where
  "spaced_docx =
     \<lparr>doc_paragraphs = [[CHR 0xC2, CHR 0xA0, CHR 0xE2, CHR 0x80, CHR 0x83], ''Notes''],
      doc_tables = [[[[CHR 0xC2, CHR 0xA0] @ ''Cost'' @ [CHR 0xC2, CHR 0xA0]]]]\<rparr>"

definition example_df :: dataframe where
  "example_df =
     \<lparr>df_len = 3,
      df_columns =
        [\<lparr>col_label = LStr ''Date'', col_dtype = ''object'', col_kind = Object, col_nulls = 0\<rparr>,
         \<lparr>col_label = LStr ''Amount'', col_dtype = ''int64'', col_kind = Number, col_nulls = 0\<rparr>,
         \<lparr>col_label = LStr ''Category'', col_dtype = ''object'', col_kind = Object, col_nulls = 1\<rparr>],
      df_describe =
        PDict [(''Amount'', PDict [(''count'', PFloat ''3.0''), (''mean'', PFloat ''150.0''),
                                  (''min'', PFloat ''100.0''), (''max'', PFloat ''200.0'')])],
      df_head_table = (\<lambda>n. ''|    | Date       |   Amount | Category   |''),
      df_describe_table = ''|       |   Amount |''\<rparr>"

definition header_only_df :: dataframe where
  "header_only_df =
     \<lparr>df_len = 0,
      df_columns =
        [\<lparr>col_label = LStr ''Date'', col_dtype = ''object'', col_kind = Object, col_nulls = 0\<rparr>,
         \<lparr>col_label = LStr ''Amount'', col_dtype = ''object'', col_kind = Object, col_nulls = 0\<rparr>,
         \<lparr>col_label = LStr ''Category'', col_dtype = ''object'', col_kind = Object, col_nulls = 0\<rparr>],
      df_describe = PDict [],
      df_head_table = (\<lambda>n. ''| Date   | Amount   | Category   |''),
      df_describe_table = []\<rparr>"

definition example_image :: image where
  "example_image =
     \<lparr>image_size = (640, 480), image_mode = ''RGB'', image_to_string = Inr ''Total due 42''\<rparr>"

definition example_world :: world where
  "example_world =
     \<lparr>pdf_reader =
        (\<lambda>f. if f = ''uploads/a.pdf''
              then Inr [PageText (Some ''Invoice total''), PageText None, PageText (Some [])]
              else Inl ''No such file''),
      docx_document =
        (\<lambda>f. if f = ''uploads/a.docx'' then Inr example_docx
              else if f = ''uploads/b.docx'' then Inr plain_docx
              else Inl ''Package not found''),
      pd_read_excel =
        (\<lambda>f. if f = ''uploads/a.xlsx'' then Inr [(''Sheet1'', example_df)]
              else Inl ''No such file''),
      pd_read_csv =
        (\<lambda>f. if f = ''uploads/a.csv'' then Inr example_df
              else if f = ''uploads/empty.csv'' then Inr header_only_df
              else Inl ''No such file''),
      image_open =
        (\<lambda>f. if f = ''uploads/a.png'' then Inr example_image else Inl ''cannot identify image file''),
      reads = []\<rparr>"

section \<open>Properties\<close>

subsection \<open>Auxiliary facts on strings and dictionaries\<close>

lemma map_of_dict_set: "map_of (dict_set d k v) = (map_of d)(k \<mapsto> v)"
  by (simp add: dict_set_def update_conv')

lemma lower_char_idem: "lower_char (lower_char c) = lower_char c"
  by (simp add: lower_char_def upper_letters_def lower_letters_def)

lemma py_lower_idem: "py_lower (py_lower s) = py_lower s"
  by (simp add: py_lower_def lower_char_idem)

lemma py_lower_Nil_iff: "py_lower s = [] \<longleftrightarrow> s = []"
  by (simp add: py_lower_def)

subsection \<open>Dispatch on the extension\<close>

text \<open>
  Claim C2. A path whose lower-cased suffix is not one of the supported extensions makes
  \<^verbatim>\<open>analyze_document\<close> raise the unsupported-format error, whatever the files hold, and
  no reader is called: the world, with its log of reads, comes back unchanged.
\<close>

theorem unsupported_suffix_rejected_before_reading:
  assumes "py_lower (path_suffix file_path) \<notin> fst ` set supported_types"
  shows "analyze_document w file_path =
           (Inl (ValueError (''Unsupported file type: '' @ py_lower (path_suffix file_path))), w)"
  using assms by (simp add: analyze_document_def supported_types_def Let_def)

theorem unsupported_suffix_rejected_before_reading_witness:
  "py_lower ''.txt'' \<notin> fst ` set supported_types \<and>
   (\<forall>w. analyze_document w \<lparr>path_str = ''uploads/notes.txt'', path_suffix = ''.txt''\<rparr> =
         (Inl (ValueError ''Unsupported file type: .txt''), w))"
proof -
  have low: "py_lower ''.txt'' = ''.txt''"
    by (simp add: py_lower_def lower_char_def upper_letters_def lower_letters_def)
  have no: "py_lower (path_suffix \<lparr>path_str = ''uploads/notes.txt'', path_suffix = ''.txt''\<rparr>)
              \<notin> fst ` set supported_types"
    by (simp add: low supported_types_def)
  show ?thesis
    using no unsupported_suffix_rejected_before_reading [OF no] by (simp add: low)
qed

lemma analyze_pdf_suffix: "analyze_pdf w (p\<lparr>path_suffix := s\<rparr>) = analyze_pdf w p"
  by (simp add: analyze_pdf_def log_read_def)
lemma analyze_word_suffix: "analyze_word_document w (p\<lparr>path_suffix := s\<rparr>) = analyze_word_document w p"
  by (simp add: analyze_word_document_def log_read_def)
lemma analyze_excel_suffix: "analyze_excel_file w (p\<lparr>path_suffix := s\<rparr>) = analyze_excel_file w p"
  by (simp add: analyze_excel_file_def log_read_def)
lemma analyze_csv_suffix: "analyze_csv_file w (p\<lparr>path_suffix := s\<rparr>) = analyze_csv_file w p"
  by (simp add: analyze_csv_file_def log_read_def)
lemma analyze_image_suffix: "analyze_image w (p\<lparr>path_suffix := s\<rparr>) = analyze_image w p"
  by (simp add: analyze_image_def log_read_def)

lemmas analyzers_ignore_suffix =
  analyze_pdf_suffix analyze_word_suffix analyze_excel_suffix analyze_csv_suffix analyze_image_suffix

lemma analyze_document_lower:
  "analyze_document w (p\<lparr>path_suffix := py_lower (path_suffix p)\<rparr>) = analyze_document w p"
  by (simp add: analyze_document_def Let_def py_lower_idem analyzers_ignore_suffix)

text \<open>
  Claim C9. The dispatch is on the lower-cased suffix: a path selects the same analyzer,
  and \<^verbatim>\<open>get_file_type\<close> the same label, as the path with its suffix in lower case; two
  paths whose suffixes differ in letter case only get the same label; and every case
  variant of a supported extension goes to the analyzer of that extension.
\<close>

theorem dispatch_case_insensitive:
  "analyze_document w p = analyze_document w (p\<lparr>path_suffix := py_lower (path_suffix p)\<rparr>) \<and>
   get_file_type p = get_file_type (p\<lparr>path_suffix := py_lower (path_suffix p)\<rparr>) \<and>
   (py_lower (path_suffix p) = py_lower (path_suffix q) \<longrightarrow> get_file_type p = get_file_type q) \<and>
   (py_lower (path_suffix p) = ''.pdf'' \<longrightarrow> analyze_document w p = analyze_pdf w p) \<and>
   (py_lower (path_suffix p) \<in> {''.doc'', ''.docx''} \<longrightarrow> analyze_document w p = analyze_word_document w p) \<and>
   (py_lower (path_suffix p) \<in> {''.xlsx'', ''.xls''} \<longrightarrow> analyze_document w p = analyze_excel_file w p) \<and>
   (py_lower (path_suffix p) = ''.csv'' \<longrightarrow> analyze_document w p = analyze_csv_file w p) \<and>
   (py_lower (path_suffix p) \<in> {''.png'', ''.jpg'', ''.jpeg'', ''.bmp'', ''.tiff''} \<longrightarrow>
      analyze_document w p = analyze_image w p)"
proof -
  have a: "analyze_document w p = analyze_document w (p\<lparr>path_suffix := py_lower (path_suffix p)\<rparr>)"
    by (simp add: analyze_document_lower)
  have b: "get_file_type p = get_file_type (p\<lparr>path_suffix := py_lower (path_suffix p)\<rparr>)"
    by (simp add: get_file_type_def py_lower_idem)
  have c: "py_lower (path_suffix p) = py_lower (path_suffix q) \<longrightarrow> get_file_type p = get_file_type q"
    by (simp add: get_file_type_def)
  have d: "py_lower (path_suffix p) = ''.pdf'' \<longrightarrow> analyze_document w p = analyze_pdf w p"
    by (simp add: analyze_document_def)
  have e: "py_lower (path_suffix p) \<in> {''.doc'', ''.docx''} \<longrightarrow> analyze_document w p = analyze_word_document w p"
    by (auto simp add: analyze_document_def)
  have f: "py_lower (path_suffix p) \<in> {''.xlsx'', ''.xls''} \<longrightarrow> analyze_document w p = analyze_excel_file w p"
    by (auto simp add: analyze_document_def)
  have g: "py_lower (path_suffix p) = ''.csv'' \<longrightarrow> analyze_document w p = analyze_csv_file w p"
    by (simp add: analyze_document_def)
  have h: "py_lower (path_suffix p) \<in> {''.png'', ''.jpg'', ''.jpeg'', ''.bmp'', ''.tiff''} \<longrightarrow>
      analyze_document w p = analyze_image w p"
    by (auto simp add: analyze_document_def)
  from a b c d e f g h show ?thesis by blast
qed

theorem dispatch_case_insensitive_witness:
  "py_lower ''.PDF'' = ''.pdf'' \<and> py_lower ''.Csv'' = ''.csv'' \<and>
   get_file_type \<lparr>path_str = ''uploads/Report.PDF'', path_suffix = ''.PDF''\<rparr> = ''PDF Document'' \<and>
   get_file_type \<lparr>path_str = ''uploads/report.pdf'', path_suffix = ''.pdf''\<rparr> = ''PDF Document'' \<and>
   (\<forall>w. analyze_document w \<lparr>path_str = ''uploads/Report.PDF'', path_suffix = ''.PDF''\<rparr> =
         analyze_pdf w \<lparr>path_str = ''uploads/Report.PDF'', path_suffix = ''.PDF''\<rparr>) \<and>
   (\<forall>w. analyze_document w \<lparr>path_str = ''uploads/Data.Csv'', path_suffix = ''.Csv''\<rparr> =
         analyze_csv_file w \<lparr>path_str = ''uploads/Data.Csv'', path_suffix = ''.Csv''\<rparr>)"
proof -
  define P where "P = \<lparr>path_str = ''uploads/Report.PDF'', path_suffix = ''.PDF''\<rparr>"
  define Q where "Q = \<lparr>path_str = ''uploads/report.pdf'', path_suffix = ''.pdf''\<rparr>"
  define D where "D = \<lparr>path_str = ''uploads/Data.Csv'', path_suffix = ''.Csv''\<rparr>"
  have l1: "py_lower ''.PDF'' = ''.pdf''"
    by (simp add: py_lower_def lower_char_def upper_letters_def lower_letters_def)
  have l2: "py_lower ''.pdf'' = ''.pdf''"
    by (simp add: py_lower_def lower_char_def upper_letters_def lower_letters_def)
  have l3: "py_lower ''.Csv'' = ''.csv''"
    by (simp add: py_lower_def lower_char_def upper_letters_def lower_letters_def)
  have sP: "py_lower (path_suffix P) = ''.pdf''" by (simp add: P_def l1)
  have sQ: "py_lower (path_suffix Q) = ''.pdf''" by (simp add: Q_def l2)
  have sD: "py_lower (path_suffix D) = ''.csv''" by (simp add: D_def l3)
  have tQ: "get_file_type Q = ''PDF Document''"
    by (simp add: get_file_type_def sQ supported_types_def)
  have tP: "get_file_type P = ''PDF Document''"
    using dispatch_case_insensitive [of undefined P Q] sP sQ tQ by metis
  have aP: "analyze_document w P = analyze_pdf w P" for w
    using dispatch_case_insensitive [of w P Q] sP by blast
  have aD: "analyze_document w D = analyze_csv_file w D" for w
    using dispatch_case_insensitive [of w D D] sD by blast
  show ?thesis
    using l1 l3 tP tQ aP aD unfolding P_def Q_def D_def by blast
qed

subsection \<open>The advisor's calls of the language model\<close>

lemma code_points_concat: "concat (code_points s) = s"
proof (induction s)
  case Nil
  then show ?case by simp
next
  case (Cons c cs)
  then show ?case by (cases "code_points cs") (auto split: if_splits)
qed

lemma trim_shape:
  "\<exists>a m b. xs = a @ m @ b \<and> list_all P a \<and> list_all P b \<and>
            rev (dropWhile P (rev (dropWhile P xs))) = m \<and>
            (m \<noteq> [] \<longrightarrow> \<not> P (hd m) \<and> \<not> P (last m))"
proof -
  define d where "d = dropWhile P xs"
  define m where "m = rev (dropWhile P (rev d))"
  define b where "b = rev (takeWhile P (rev d))"
  have "d = m @ b"
    unfolding m_def b_def by (metis rev_append rev_rev_ident takeWhile_dropWhile_id)
  then have xs: "xs = takeWhile P xs @ m @ b"
    unfolding d_def by (metis takeWhile_dropWhile_id)
  have a: "list_all P (takeWhile P xs)"
    by (auto simp: list_all_iff dest: set_takeWhileD)
  have b: "list_all P b"
    by (auto simp: b_def list_all_iff dest: set_takeWhileD)
  have ends: "\<not> P (hd m) \<and> \<not> P (last m)" if "m \<noteq> []"
  proof -
    from that have e: "dropWhile P (rev d) \<noteq> []" by (simp add: m_def)
    then have "\<not> P (hd (dropWhile P (rev d)))" by (rule hd_dropWhile)
    then have l: "\<not> P (last m)" using e by (simp add: m_def last_rev)
    from e have dn: "d \<noteq> []" by auto
    from e have "last (dropWhile P (rev d)) = last (rev d)"
      by (metis last_appendR takeWhile_dropWhile_id)
    then have "hd m = hd d" using e dn by (simp add: m_def hd_rev last_rev)
    moreover have "\<not> P (hd d)" using dn unfolding d_def by (rule hd_dropWhile)
    ultimately show ?thesis using l by simp
  qed
  from xs a b ends show ?thesis unfolding m_def d_def by blast
qed

lemma py_strip_shape:
  "\<exists>a m b. code_points s = a @ m @ b \<and> list_all is_space a \<and> list_all is_space b \<and>
            py_strip s = concat m \<and> (m \<noteq> [] \<longrightarrow> \<not> is_space (hd m) \<and> \<not> is_space (last m))"
proof -
  from trim_shape [of "code_points s" is_space] obtain a m b where
    "code_points s = a @ m @ b" "list_all is_space a" "list_all is_space b"
    "rev (dropWhile is_space (rev (dropWhile is_space (code_points s)))) = m"
    "m \<noteq> [] \<longrightarrow> \<not> is_space (hd m) \<and> \<not> is_space (last m)"
    by blast
  moreover from this have "py_strip s = concat m" by (simp add: py_strip_def)
  ultimately show ?thesis by blast
qed

lemma py_strip_ascii: "list_all is_ascii s \<Longrightarrow> list_all is_ascii (py_strip s)"
proof -
  assume s: "list_all is_ascii s"
  from py_strip_shape [of s] obtain a m b where
    "code_points s = a @ m @ b" and st: "py_strip s = concat m"
    by blast
  then have "concat (code_points s) = concat a @ concat m @ concat b" by simp
  then have "s = concat a @ py_strip s @ concat b" unfolding code_points_concat st .
  then have "set (py_strip s) \<subseteq> set s" by (metis Un_iff set_append subsetI)
  with s show ?thesis by (auto simp: list_all_iff)
qed

lemma py_strip_Nil: "py_strip [] = []"
  by (simp add: py_strip_def)

text \<open>
  Claim C4. When the model answers \<open>response\<close> to the detection prompt,
  \<^verbatim>\<open>detect_language\<close> returns \<^verbatim>\<open>"en"\<close> if the response is empty once trimmed, and otherwise
  the trimmed response in lower case (\<^verbatim>\<open>"en"\<close> again if that were empty). Trimming removes a
  run of whitespace code points at each end and leaves none there; lower-casing an ASCII
  text maps each capital letter to its small letter. In particular an empty response gives
  \<^verbatim>\<open>"en"\<close>.
\<close>

theorem detect_language_trims_and_lowers:
  assumes "llm_reply l [HumanMessage (PStr (detection_prompt text))] = Inr response"
  shows "fst (detect_language U l text) =
           Inr (if str_lower U (py_strip response) = [] then ''en''
                else str_lower U (py_strip response)) \<and>
         (py_strip response = [] \<longrightarrow> fst (detect_language U l text) = Inr ''en'') \<and>
         (py_strip response \<noteq> [] \<and> list_all is_ascii response \<longrightarrow>
            fst (detect_language U l text) = Inr (map lower_char (py_strip response))) \<and>
         (\<exists>a m b. code_points response = a @ m @ b \<and>
                   list_all is_space a \<and> list_all is_space b \<and> py_strip response = concat m \<and>
                   (m \<noteq> [] \<longrightarrow> \<not> is_space (hd m) \<and> \<not> is_space (last m))) \<and>
         (response = [] \<longrightarrow> fst (detect_language U l text) = Inr ''en'')"
proof -
  have r: "fst (detect_language U l text) =
           Inr (if str_lower U (py_strip response) = [] then ''en''
                else str_lower U (py_strip response))"
    using assms by (simp add: detect_language_def ainvoke_def Let_def)
  have e: "py_strip response = [] \<longrightarrow> fst (detect_language U l text) = Inr ''en''"
    using r by (simp add: str_lower_def py_lower_def)
  have a: "py_strip response \<noteq> [] \<and> list_all is_ascii response \<longrightarrow>
            fst (detect_language U l text) = Inr (map lower_char (py_strip response))"
    using r py_strip_ascii [of response] by (simp add: str_lower_def py_lower_def)
  have n: "response = [] \<longrightarrow> fst (detect_language U l text) = Inr ''en''"
    using e by (simp add: py_strip_Nil)
  from r e a n py_strip_shape [of response] show ?thesis by (intro conjI)
qed

theorem detect_language_trims_and_lowers_witness:
  "fst (detect_language example_unicode
          \<lparr>llm_reply = (\<lambda>messages. Inr []), llm_calls = [], llm_validate = (\<lambda>v. None)\<rparr> []) =
     Inr ''en'' \<and>
   fst (detect_language example_unicode
          \<lparr>llm_reply = (\<lambda>messages. Inr [CHR 0xC2, CHR 0xA0, CHR 0xE3, CHR 0x80, CHR 0x80]),
           llm_calls = [], llm_validate = (\<lambda>v. None)\<rparr> ''Hello'') =
     Inr ''en'' \<and>
   fst (detect_language example_unicode
          \<lparr>llm_reply = (\<lambda>messages. Inr ('' EN'' @ [CHR 0x0A])),
           llm_calls = [], llm_validate = (\<lambda>v. None)\<rparr> ''Hello'') =
     Inr ''en'' \<and>
   fst (detect_language example_unicode
          \<lparr>llm_reply = (\<lambda>messages. Inr ('' FRAN'' @ [CHR 0xC3, CHR 0x87] @ ''AIS '')),
           llm_calls = [], llm_validate = (\<lambda>v. None)\<rparr> ''Bonjour'') =
     Inr (''fran'' @ [CHR 0xC3, CHR 0xA7] @ ''ais'')"
proof -
  have s2: "py_strip [CHR 0xC2, CHR 0xA0, CHR 0xE3, CHR 0x80, CHR 0x80] = []"
    by (simp add: py_strip_def is_space_def whitespace_def is_ascii_def is_cont_def)
  have s3: "py_strip ('' EN'' @ [CHR 0x0A]) = ''EN''"
    by (simp add: py_strip_def is_space_def whitespace_def is_ascii_def is_cont_def)
  have s4: "py_strip ('' FRAN'' @ [CHR 0xC3, CHR 0x87] @ ''AIS '') =
              ''FRAN'' @ [CHR 0xC3, CHR 0x87] @ ''AIS''"
    by (simp add: py_strip_def is_space_def whitespace_def is_ascii_def is_cont_def)
  have l3: "str_lower example_unicode ''EN'' = ''en''"
    by (simp add: str_lower_def is_ascii_def py_lower_def lower_char_def upper_letters_def
                  lower_letters_def)
  have l4: "str_lower example_unicode (''FRAN'' @ [CHR 0xC3, CHR 0x87] @ ''AIS'') =
              ''fran'' @ [CHR 0xC3, CHR 0xA7] @ ''ais''"
    by (simp add: str_lower_def is_ascii_def is_cont_def example_unicode_def
                  example_small_letters_def lower_char_def upper_letters_def lower_letters_def)
  have "fst (detect_language example_unicode
          \<lparr>llm_reply = (\<lambda>messages. Inr []), llm_calls = [], llm_validate = (\<lambda>v. None)\<rparr> []) =
     Inr ''en''"
    using detect_language_trims_and_lowers
            [of "\<lparr>llm_reply = (\<lambda>messages. Inr []), llm_calls = [], llm_validate = (\<lambda>v. None)\<rparr>"
                "[]" "[]" example_unicode, THEN conjunct2, THEN conjunct1]
    by (simp add: py_strip_Nil)
  moreover have "fst (detect_language example_unicode
          \<lparr>llm_reply = (\<lambda>messages. Inr [CHR 0xC2, CHR 0xA0, CHR 0xE3, CHR 0x80, CHR 0x80]),
           llm_calls = [], llm_validate = (\<lambda>v. None)\<rparr> ''Hello'') =
     Inr ''en''"
    using detect_language_trims_and_lowers
            [of "\<lparr>llm_reply = (\<lambda>messages. Inr [CHR 0xC2, CHR 0xA0, CHR 0xE3, CHR 0x80, CHR 0x80]),
                  llm_calls = [], llm_validate = (\<lambda>v. None)\<rparr>"
                "''Hello''" "[CHR 0xC2, CHR 0xA0, CHR 0xE3, CHR 0x80, CHR 0x80]" example_unicode,
             THEN conjunct2, THEN conjunct1]
    by (simp only: s2) simp
  moreover have "fst (detect_language example_unicode
          \<lparr>llm_reply = (\<lambda>messages. Inr ('' EN'' @ [CHR 0x0A])),
           llm_calls = [], llm_validate = (\<lambda>v. None)\<rparr> ''Hello'') =
     Inr ''en''"
    using detect_language_trims_and_lowers
            [of "\<lparr>llm_reply = (\<lambda>messages. Inr ('' EN'' @ [CHR 0x0A])),
                  llm_calls = [], llm_validate = (\<lambda>v. None)\<rparr>"
                "''Hello''" "'' EN'' @ [CHR 0x0A]" example_unicode, THEN conjunct1]
    by (simp only: s3 l3) simp
  moreover have "fst (detect_language example_unicode
          \<lparr>llm_reply = (\<lambda>messages. Inr ('' FRAN'' @ [CHR 0xC3, CHR 0x87] @ ''AIS '')),
           llm_calls = [], llm_validate = (\<lambda>v. None)\<rparr> ''Bonjour'') =
     Inr (''fran'' @ [CHR 0xC3, CHR 0xA7] @ ''ais'')"
    using detect_language_trims_and_lowers
            [of "\<lparr>llm_reply = (\<lambda>messages. Inr ('' FRAN'' @ [CHR 0xC3, CHR 0x87] @ ''AIS '')),
                  llm_calls = [], llm_validate = (\<lambda>v. None)\<rparr>"
                "''Bonjour''" "'' FRAN'' @ [CHR 0xC3, CHR 0x87] @ ''AIS ''" example_unicode,
             THEN conjunct1]
    by (simp only: s4 l4) simp
  ultimately show ?thesis by (intro conjI)
qed

lemma history_loop_replay:
  "string_contents ctx \<Longrightarrow> history_loop l ctx messages = Inr (messages @ replay_turns ctx)"
proof (induction ctx arbitrary: messages)
  case Nil
  then show ?case by (simp add: replay_turns_def List.map_filter_simps)
next
  case (Cons msg ctx)
  from Cons.prems have rest: "string_contents ctx"
    and here: "(py_get_none msg ''role'' = PStr ''user'' \<or> py_get_none msg ''role'' = PStr ''assistant'')
               \<longrightarrow> is_str (py_get msg ''content'' (PStr []))"
    by (simp_all add: string_contents_def)
  have ok: "new_message l cls (py_get msg ''content'' (PStr [])) =
              Inr (cls (py_get msg ''content'' (PStr [])))"
    if "is_str (py_get msg ''content'' (PStr []))" for cls
    using that by (cases "py_get msg ''content'' (PStr [])") (simp_all add: is_str_def new_message_def)
  from here ok Cons.IH [OF rest] show ?case
    by (auto simp: replay_turns_def List.map_filter_simps)
qed

lemma replay_turns_Nil: "replay_turns [] = []"
  by (simp add: replay_turns_def List.map_filter_simps)

lemma string_contents_Nil: "string_contents []"
  by (simp add: string_contents_def)

lemma get_advice_given_language:
  assumes "system_content_of U lang document_context = Inr sc"
      and "string_contents (case conversation_context of None \<Rightarrow> [] | Some ctx \<Rightarrow> ctx)"
  shows "get_advice U l prompt (Some lang) conversation_context document_context =
           ainvoke l (SystemMessage (PStr sc) #
                      replay_turns (case conversation_context of None \<Rightarrow> [] | Some ctx \<Rightarrow> ctx) @
                      [HumanMessage (PStr prompt)])"
  using assms
  by (cases conversation_context)
     (simp_all add: get_advice_def Let_def history_loop_replay replay_turns_Nil)

lemma get_advice_detected_language:
  assumes "detect_language U l prompt = (Inr lang, l1)"
      and "system_content_of U lang document_context = Inr sc"
      and "string_contents (case conversation_context of None \<Rightarrow> [] | Some ctx \<Rightarrow> ctx)"
  shows "get_advice U l prompt None conversation_context document_context =
           ainvoke l1 (SystemMessage (PStr sc) #
                       replay_turns (case conversation_context of None \<Rightarrow> [] | Some ctx \<Rightarrow> ctx) @
                       [HumanMessage (PStr prompt)])"
  using assms
  by (cases conversation_context)
     (simp_all add: get_advice_def Let_def history_loop_replay replay_turns_Nil)

lemma history_loop_append:
  "string_contents before \<Longrightarrow>
   history_loop l (before @ rest) messages = history_loop l rest (messages @ replay_turns before)"
proof (induction before arbitrary: messages)
  case Nil
  then show ?case by (simp add: replay_turns_def List.map_filter_simps)
next
  case (Cons msg before)
  from Cons.prems have rest: "string_contents before"
    and here: "(py_get_none msg ''role'' = PStr ''user'' \<or> py_get_none msg ''role'' = PStr ''assistant'')
               \<longrightarrow> is_str (py_get msg ''content'' (PStr []))"
    by (simp_all add: string_contents_def)
  have ok: "new_message l cls (py_get msg ''content'' (PStr [])) =
              Inr (cls (py_get msg ''content'' (PStr [])))"
    if "is_str (py_get msg ''content'' (PStr []))" for cls
    using that by (cases "py_get msg ''content'' (PStr [])") (simp_all add: is_str_def new_message_def)
  from here ok Cons.IH [OF rest] show ?case
    by (auto simp: replay_turns_def List.map_filter_simps)
qed

lemma history_loop_refused:
  assumes "string_contents before"
      and "py_get_none msg ''role'' = PStr ''user'' \<or> py_get_none msg ''role'' = PStr ''assistant''"
      and "py_get msg ''content'' (PStr []) = PNone"
  shows "history_loop l (before @ msg # rest) messages = Inl ValidationError"
  using assms(2,3) by (auto simp: history_loop_append [OF assms(1)] new_message_def)

lemma get_advice_refused:
  assumes "system_content_of U lang document_context = Inr sc"
      and "string_contents before"
      and "py_get_none msg ''role'' = PStr ''user'' \<or> py_get_none msg ''role'' = PStr ''assistant''"
      and "py_get msg ''content'' (PStr []) = PNone"
  shows "get_advice U l prompt (Some lang) (Some (before @ msg # rest)) document_context =
           (Inl ValidationError, l)"
  using assms(1) by (simp add: get_advice_def Let_def history_loop_refused [OF assms(2,3,4)])

text \<open>
  Claim C3. Once the language is known and the system instruction is built,
  \<^verbatim>\<open>get_advice\<close> on a history whose user and assistant entries have string contents is one
  invocation of the model on the sequence: the system message, the turns of
  \<^verbatim>\<open>conversation_context\<close> replayed in order (user and assistant entries, the others
  skipped), the new user message. The invocation is the last entry of the model's call
  log. For the context \<^verbatim>\<open>[user "A", assistant "B"]\<close> and the message \<^verbatim>\<open>"C"\<close> the sequence is
  system, user A, assistant B, user C. A user or assistant entry whose content is
  \<^verbatim>\<open>None\<close>, after entries with string contents, makes the call raise the message class's
  validation error, and the model is not invoked.
\<close>

theorem get_advice_message_sequence:
  "(system_content_of U lang document_context = Inr sc \<and>
    string_contents (case conversation_context of None \<Rightarrow> [] | Some ctx \<Rightarrow> ctx) \<longrightarrow>
      get_advice U l prompt (Some lang) conversation_context document_context =
        ainvoke l (SystemMessage (PStr sc) #
                   replay_turns (case conversation_context of None \<Rightarrow> [] | Some ctx \<Rightarrow> ctx) @
                   [HumanMessage (PStr prompt)]) \<and>
      llm_calls (snd (get_advice U l prompt (Some lang) conversation_context document_context)) =
        llm_calls l @
        [SystemMessage (PStr sc) #
         replay_turns (case conversation_context of None \<Rightarrow> [] | Some ctx \<Rightarrow> ctx) @
         [HumanMessage (PStr prompt)]]) \<and>
   (detect_language U l prompt = (Inr lang, l1) \<and>
    system_content_of U lang document_context = Inr sc \<and>
    string_contents (case conversation_context of None \<Rightarrow> [] | Some ctx \<Rightarrow> ctx) \<longrightarrow>
      get_advice U l prompt None conversation_context document_context =
        ainvoke l1 (SystemMessage (PStr sc) #
                    replay_turns (case conversation_context of None \<Rightarrow> [] | Some ctx \<Rightarrow> ctx) @
                    [HumanMessage (PStr prompt)]) \<and>
      last (llm_calls (snd (get_advice U l prompt None conversation_context document_context))) =
        SystemMessage (PStr sc) #
        replay_turns (case conversation_context of None \<Rightarrow> [] | Some ctx \<Rightarrow> ctx) @
        [HumanMessage (PStr prompt)]) \<and>
   llm_calls (snd (get_advice U l ''C'' (Some lang)
        (Some [[(''role'', PStr ''user''), (''content'', PStr ''A'')],
               [(''role'', PStr ''assistant''), (''content'', PStr ''B'')]]) None)) =
     llm_calls l @
     [[SystemMessage (PStr (system_prompt lang)), HumanMessage (PStr ''A''), AIMessage (PStr ''B''),
       HumanMessage (PStr ''C'')]] \<and>
   (system_content_of U lang document_context = Inr sc \<and> string_contents before \<and>
    (py_get_none msg ''role'' = PStr ''user'' \<or> py_get_none msg ''role'' = PStr ''assistant'') \<and>
    py_get msg ''content'' (PStr []) = PNone \<longrightarrow>
      get_advice U l prompt (Some lang) (Some (before @ msg # rest)) document_context =
        (Inl ValidationError, l))"
proof -
  define ab where "ab = [[(''role'', PStr ''user''), (''content'', PStr ''A'')],
                         [(''role'', PStr ''assistant''), (''content'', PStr ''B'')]]"
  have ex: "replay_turns ab = [HumanMessage (PStr ''A''), AIMessage (PStr ''B'')]"
    by (simp add: ab_def replay_turns_def List.map_filter_simps py_get_none_def py_get_def)
  have sx: "string_contents ab"
    by (simp add: ab_def string_contents_def py_get_none_def py_get_def is_str_def)
  have sc0: "system_content_of U lang None = Inr (system_prompt lang)"
    by (simp add: system_content_of_def)
  have a: "system_content_of U lang document_context = Inr sc \<and>
    string_contents (case conversation_context of None \<Rightarrow> [] | Some ctx \<Rightarrow> ctx) \<longrightarrow>
      get_advice U l prompt (Some lang) conversation_context document_context =
        ainvoke l (SystemMessage (PStr sc) #
                   replay_turns (case conversation_context of None \<Rightarrow> [] | Some ctx \<Rightarrow> ctx) @
                   [HumanMessage (PStr prompt)]) \<and>
      llm_calls (snd (get_advice U l prompt (Some lang) conversation_context document_context)) =
        llm_calls l @
        [SystemMessage (PStr sc) #
         replay_turns (case conversation_context of None \<Rightarrow> [] | Some ctx \<Rightarrow> ctx) @
         [HumanMessage (PStr prompt)]]"
    by (simp add: get_advice_given_language ainvoke_def)
  have b: "detect_language U l prompt = (Inr lang, l1) \<and>
    system_content_of U lang document_context = Inr sc \<and>
    string_contents (case conversation_context of None \<Rightarrow> [] | Some ctx \<Rightarrow> ctx) \<longrightarrow>
      get_advice U l prompt None conversation_context document_context =
        ainvoke l1 (SystemMessage (PStr sc) #
                    replay_turns (case conversation_context of None \<Rightarrow> [] | Some ctx \<Rightarrow> ctx) @
                    [HumanMessage (PStr prompt)]) \<and>
      last (llm_calls (snd (get_advice U l prompt None conversation_context document_context))) =
        SystemMessage (PStr sc) #
        replay_turns (case conversation_context of None \<Rightarrow> [] | Some ctx \<Rightarrow> ctx) @
        [HumanMessage (PStr prompt)]"
    by (simp add: get_advice_detected_language ainvoke_def)
  have c: "llm_calls (snd (get_advice U l ''C'' (Some lang) (Some ab) None)) =
     llm_calls l @
     [[SystemMessage (PStr (system_prompt lang)), HumanMessage (PStr ''A''), AIMessage (PStr ''B''),
       HumanMessage (PStr ''C'')]]"
    using get_advice_given_language [of U lang None "system_prompt lang" "Some ab" l "''C''"] sx sc0
    by (simp add: ainvoke_def ex)
  have d: "system_content_of U lang document_context = Inr sc \<and> string_contents before \<and>
    (py_get_none msg ''role'' = PStr ''user'' \<or> py_get_none msg ''role'' = PStr ''assistant'') \<and>
    py_get msg ''content'' (PStr []) = PNone \<longrightarrow>
      get_advice U l prompt (Some lang) (Some (before @ msg # rest)) document_context =
        (Inl ValidationError, l)"
    using get_advice_refused by blast
  from a b c [unfolded ab_def] d show ?thesis by (intro conjI)
qed

theorem get_advice_message_sequence_witness:
  "llm_calls (snd (get_advice example_unicode
      \<lparr>llm_reply = (\<lambda>messages. if length messages = 1 then Inr '' EN '' else Inr ''Save more.''),
       llm_calls = [], llm_validate = (\<lambda>v. None)\<rparr>
      ''C'' (Some ''en'')
      (Some [[(''role'', PStr ''user''), (''content'', PStr ''A'')],
             [(''role'', PStr ''system''), (''content'', PStr ''X'')],
             [(''role'', PStr ''assistant''), (''content'', PStr ''B'')]])
      None)) =
     [[SystemMessage (PStr (system_prompt ''en'')), HumanMessage (PStr ''A''), AIMessage (PStr ''B''),
       HumanMessage (PStr ''C'')]] \<and>
   fst (get_advice example_unicode
      \<lparr>llm_reply = (\<lambda>messages. if length messages = 1 then Inr '' EN '' else Inr ''Save more.''),
       llm_calls = [], llm_validate = (\<lambda>v. None)\<rparr>
      ''C'' None
      (Some [[(''role'', PStr ''user''), (''content'', PStr ''A'')],
             [(''role'', PStr ''system''), (''content'', PStr ''X'')],
             [(''role'', PStr ''assistant''), (''content'', PStr ''B'')]])
      None) = Inr ''Save more.'' \<and>
   last (llm_calls (snd (get_advice example_unicode
      \<lparr>llm_reply = (\<lambda>messages. if length messages = 1 then Inr '' EN '' else Inr ''Save more.''),
       llm_calls = [], llm_validate = (\<lambda>v. None)\<rparr>
      ''C'' None
      (Some [[(''role'', PStr ''user''), (''content'', PStr ''A'')],
             [(''role'', PStr ''system''), (''content'', PStr ''X'')],
             [(''role'', PStr ''assistant''), (''content'', PStr ''B'')]])
      None))) =
     [SystemMessage (PStr (system_prompt ''en'')), HumanMessage (PStr ''A''), AIMessage (PStr ''B''),
      HumanMessage (PStr ''C'')] \<and>
   get_advice example_unicode
      \<lparr>llm_reply = (\<lambda>messages. if length messages = 1 then Inr '' EN '' else Inr ''Save more.''),
       llm_calls = [], llm_validate = (\<lambda>v. None)\<rparr>
      ''C'' (Some ''en'')
      (Some [[(''role'', PStr ''user''), (''content'', PStr ''A'')],
             [(''role'', PStr ''assistant''), (''content'', PNone)],
             [(''role'', PStr ''user''), (''content'', PStr ''B'')]])
      None =
     (Inl ValidationError,
      \<lparr>llm_reply = (\<lambda>messages. if length messages = 1 then Inr '' EN '' else Inr ''Save more.''),
       llm_calls = [], llm_validate = (\<lambda>v. None)\<rparr>)"
proof -
  define L where "L = \<lparr>llm_reply = (\<lambda>messages. if length messages = 1 then Inr '' EN ''
                                               else (Inr ''Save more.'' :: string + string)),
                       llm_calls = [], llm_validate = (\<lambda>v. None)\<rparr>"
  define L1 where "L1 = L\<lparr>llm_calls := [[HumanMessage (PStr (detection_prompt ''C''))]]\<rparr>"
  define ctx where "ctx = [[(''role'', PStr ''user''), (''content'', PStr ''A'')],
             [(''role'', PStr ''system''), (''content'', PStr ''X'')],
             [(''role'', PStr ''assistant''), (''content'', PStr ''B'')]]"
  define before where "before = [[(''role'', PStr ''user''), (''content'', PStr ''A'')]]"
  define bad where "bad = [(''role'', PStr ''assistant''), (''content'', PNone)]"
  define rest where "rest = [[(''role'', PStr ''user''), (''content'', PStr ''B'')]]"
  have rt: "replay_turns ctx = [HumanMessage (PStr ''A''), AIMessage (PStr ''B'')]"
    by (simp add: ctx_def replay_turns_def List.map_filter_simps py_get_none_def py_get_def)
  have sx: "string_contents ctx"
    by (simp add: ctx_def string_contents_def py_get_none_def py_get_def is_str_def)
  have sb: "string_contents before"
    by (simp add: before_def string_contents_def py_get_none_def py_get_def is_str_def)
  have br: "py_get_none bad ''role'' = PStr ''assistant''"
    by (simp add: bad_def py_get_none_def py_get_def)
  have bc: "py_get bad ''content'' (PStr []) = PNone"
    by (simp add: bad_def py_get_def)
  have sc: "system_content_of example_unicode ''en'' None = Inr (system_prompt ''en'')"
    by (simp add: system_content_of_def)
  have st: "py_strip '' EN '' = ''EN''"
    by (simp add: py_strip_def is_space_def whitespace_def is_ascii_def is_cont_def)
  have low: "str_lower example_unicode ''EN'' = ''en''"
    by (simp add: str_lower_def is_ascii_def py_lower_def lower_char_def upper_letters_def
                  lower_letters_def)
  have dl: "detect_language example_unicode L ''C'' = (Inr ''en'', L1)"
    by (simp add: detect_language_def ainvoke_def L_def L1_def st low)
  note T = get_advice_message_sequence
             [of example_unicode "''en''" None "system_prompt ''en''" "Some ctx" L "''C''" L1
                 before bad rest]
  have a: "llm_calls (snd (get_advice example_unicode L ''C'' (Some ''en'') (Some ctx) None)) =
             [[SystemMessage (PStr (system_prompt ''en'')), HumanMessage (PStr ''A''),
               AIMessage (PStr ''B''), HumanMessage (PStr ''C'')]]"
  proof -
    have "llm_calls L = []" by (simp add: L_def)
    moreover have "llm_calls (snd (get_advice example_unicode L ''C'' (Some ''en'') (Some ctx) None)) =
             llm_calls L @ [[SystemMessage (PStr (system_prompt ''en'')), HumanMessage (PStr ''A''),
               AIMessage (PStr ''B''), HumanMessage (PStr ''C'')]]"
      using T sc sx by (simp add: rt ainvoke_def)
    ultimately show ?thesis by simp
  qed
  have b: "get_advice example_unicode L ''C'' None (Some ctx) None =
            ainvoke L1 [SystemMessage (PStr (system_prompt ''en'')), HumanMessage (PStr ''A''),
               AIMessage (PStr ''B''), HumanMessage (PStr ''C'')]"
    using T sc sx dl by (simp add: rt)
  have c: "last (llm_calls (snd (get_advice example_unicode L ''C'' None (Some ctx) None))) =
            [SystemMessage (PStr (system_prompt ''en'')), HumanMessage (PStr ''A''),
               AIMessage (PStr ''B''), HumanMessage (PStr ''C'')]"
    using T sc sx dl by (simp add: rt ainvoke_def)
  have d: "fst (get_advice example_unicode L ''C'' None (Some ctx) None) = Inr ''Save more.''"
  proof -
    have "fst (ainvoke L1 [SystemMessage (PStr (system_prompt ''en'')), HumanMessage (PStr ''A''),
               AIMessage (PStr ''B''), HumanMessage (PStr ''C'')]) = Inr ''Save more.''"
      by (simp add: ainvoke_def L1_def L_def)
    then show ?thesis by (simp only: b)
  qed
  have e: "get_advice example_unicode L ''C'' (Some ''en'') (Some (before @ bad # rest)) None =
             (Inl ValidationError, L)"
    using T sc sb br bc by simp
  show ?thesis
    using a c d e unfolding L_def ctx_def before_def bad_def rest_def by simp
qed

subsection \<open>Word documents\<close>

lemma paragraphs_loop_filter:
  "paragraphs_loop ps text_parts = text_parts @ filter (\<lambda>t. py_strip t \<noteq> []) ps"
  by (induction ps arbitrary: text_parts) simp_all

lemma rows_loop_map:
  "rows_loop rows (table_data, text_parts) =
     (table_data @ map (map py_strip) rows,
      text_parts @ map (\<lambda>cells. join '' | '' (map py_strip cells)) rows)"
  by (induction rows arbitrary: table_data text_parts) (simp_all add: Let_def)

lemma tables_loop_concat:
  "tables_loop ts (table_data, text_parts) =
     (table_data @ map (map py_strip) (concat ts),
      text_parts @ map (\<lambda>cells. join '' | '' (map py_strip cells)) (concat ts))"
  by (induction ts arbitrary: table_data text_parts) (simp_all add: rows_loop_map)

text \<open>
  Claim C10. A Word document that the library opens is analysed successfully, and a
  successful analysis comes from an opened document. Its record has the key
  \<^verbatim>\<open>tables\<close>: bound to \<^verbatim>\<open>None\<close> when the tables have no row, and otherwise to the rows of
  all tables in document order, each the list of its stripped cell texts. The text content
  is the non-blank paragraphs followed by the same rows, each joined by \<^verbatim>\<open>" | "\<close>.
\<close>

theorem word_document_tables_key:
  "(docx_document w (path_str p) = Inr doc \<longrightarrow>
      (\<exists>r. analyze_word_document w p = (Inr r, log_read w p))) \<and>
   (analyze_word_document w p = (Inr r, w') \<longrightarrow>
      (\<exists>doc. docx_document w (path_str p) = Inr doc \<and>
         map_of r ''tables'' =
           Some (if concat (doc_tables doc) = [] then PNone
                 else PList (map (\<lambda>cells. PList (map (\<lambda>cell. PStr (py_strip cell)) cells))
                                 (concat (doc_tables doc)))) \<and>
         map_of r ''text_content'' =
           Some (PStr (join [CHR 0x0A]
                   (filter (\<lambda>t. py_strip t \<noteq> []) (doc_paragraphs doc) @
                    map (\<lambda>cells. join '' | '' (map py_strip cells)) (concat (doc_tables doc)))))))"
proof (intro conjI impI)
  assume "docx_document w (path_str p) = Inr doc"
  then show "\<exists>r. analyze_word_document w p = (Inr r, log_read w p)"
    by (simp add: analyze_word_document_def Let_def paragraphs_loop_filter tables_loop_concat)
next
  assume a: "analyze_word_document w p = (Inr r, w')"
  then obtain d where d: "docx_document w (path_str p) = Inr d"
    by (cases "docx_document w (path_str p)") (auto simp: analyze_word_document_def Let_def)
  from a d have
    "map_of r ''tables'' =
           Some (if concat (doc_tables d) = [] then PNone
                 else PList (map (\<lambda>cells. PList (map (\<lambda>cell. PStr (py_strip cell)) cells))
                                 (concat (doc_tables d))))"
    by (auto simp: analyze_word_document_def Let_def paragraphs_loop_filter tables_loop_concat
                   str_list_def comp_def)
  moreover from a d have
    "map_of r ''text_content'' =
           Some (PStr (join [CHR 0x0A]
                   (filter (\<lambda>t. py_strip t \<noteq> []) (doc_paragraphs d) @
                    map (\<lambda>cells. join '' | '' (map py_strip cells)) (concat (doc_tables d)))))"
    by (auto simp: analyze_word_document_def Let_def paragraphs_loop_filter tables_loop_concat)
  ultimately show "\<exists>doc. docx_document w (path_str p) = Inr doc \<and>
         map_of r ''tables'' =
           Some (if concat (doc_tables doc) = [] then PNone
                 else PList (map (\<lambda>cells. PList (map (\<lambda>cell. PStr (py_strip cell)) cells))
                                 (concat (doc_tables doc)))) \<and>
         map_of r ''text_content'' =
           Some (PStr (join [CHR 0x0A]
                   (filter (\<lambda>t. py_strip t \<noteq> []) (doc_paragraphs doc) @
                    map (\<lambda>cells. join '' | '' (map py_strip cells)) (concat (doc_tables doc)))))"
    using d by blast
qed

theorem word_document_tables_key_witness:
  "(\<exists>r. fst (analyze_word_document example_world
                 \<lparr>path_str = ''uploads/a.docx'', path_suffix = ''.docx''\<rparr>) = Inr r \<and>
        map_of r ''tables'' =
          Some (PList [PList [PStr ''Item'', PStr ''Cost''], PList [PStr ''Rent'', PStr ''1200'']]) \<and>
        map_of r ''text_content'' =
          Some (PStr (''Budget 2024'' @ [CHR 0x0A] @ ''Totals'' @ [CHR 0x0A] @ ''Item | Cost'' @
                      [CHR 0x0A] @ ''Rent | 1200''))) \<and>
   (\<exists>r. fst (analyze_word_document example_world
                 \<lparr>path_str = ''uploads/b.docx'', path_suffix = ''.docx''\<rparr>) = Inr r \<and>
        map_of r ''tables'' = Some PNone \<and>
        map_of r ''text_content'' = Some (PStr ''Notes'')) \<and>
   (\<exists>r. fst (analyze_word_document (example_world\<lparr>docx_document := (\<lambda>f. Inr spaced_docx)\<rparr>)
                 \<lparr>path_str = ''uploads/c.docx'', path_suffix = ''.docx''\<rparr>) = Inr r \<and>
        map_of r ''tables'' = Some (PList [PList [PStr ''Cost'']]) \<and>
        map_of r ''text_content'' = Some (PStr (''Notes'' @ [CHR 0x0A] @ ''Cost'')))"
proof -
  define A where "A = \<lparr>path_str = ''uploads/a.docx'', path_suffix = ''.docx''\<rparr>"
  define B where "B = \<lparr>path_str = ''uploads/b.docx'', path_suffix = ''.docx''\<rparr>"
  have st: "py_strip ''Budget 2024'' = ''Budget 2024''" "py_strip ''   '' = []"
           "py_strip ''Totals'' = ''Totals''" "py_strip ''Item '' = ''Item''"
           "py_strip '' Cost'' = ''Cost''" "py_strip ''Rent'' = ''Rent''"
           "py_strip ''1200'' = ''1200''" "py_strip ''Notes'' = ''Notes''"
    by (simp_all add: py_strip_def is_space_def whitespace_def is_ascii_def is_cont_def)
  have su: "py_strip [CHR 0xC2, CHR 0xA0, CHR 0xE2, CHR 0x80, CHR 0x83] = []"
           "py_strip [CHR 0xC2, CHR 0xA0, CHR ''C'', CHR ''o'', CHR ''s'', CHR ''t'', CHR 0xC2, CHR 0xA0] =
              ''Cost''"
    by (simp_all add: py_strip_def is_space_def whitespace_def is_ascii_def is_cont_def)
  define W where "W = example_world\<lparr>docx_document := (\<lambda>f. Inr spaced_docx)\<rparr>"
  define C where "C = \<lparr>path_str = ''uploads/c.docx'', path_suffix = ''.docx''\<rparr>"
  have dC: "docx_document W (path_str C) = Inr spaced_docx"
    by (simp add: W_def)
  have dA: "docx_document example_world (path_str A) = Inr example_docx"
    by (simp add: example_world_def A_def)
  have dB: "docx_document example_world (path_str B) = Inr plain_docx"
    by (simp add: example_world_def B_def)
  from word_document_tables_key [of example_world A example_docx] dA
  obtain rA where rA: "analyze_word_document example_world A = (Inr rA, log_read example_world A)"
    by blast
  from word_document_tables_key [of example_world A _ rA "log_read example_world A"] rA dA
  have "map_of rA ''tables'' =
          Some (PList [PList [PStr ''Item'', PStr ''Cost''], PList [PStr ''Rent'', PStr ''1200'']]) \<and>
        map_of rA ''text_content'' =
          Some (PStr (''Budget 2024'' @ [CHR 0x0A] @ ''Totals'' @ [CHR 0x0A] @ ''Item | Cost'' @
                      [CHR 0x0A] @ ''Rent | 1200''))"
    by (simp add: example_docx_def st)
  with rA have a: "\<exists>r. fst (analyze_word_document example_world A) = Inr r \<and>
        map_of r ''tables'' =
          Some (PList [PList [PStr ''Item'', PStr ''Cost''], PList [PStr ''Rent'', PStr ''1200'']]) \<and>
        map_of r ''text_content'' =
          Some (PStr (''Budget 2024'' @ [CHR 0x0A] @ ''Totals'' @ [CHR 0x0A] @ ''Item | Cost'' @
                      [CHR 0x0A] @ ''Rent | 1200''))"
    by simp
  from word_document_tables_key [of example_world B plain_docx] dB
  obtain rB where rB: "analyze_word_document example_world B = (Inr rB, log_read example_world B)"
    by blast
  from word_document_tables_key [of example_world B _ rB "log_read example_world B"] rB dB
  have "map_of rB ''tables'' = Some PNone \<and> map_of rB ''text_content'' = Some (PStr ''Notes'')"
    by (simp add: plain_docx_def st)
  with rB have b: "\<exists>r. fst (analyze_word_document example_world B) = Inr r \<and>
        map_of r ''tables'' = Some PNone \<and> map_of r ''text_content'' = Some (PStr ''Notes'')"
    by simp
  from word_document_tables_key [of W C spaced_docx] dC
  obtain rC where rC: "analyze_word_document W C = (Inr rC, log_read W C)"
    by blast
  from word_document_tables_key [of W C _ rC "log_read W C"] rC dC
  have "map_of rC ''tables'' = Some (PList [PList [PStr ''Cost'']]) \<and>
        map_of rC ''text_content'' = Some (PStr (''Notes'' @ [CHR 0x0A] @ ''Cost''))"
    by (simp add: spaced_docx_def st su)
  with rC have c: "\<exists>r. fst (analyze_word_document W C) = Inr r \<and>
        map_of r ''tables'' = Some (PList [PList [PStr ''Cost'']]) \<and>
        map_of r ''text_content'' = Some (PStr (''Notes'' @ [CHR 0x0A] @ ''Cost''))"
    by simp
  from a b c show ?thesis unfolding A_def B_def C_def W_def by (intro conjI)
qed

subsection \<open>Tables\<close>

lemma financial_cols_Inr:
  "financial_cols labels = Inr fcols \<Longrightarrow>
     (\<forall>l\<in>set labels. \<exists>s. l = LStr s) \<and>
     fcols = filter (\<lambda>c. \<exists>k\<in>set financial_keywords. sublist k (py_lower c)) (map label_str labels)"
proof (induction labels arbitrary: fcols rule: financial_cols.induct)
  case 1
  then show ?case by simp
next
  case (2 ty r cols)
  then show ?case by simp
next
  case (3 col cols)
  from "3.prems" obtain rest where rest: "financial_cols cols = Inr rest"
    by (cases "financial_cols cols") auto
  from "3.IH" [OF rest] "3.prems" rest show ?case
    by (auto simp: py_in_def list_ex_iff split: if_splits)
qed

lemma financial_cols_total:
  "\<forall>l\<in>set labels. \<exists>s. l = LStr s \<Longrightarrow> \<exists>fcols. financial_cols labels = Inr fcols"
  by (induction labels rule: financial_cols.induct) auto

lemma analyze_dataframe_Inr:
  assumes "analyze_dataframe df data_name = Inr a"
  obtains fcols where "financial_cols (map col_label (df_columns df)) = Inr fcols"
  using assms
  by (cases "financial_cols (map col_label (df_columns df))") (auto simp: analyze_dataframe_def Let_def)

lemma analyze_dataframe_financial:
  assumes "analyze_dataframe df data_name = Inr a"
      and "financial_cols (map col_label (df_columns df)) = Inr fcols"
  shows "map_of a ''potential_financial_columns'' = (if fcols = [] then None else Some (str_list fcols))"
  using assms by (auto simp: analyze_dataframe_def Let_def map_of_dict_set split: if_splits)

lemma analyze_dataframe_numeric_columns:
  assumes "analyze_dataframe df data_name = Inr a"
  shows "map_of a ''numeric_columns'' = Some (PList (map label_val (select_dtypes df Number)))"
  using assms
  by (cases "financial_cols (map col_label (df_columns df))")
     (auto simp: analyze_dataframe_def Let_def map_of_dict_set split: if_splits)

lemma analyze_dataframe_rows:
  assumes "analyze_dataframe df data_name = Inr a"
  shows "map_of a ''rows'' = Some (PInt (int (df_len df)))"
  using assms
  by (cases "financial_cols (map col_label (df_columns df))")
     (auto simp: analyze_dataframe_def Let_def map_of_dict_set split: if_splits)

lemma analyze_dataframe_statistics:
  assumes "analyze_dataframe df data_name = Inr a"
  shows "map_of a ''numeric_statistics'' =
           (if select_dtypes df Number = [] then None else Some (df_describe df))"
  using assms
  by (cases "financial_cols (map col_label (df_columns df))")
     (auto simp: analyze_dataframe_def Let_def map_of_dict_set split: if_splits)

lemma map_of_dict_update3:
  "map_of (dict_update d [(k1, v1), (k2, v2), (k3, v3)]) = (map_of d)(k1 \<mapsto> v1, k2 \<mapsto> v2, k3 \<mapsto> v3)"
  by (simp add: dict_update_def map_of_dict_set)

lemma analyze_csv_file_success:
  assumes "pd_read_csv w (path_str p) = Inr df"
      and "analyze_dataframe df ''CSV Data'' = Inr a"
  shows "\<exists>r. analyze_csv_file w p = (Inr r, log_read w p) \<and>
             (\<forall>k. k \<notin> {''file_type'', ''analysis_type'', ''summary'', ''text_content''} \<longrightarrow>
                  map_of r k = map_of a k) \<and>
             map_of r ''file_type'' = Some (PStr ''CSV File'') \<and>
             map_of r ''analysis_type'' = Some (PStr ''data_analysis'') \<and>
             map_of r ''summary'' =
               Some (PStr (''CSV file with '' @ str_nat (df_len df) @ '' rows and '' @
                           str_nat (length (df_columns df)) @ '' columns'')) \<and>
             map_of r ''text_content'' =
               Some (PStr (join [CHR 0x0A]
                 ([''CSV File Analysis''] @ table_header_lines df @
                  (if df_empty df then [] else [[CHR 0x0A] @ ''Sample data:'', df_head_table df 10]) @
                  (if select_dtypes df Number = [] then []
                   else [[CHR 0x0A] @ ''Numeric columns summary:'', df_describe_table df]))))"
  using assms
  by (simp add: analyze_csv_file_def Let_def map_of_dict_set map_of_dict_update3)

lemma analyze_csv_file_Inr:
  assumes "analyze_csv_file w p = (Inr r, w')"
  obtains df a where "pd_read_csv w (path_str p) = Inr df" "analyze_dataframe df ''CSV Data'' = Inr a"
  using assms
  by (cases "pd_read_csv w (path_str p)"; cases "analyze_dataframe (projr (pd_read_csv w (path_str p))) ''CSV Data''")
     (auto simp: analyze_csv_file_def Let_def)

lemma labels_are_strings:
  assumes "financial_cols (map col_label (df_columns df)) = Inr fcols"
  shows "map (label_val \<circ> col_label) (df_columns df) =
           map PStr (map (label_str \<circ> col_label) (df_columns df))"
proof -
  from financial_cols_Inr [OF assms]
  have "\<forall>l\<in>set (map col_label (df_columns df)). \<exists>s. l = LStr s"
    by (rule conjunct1)
  then have "\<forall>c\<in>set (df_columns df). label_val (col_label c) = PStr (label_str (col_label c))"
    by auto
  then show ?thesis by simp
qed

lemma analyze_dataframe_column_names:
  assumes a: "analyze_dataframe df data_name = Inr a"
  shows "map_of a ''column_names'' =
           Some (PList (map PStr (map (label_str \<circ> col_label) (df_columns df))))"
proof -
  from a obtain fcols where f: "financial_cols (map col_label (df_columns df)) = Inr fcols"
    by (rule analyze_dataframe_Inr)
  from a f labels_are_strings [OF f] show ?thesis
    by (auto simp: analyze_dataframe_def Let_def map_of_dict_set split: if_splits)
qed

lemma analyze_dataframe_financial_spec:
  assumes a: "analyze_dataframe df data_name = Inr a"
  shows "map_of a ''potential_financial_columns'' =
        (if filter (\<lambda>c. \<exists>k\<in>set financial_keywords. sublist k (py_lower c))
                   (map (label_str \<circ> col_label) (df_columns df)) = []
         then None
         else Some (PList (map PStr
                (filter (\<lambda>c. \<exists>k\<in>set financial_keywords. sublist k (py_lower c))
                        (map (label_str \<circ> col_label) (df_columns df))))))"
proof -
  from a obtain fcols where f: "financial_cols (map col_label (df_columns df)) = Inr fcols"
    by (rule analyze_dataframe_Inr)
  from financial_cols_Inr [OF f]
  have e: "fcols = filter (\<lambda>c. \<exists>k\<in>set financial_keywords. sublist k (py_lower c))
                   (map (label_str \<circ> col_label) (df_columns df))"
    by (simp add: comp_def)
  show ?thesis
    unfolding e [symmetric] using analyze_dataframe_financial [OF a f] by (simp add: str_list_def)
qed

lemma analyze_dataframe_total:
  assumes "\<forall>c\<in>set (df_columns df). \<exists>s. col_label c = LStr s"
  shows "\<exists>a. analyze_dataframe df data_name = Inr a"
proof -
  from assms have "\<forall>l\<in>set (map col_label (df_columns df)). \<exists>s. l = LStr s" by auto
  from financial_cols_total [OF this]
  obtain fcols where "financial_cols (map col_label (df_columns df)) = Inr fcols" by blast
  then show ?thesis by (simp add: analyze_dataframe_def Let_def)
qed

lemma date_amount_category_table:
  assumes rd: "pd_read_csv w (path_str p) = Inr df"
      and hl: "map col_label (df_columns df) = [LStr ''Date'', LStr ''Amount'', LStr ''Category'']"
      and hk: "map col_kind (df_columns df) = [Object, Number, Object]"
  shows "\<exists>r. analyze_csv_file w p = (Inr r, log_read w p) \<and>
           map_of r ''numeric_columns'' = Some (PList [PStr ''Amount'']) \<and>
           map_of r ''potential_financial_columns'' = Some (PList [PStr ''Amount''])"
proof -
  from hl obtain c1 c2 c3 where cols: "df_columns df = [c1, c2, c3]"
    by (auto simp: map_eq_Cons_conv)
  from hl cols have lab: "col_label c1 = LStr ''Date''" "col_label c2 = LStr ''Amount''"
                         "col_label c3 = LStr ''Category''"
    by simp_all
  from hk cols have kind: "col_kind c1 = Object" "col_kind c2 = Number" "col_kind c3 = Object"
    by simp_all
  have low: "py_lower ''Date'' = ''date''" "py_lower ''Amount'' = ''amount''"
            "py_lower ''Category'' = ''category''"
    by (simp_all add: py_lower_def lower_char_def upper_letters_def lower_letters_def)
  have f: "financial_cols (map col_label (df_columns df)) = Inr [''Amount'']"
    unfolding hl by (simp add: low py_in_def financial_keywords_def sublist_code prefix_code)
  have "\<forall>c\<in>set (df_columns df). \<exists>s. col_label c = LStr s"
    by (simp add: cols lab)
  from analyze_dataframe_total [OF this]
  obtain a where a: "analyze_dataframe df ''CSV Data'' = Inr a" by blast
  have n: "map_of a ''numeric_columns'' = Some (PList [PStr ''Amount''])"
    using analyze_dataframe_numeric_columns [OF a] by (simp add: select_dtypes_def cols lab kind)
  have fc: "map_of a ''potential_financial_columns'' = Some (PList [PStr ''Amount''])"
    using analyze_dataframe_financial [OF a f] by (simp add: str_list_def)
  from analyze_csv_file_success [OF rd a]
  obtain r where r: "analyze_csv_file w p = (Inr r, log_read w p)"
    and keep: "\<forall>k. k \<notin> {''file_type'', ''analysis_type'', ''summary'', ''text_content''} \<longrightarrow>
                  map_of r k = map_of a k"
    by blast
  have "map_of r ''numeric_columns'' = map_of a ''numeric_columns''"
    using keep [rule_format, of "''numeric_columns''"] by simp
  moreover have "map_of r ''potential_financial_columns'' = map_of a ''potential_financial_columns''"
    using keep [rule_format, of "''potential_financial_columns''"] by simp
  ultimately show ?thesis
    using r n fc by simp
qed

text \<open>
  Claim C6. When the tabular analysis returns, \<^verbatim>\<open>potential_financial_columns\<close> is the
  subsequence of the column names, in column order, whose lower-case form contains one of
  the ten keywords; the key is present exactly when that subsequence is not empty. The
  analysis returns whenever the labels are strings. For a CSV table with the columns
  \<^verbatim>\<open>Date\<close>, \<^verbatim>\<open>Amount\<close>, \<^verbatim>\<open>Category\<close> of which \<^verbatim>\<open>Amount\<close> alone is numeric, the record lists
  \<^verbatim>\<open>Amount\<close>, and nothing else, in \<^verbatim>\<open>numeric_columns\<close> and in
  \<^verbatim>\<open>potential_financial_columns\<close>.
\<close>

theorem potential_financial_columns_spec:
  "(analyze_dataframe df data_name = Inr a \<longrightarrow>
      subseq (filter (\<lambda>c. \<exists>k\<in>set financial_keywords. sublist k (py_lower c))
                     (map (label_str \<circ> col_label) (df_columns df)))
             (map (label_str \<circ> col_label) (df_columns df)) \<and>
      map_of a ''column_names'' = Some (PList (map PStr (map (label_str \<circ> col_label) (df_columns df)))) \<and>
      map_of a ''potential_financial_columns'' =
        (if filter (\<lambda>c. \<exists>k\<in>set financial_keywords. sublist k (py_lower c))
                   (map (label_str \<circ> col_label) (df_columns df)) = []
         then None
         else Some (PList (map PStr
                (filter (\<lambda>c. \<exists>k\<in>set financial_keywords. sublist k (py_lower c))
                        (map (label_str \<circ> col_label) (df_columns df))))))) \<and>
   ((\<forall>c\<in>set (df_columns df). \<exists>s. col_label c = LStr s) \<longrightarrow>
      (\<exists>a. analyze_dataframe df data_name = Inr a)) \<and>
   (pd_read_csv w (path_str p) = Inr df \<and>
    map col_label (df_columns df) = [LStr ''Date'', LStr ''Amount'', LStr ''Category''] \<and>
    map col_kind (df_columns df) = [Object, Number, Object] \<longrightarrow>
      (\<exists>r. analyze_csv_file w p = (Inr r, log_read w p) \<and>
           map_of r ''numeric_columns'' = Some (PList [PStr ''Amount'']) \<and>
           map_of r ''potential_financial_columns'' = Some (PList [PStr ''Amount''])))"
proof (intro conjI impI)
  assume a: "analyze_dataframe df data_name = Inr a"
  show "subseq (filter (\<lambda>c. \<exists>k\<in>set financial_keywords. sublist k (py_lower c))
                     (map (label_str \<circ> col_label) (df_columns df)))
             (map (label_str \<circ> col_label) (df_columns df))"
    by (rule subseq_filter_left)
  show "map_of a ''column_names'' =
          Some (PList (map PStr (map (label_str \<circ> col_label) (df_columns df))))"
    using a by (rule analyze_dataframe_column_names)
  show "map_of a ''potential_financial_columns'' =
        (if filter (\<lambda>c. \<exists>k\<in>set financial_keywords. sublist k (py_lower c))
                   (map (label_str \<circ> col_label) (df_columns df)) = []
         then None
         else Some (PList (map PStr
                (filter (\<lambda>c. \<exists>k\<in>set financial_keywords. sublist k (py_lower c))
                        (map (label_str \<circ> col_label) (df_columns df))))))"
    using a by (rule analyze_dataframe_financial_spec)
next
  assume "\<forall>c\<in>set (df_columns df). \<exists>s. col_label c = LStr s"
  then show "\<exists>a. analyze_dataframe df data_name = Inr a"
    by (rule analyze_dataframe_total)
next
  assume h: "pd_read_csv w (path_str p) = Inr df \<and>
    map col_label (df_columns df) = [LStr ''Date'', LStr ''Amount'', LStr ''Category''] \<and>
    map col_kind (df_columns df) = [Object, Number, Object]"
  then have h1: "pd_read_csv w (path_str p) = Inr df"
    and h2: "map col_label (df_columns df) = [LStr ''Date'', LStr ''Amount'', LStr ''Category'']"
    and h3: "map col_kind (df_columns df) = [Object, Number, Object]"
    by simp_all
  show "\<exists>r. analyze_csv_file w p = (Inr r, log_read w p) \<and>
           map_of r ''numeric_columns'' = Some (PList [PStr ''Amount'']) \<and>
           map_of r ''potential_financial_columns'' = Some (PList [PStr ''Amount''])"
    by (rule date_amount_category_table [OF h1 h2 h3])
qed

theorem potential_financial_columns_spec_witness:
  "(\<exists>a. analyze_dataframe example_df ''CSV Data'' = Inr a \<and>
        map_of a ''column_names'' = Some (PList [PStr ''Date'', PStr ''Amount'', PStr ''Category'']) \<and>
        map_of a ''potential_financial_columns'' = Some (PList [PStr ''Amount''])) \<and>
   (\<exists>r. fst (analyze_csv_file example_world \<lparr>path_str = ''uploads/a.csv'', path_suffix = ''.csv''\<rparr>) = Inr r \<and>
        map_of r ''numeric_columns'' = Some (PList [PStr ''Amount'']) \<and>
        map_of r ''potential_financial_columns'' = Some (PList [PStr ''Amount'']))"
proof -
  define A where "A = \<lparr>path_str = ''uploads/a.csv'', path_suffix = ''.csv''\<rparr>"
  have labs: "\<forall>c\<in>set (df_columns example_df). \<exists>s. col_label c = LStr s"
    by (simp add: example_df_def)
  have names: "map (label_str \<circ> col_label) (df_columns example_df) = [''Date'', ''Amount'', ''Category'']"
    by (simp add: example_df_def)
  have low: "py_lower ''Date'' = ''date''" "py_lower ''Amount'' = ''amount''"
            "py_lower ''Category'' = ''category''"
    by (simp_all add: py_lower_def lower_char_def upper_letters_def lower_letters_def)
  have fil: "filter (\<lambda>c. \<exists>k\<in>set financial_keywords. sublist k (py_lower c))
               [''Date'', ''Amount'', ''Category''] = [''Amount'']"
    by (simp add: low financial_keywords_def sublist_code prefix_code)
  have rd: "pd_read_csv example_world (path_str A) = Inr example_df"
    by (simp add: example_world_def A_def)
  have hl: "map col_label (df_columns example_df) = [LStr ''Date'', LStr ''Amount'', LStr ''Category'']"
    by (simp add: example_df_def)
  have hk: "map col_kind (df_columns example_df) = [Object, Number, Object]"
    by (simp add: example_df_def)
  note T = potential_financial_columns_spec [of example_df "''CSV Data''" _ example_world A]
  from T [THEN conjunct2, THEN conjunct1, THEN mp, OF labs]
  obtain a where a: "analyze_dataframe example_df ''CSV Data'' = Inr a" ..
  from potential_financial_columns_spec
         [of example_df "''CSV Data''" a example_world A, THEN conjunct1, THEN mp, OF a,
          unfolded names fil]
  have "map_of a ''column_names'' = Some (PList [PStr ''Date'', PStr ''Amount'', PStr ''Category'']) \<and>
        map_of a ''potential_financial_columns'' = Some (PList [PStr ''Amount''])"
    by simp
  with a have one: "\<exists>a. analyze_dataframe example_df ''CSV Data'' = Inr a \<and>
        map_of a ''column_names'' = Some (PList [PStr ''Date'', PStr ''Amount'', PStr ''Category'']) \<and>
        map_of a ''potential_financial_columns'' = Some (PList [PStr ''Amount''])"
    by simp
  from rd hl hk
  have "pd_read_csv example_world (path_str A) = Inr example_df \<and>
        map col_label (df_columns example_df) = [LStr ''Date'', LStr ''Amount'', LStr ''Category''] \<and>
        map col_kind (df_columns example_df) = [Object, Number, Object]"
    by (intro conjI)
  from T [THEN conjunct2, THEN conjunct2, THEN mp, OF this]
  have "\<exists>r. analyze_csv_file example_world A = (Inr r, log_read example_world A) \<and>
           map_of r ''numeric_columns'' = Some (PList [PStr ''Amount'']) \<and>
           map_of r ''potential_financial_columns'' = Some (PList [PStr ''Amount''])" .
  then have two: "\<exists>r. fst (analyze_csv_file example_world A) = Inr r \<and>
        map_of r ''numeric_columns'' = Some (PList [PStr ''Amount'']) \<and>
        map_of r ''potential_financial_columns'' = Some (PList [PStr ''Amount''])"
    by auto
  from one two show ?thesis unfolding A_def by (rule conjI)
qed

lemma str_nat_0: "str_nat 0 = ''0''"
  by (simp add: str_nat.simps digit_def)

text \<open>
  Claim C7. For a CSV file that \<^verbatim>\<open>read_csv\<close> parses to a table of zero rows, the analysis
  returns a record with \<^verbatim>\<open>rows\<close> equal to 0 and without the key \<^verbatim>\<open>numeric_statistics\<close>, and
  its text content is exactly the title line, the line of the counts and the line of the
  column names: no sample block and no statistics block follow.
\<close>

theorem csv_zero_rows:
  assumes "pd_read_csv w (path_str p) = Inr df"
      and "read_csv_table df"
      and "df_len df = 0"
  shows "\<exists>r. analyze_csv_file w p = (Inr r, log_read w p) \<and>
             map_of r ''rows'' = Some (PInt 0) \<and>
             map_of r ''numeric_statistics'' = None \<and>
             map_of r ''text_content'' =
               Some (PStr (join [CHR 0x0A]
                 [''CSV File Analysis'',
                  ''Rows: 0, Columns: '' @ str_nat (length (df_columns df)),
                  ''Columns: '' @ join '', '' (map (label_str \<circ> col_label) (df_columns df))]))"
proof -
  have "\<exists>s. col_label c = LStr s" if "c \<in> set (df_columns df)" for c
    using assms(2) that by (cases "col_label c") (auto simp: read_csv_table_def list_all_iff)
  then have "\<forall>c\<in>set (df_columns df). \<exists>s. col_label c = LStr s" by blast
  from analyze_dataframe_total [OF this]
  obtain a where a: "analyze_dataframe df ''CSV Data'' = Inr a" by blast
  from assms(2,3) have "\<forall>c\<in>set (df_columns df). col_kind c = Object"
    by (simp add: read_csv_table_def list_all_iff)
  then have "filter (\<lambda>c. col_kind c = Number) (df_columns df) = []"
    by (auto simp: filter_empty_conv)
  then have num: "select_dtypes df Number = []"
    by (simp add: select_dtypes_def)
  have emp: "df_empty df" using assms(3) by (simp add: df_empty_def)
  from analyze_csv_file_success [OF assms(1) a]
  obtain r where r: "analyze_csv_file w p = (Inr r, log_read w p)"
    and keep: "\<forall>k. k \<notin> {''file_type'', ''analysis_type'', ''summary'', ''text_content''} \<longrightarrow>
                  map_of r k = map_of a k"
    and tc: "map_of r ''text_content'' =
               Some (PStr (join [CHR 0x0A]
                 ([''CSV File Analysis''] @ table_header_lines df @
                  (if df_empty df then [] else [[CHR 0x0A] @ ''Sample data:'', df_head_table df 10]) @
                  (if select_dtypes df Number = [] then []
                   else [[CHR 0x0A] @ ''Numeric columns summary:'', df_describe_table df]))))"
    by blast
  have "map_of r ''rows'' = map_of a ''rows''"
    using keep [rule_format, of "''rows''"] by simp
  then have rows: "map_of r ''rows'' = Some (PInt 0)"
    using analyze_dataframe_rows [OF a] assms(3) by simp
  have "map_of r ''numeric_statistics'' = map_of a ''numeric_statistics''"
    using keep [rule_format, of "''numeric_statistics''"] by simp
  then have stats: "map_of r ''numeric_statistics'' = None"
    using analyze_dataframe_statistics [OF a] num by simp
  have "map_of r ''text_content'' =
               Some (PStr (join [CHR 0x0A]
                 [''CSV File Analysis'',
                  ''Rows: 0, Columns: '' @ str_nat (length (df_columns df)),
                  ''Columns: '' @ join '', '' (map (label_str \<circ> col_label) (df_columns df))]))"
    using tc by (simp only: emp num if_True table_header_lines_def assms(3) str_nat_0) simp
  with r rows stats show ?thesis by blast
qed

theorem csv_zero_rows_witness:
  "read_csv_table header_only_df \<and> df_len header_only_df = 0 \<and>
   (\<exists>r. fst (analyze_csv_file example_world
                \<lparr>path_str = ''uploads/empty.csv'', path_suffix = ''.csv''\<rparr>) = Inr r \<and>
        map_of r ''rows'' = Some (PInt 0) \<and>
        map_of r ''numeric_statistics'' = None \<and>
        map_of r ''text_content'' =
          Some (PStr (''CSV File Analysis'' @ [CHR 0x0A] @ ''Rows: 0, Columns: 3'' @ [CHR 0x0A] @
                      ''Columns: Date, Amount, Category'')))"
proof -
  define E where "E = \<lparr>path_str = ''uploads/empty.csv'', path_suffix = ''.csv''\<rparr>"
  have rd: "pd_read_csv example_world (path_str E) = Inr header_only_df"
    by (simp add: example_world_def E_def)
  have t: "read_csv_table header_only_df"
    by (simp add: read_csv_table_def header_only_df_def)
  have z: "df_len header_only_df = 0"
    by (simp add: header_only_df_def)
  have n: "str_nat (length (df_columns header_only_df)) = ''3''"
    by (simp add: header_only_df_def str_nat.simps digit_def)
  have c: "map (label_str \<circ> col_label) (df_columns header_only_df) = [''Date'', ''Amount'', ''Category'']"
    by (simp add: header_only_df_def)
  from csv_zero_rows [OF rd t z, unfolded n c]
  have "\<exists>r. fst (analyze_csv_file example_world E) = Inr r \<and>
        map_of r ''rows'' = Some (PInt 0) \<and>
        map_of r ''numeric_statistics'' = None \<and>
        map_of r ''text_content'' =
          Some (PStr (''CSV File Analysis'' @ [CHR 0x0A] @ ''Rows: 0, Columns: 3'' @ [CHR 0x0A] @
                      ''Columns: Date, Amount, Category''))"
    by auto
  with t z show ?thesis unfolding E_def by blast
qed

subsection \<open>The keys every record has\<close>

lemma analyze_pdf_keys:
  assumes "analyze_pdf w p = (Inr r, w')"
  shows "\<exists>t s. map_of r ''file_type'' = Some (PStr ''PDF Document'') \<and>
               map_of r ''analysis_type'' = Some (PStr ''text_extraction'') \<and>
               map_of r ''summary'' = Some (PStr s) \<and>
               map_of r ''text_content'' = Some (PStr t)"
proof (cases "pdf_reader w (path_str p)")
  case (Inl m)
  with assms show ?thesis by (simp add: analyze_pdf_def Let_def)
next
  case (Inr pages)
  show ?thesis
  proof (cases "pdf_pages_loop pages []")
    case (Inl m)
    with Inr assms show ?thesis by (simp add: analyze_pdf_def Let_def)
  next
    case (Inr text_parts)
    with \<open>pdf_reader w (path_str p) = Inr pages\<close> assms show ?thesis
      by (auto simp: analyze_pdf_def Let_def)
  qed
qed

lemma analyze_word_document_keys:
  assumes "analyze_word_document w p = (Inr r, w')"
  shows "\<exists>t s. map_of r ''file_type'' = Some (PStr ''Word Document'') \<and>
               map_of r ''analysis_type'' = Some (PStr ''text_extraction'') \<and>
               map_of r ''summary'' = Some (PStr s) \<and>
               map_of r ''text_content'' = Some (PStr t)"
  using assms
  by (cases "docx_document w (path_str p)")
     (auto simp: analyze_word_document_def Let_def tables_loop_concat)

lemma analyze_image_keys:
  assumes "analyze_image w p = (Inr r, w')"
  shows "\<exists>t s. map_of r ''file_type'' = Some (PStr ''Image'') \<and>
               map_of r ''analysis_type'' = Some (PStr ''ocr_extraction'') \<and>
               map_of r ''summary'' = Some (PStr s) \<and>
               map_of r ''text_content'' = Some (PStr t)"
proof (cases "image_open w (path_str p)")
  case (Inl m)
  with assms show ?thesis by (simp add: analyze_image_def Let_def)
next
  case (Inr img)
  with assms show ?thesis
    by (cases "image_to_string img") (auto simp: analyze_image_def Let_def)
qed

lemma analyze_csv_file_keys:
  assumes "analyze_csv_file w p = (Inr r, w')"
  shows "\<exists>t s. map_of r ''file_type'' = Some (PStr ''CSV File'') \<and>
               map_of r ''analysis_type'' = Some (PStr ''data_analysis'') \<and>
               map_of r ''summary'' = Some (PStr s) \<and>
               map_of r ''text_content'' = Some (PStr t)"
proof -
  from assms obtain df a where rd: "pd_read_csv w (path_str p) = Inr df"
    and a: "analyze_dataframe df ''CSV Data'' = Inr a"
    by (rule analyze_csv_file_Inr)
  from analyze_csv_file_success [OF rd a] assms show ?thesis by auto
qed

lemma set_sheet_other_keys:
  "set_sheet analysis sheet_name sheet_analysis = Inr analysis' \<Longrightarrow> k \<noteq> ''sheets'' \<Longrightarrow>
     map_of analysis' k = map_of analysis k"
  by (auto simp: set_sheet_def map_of_dict_set split: option.splits pyval.splits)

lemma excel_loop_other_keys:
  "excel_loop sheets (analysis, text_content, total_rows, total_cols) =
     Inr (analysis', text_content', total_rows', total_cols') \<Longrightarrow>
   k \<noteq> ''sheets'' \<Longrightarrow> map_of analysis' k = map_of analysis k"
proof (induction sheets arbitrary: analysis text_content total_rows total_cols)
  case Nil
  then show ?case by simp
next
  case (Cons sh sheets)
  obtain sheet_name df where sh: "sh = (sheet_name, df)" by (cases sh)
  from Cons.prems(1) obtain sa where sa: "analyze_dataframe df sheet_name = Inr sa"
    by (cases "analyze_dataframe df sheet_name") (auto simp: sh)
  from Cons.prems(1) sa obtain an where an: "set_sheet analysis sheet_name sa = Inr an"
    by (cases "set_sheet analysis sheet_name sa") (auto simp: sh)
  from Cons.prems(1) sa an obtain tc tr tcs where
    "excel_loop sheets (an, tc, tr, tcs) = Inr (analysis', text_content', total_rows', total_cols')"
    by (simp add: sh Let_def)
  from Cons.IH [OF this Cons.prems(2)] set_sheet_other_keys [OF an Cons.prems(2)]
  show ?case by simp
qed

lemma analyze_excel_file_keys:
  assumes "analyze_excel_file w p = (Inr r, w')"
  shows "\<exists>t s. map_of r ''file_type'' = Some (PStr ''Excel Spreadsheet'') \<and>
               map_of r ''analysis_type'' = Some (PStr ''data_analysis'') \<and>
               map_of r ''summary'' = Some (PStr s) \<and>
               map_of r ''text_content'' = Some (PStr t)"
proof (cases "pd_read_excel w (path_str p)")
  case (Inl m)
  with assms show ?thesis by (simp add: analyze_excel_file_def Let_def)
next
  case (Inr excel_data)
  define analysis0 where "analysis0 =
     [(''file_type'', PStr ''Excel Spreadsheet''),
      (''sheet_count'', PInt (int (length excel_data))),
      (''sheets'', PDict []),
      (''analysis_type'', PStr ''data_analysis''),
      (''summary'', PStr (''Excel file with '' @ str_nat (length excel_data) @ '' sheets''))]"
  show ?thesis
  proof (cases "excel_loop excel_data (analysis0, [], 0, 0)")
    case (Inl e)
    with Inr assms show ?thesis by (simp add: analyze_excel_file_def Let_def analysis0_def)
  next
    case (Inr res)
    obtain an tc tr tcs where res: "res = (an, tc, tr, tcs)" by (cases res)
    from Inr res have loop: "excel_loop excel_data (analysis0, [], 0, 0) = Inr (an, tc, tr, tcs)"
      by simp
    have ft: "map_of an ''file_type'' = Some (PStr ''Excel Spreadsheet'')"
      using excel_loop_other_keys [OF loop, of "''file_type''"] by (simp add: analysis0_def)
    have at: "map_of an ''analysis_type'' = Some (PStr ''data_analysis'')"
      using excel_loop_other_keys [OF loop, of "''analysis_type''"] by (simp add: analysis0_def)
    from assms \<open>pd_read_excel w (path_str p) = Inr excel_data\<close> loop
    have "r = dict_set (dict_set (dict_set (dict_set an ''text_content'' (PStr (join [CHR 0x0A] tc)))
                 ''total_rows'' (PInt (int tr))) ''total_columns'' (PInt (int tcs))) ''summary''
                 (PStr (''Excel file with '' @ str_nat (length excel_data) @ '' sheets, '' @
                        str_nat tr @ '' total rows''))"
      by (simp add: analyze_excel_file_def Let_def analysis0_def)
    with ft at show ?thesis by (simp add: map_of_dict_set)
  qed
qed

text \<open>
  Claim C1. Whenever \<^verbatim>\<open>analyze_document\<close> returns a record, the suffix is one of the
  supported extensions and the record binds each of \<^verbatim>\<open>file_type\<close>, \<^verbatim>\<open>analysis_type\<close>,
  \<^verbatim>\<open>summary\<close> and \<^verbatim>\<open>text_content\<close> to a string, whichever analyzer produced it.
\<close>

theorem required_keys_are_strings:
  assumes "analyze_document w p = (Inr r, w')"
  shows "py_lower (path_suffix p) \<in> fst ` set supported_types \<and>
         (\<exists>s. map_of r ''file_type'' = Some (PStr s)) \<and>
         (\<exists>s. map_of r ''analysis_type'' = Some (PStr s)) \<and>
         (\<exists>s. map_of r ''summary'' = Some (PStr s)) \<and>
         (\<exists>s. map_of r ''text_content'' = Some (PStr s))"
proof -
  define suffix where "suffix = py_lower (path_suffix p)"
  consider (pdf) "suffix = ''.pdf''"
    | (word) "suffix \<noteq> ''.pdf''" "suffix \<in> set [''.doc'', ''.docx'']"
    | (excel) "suffix \<noteq> ''.pdf''" "suffix \<notin> set [''.doc'', ''.docx'']"
              "suffix \<in> set [''.xlsx'', ''.xls'']"
    | (csv) "suffix \<noteq> ''.pdf''" "suffix \<notin> set [''.doc'', ''.docx'']"
            "suffix \<notin> set [''.xlsx'', ''.xls'']" "suffix = ''.csv''"
    | (image) "suffix \<noteq> ''.pdf''" "suffix \<notin> set [''.doc'', ''.docx'']"
              "suffix \<notin> set [''.xlsx'', ''.xls'']" "suffix \<noteq> ''.csv''"
              "suffix \<in> {''.png'', ''.jpg'', ''.jpeg'', ''.bmp'', ''.tiff''}"
    | (other) "suffix \<noteq> ''.pdf''" "suffix \<notin> set [''.doc'', ''.docx'']"
              "suffix \<notin> set [''.xlsx'', ''.xls'']" "suffix \<noteq> ''.csv''"
              "suffix \<notin> {''.png'', ''.jpg'', ''.jpeg'', ''.bmp'', ''.tiff''}"
    by blast
  then show ?thesis
  proof cases
    case pdf
    with assms have "analyze_pdf w p = (Inr r, w')"
      by (simp add: analyze_document_def suffix_def)
    from analyze_pdf_keys [OF this] pdf show ?thesis
      unfolding suffix_def by (auto simp: supported_types_def)
  next
    case word
    with assms have "analyze_word_document w p = (Inr r, w')"
      by (simp add: analyze_document_def suffix_def Let_def)
    from analyze_word_document_keys [OF this] word show ?thesis
      unfolding suffix_def by (auto simp: supported_types_def)
  next
    case excel
    with assms have "analyze_excel_file w p = (Inr r, w')"
      by (simp add: analyze_document_def suffix_def Let_def)
    from analyze_excel_file_keys [OF this] excel show ?thesis
      unfolding suffix_def by (auto simp: supported_types_def)
  next
    case csv
    with assms have "analyze_csv_file w p = (Inr r, w')"
      by (simp add: analyze_document_def suffix_def Let_def)
    from analyze_csv_file_keys [OF this] csv show ?thesis
      unfolding suffix_def by (auto simp: supported_types_def)
  next
    case image
    with assms have "analyze_image w p = (Inr r, w')"
      by (simp add: analyze_document_def suffix_def Let_def)
    from analyze_image_keys [OF this] image show ?thesis
      unfolding suffix_def by (auto simp: supported_types_def)
  next
    case other
    with assms show ?thesis
      by (simp add: analyze_document_def suffix_def Let_def)
  qed
qed

lemma lower_suffixes:
  "py_lower ''.pdf'' = ''.pdf''" "py_lower ''.docx'' = ''.docx''" "py_lower ''.xlsx'' = ''.xlsx''"
  "py_lower ''.csv'' = ''.csv''" "py_lower ''.png'' = ''.png''"
  by (simp_all add: py_lower_def lower_char_def upper_letters_def lower_letters_def)

lemma example_pdf_returns:
  "\<exists>r w'. analyze_document example_world \<lparr>path_str = ''uploads/a.pdf'', path_suffix = ''.pdf''\<rparr> = (Inr r, w')"
  by (simp add: analyze_document_def analyze_pdf_def example_world_def Let_def lower_suffixes)

lemma example_docx_returns:
  "\<exists>r w'. analyze_document example_world \<lparr>path_str = ''uploads/a.docx'', path_suffix = ''.docx''\<rparr> = (Inr r, w')"
  by (simp add: analyze_document_def analyze_word_document_def example_world_def Let_def
                lower_suffixes tables_loop_concat)

lemma example_xlsx_returns:
  "\<exists>r w'. analyze_document example_world \<lparr>path_str = ''uploads/a.xlsx'', path_suffix = ''.xlsx''\<rparr> = (Inr r, w')"
proof -
  have "\<forall>c\<in>set (df_columns example_df). \<exists>s. col_label c = LStr s"
    by (simp add: example_df_def)
  from analyze_dataframe_total [OF this]
  obtain a where a: "analyze_dataframe example_df ''Sheet1'' = Inr a" by blast
  show ?thesis
    by (simp add: analyze_document_def analyze_excel_file_def example_world_def Let_def
                  lower_suffixes a set_sheet_def)
qed

lemma example_csv_returns:
  "\<exists>r w'. analyze_document example_world \<lparr>path_str = ''uploads/a.csv'', path_suffix = ''.csv''\<rparr> = (Inr r, w')"
proof -
  have "\<forall>c\<in>set (df_columns example_df). \<exists>s. col_label c = LStr s"
    by (simp add: example_df_def)
  from analyze_dataframe_total [OF this]
  obtain a where a: "analyze_dataframe example_df ''CSV Data'' = Inr a" by blast
  show ?thesis
    by (simp add: analyze_document_def analyze_csv_file_def example_world_def Let_def
                  lower_suffixes a)
qed

lemma example_png_returns:
  "\<exists>r w'. analyze_document example_world \<lparr>path_str = ''uploads/a.png'', path_suffix = ''.png''\<rparr> = (Inr r, w')"
  by (simp add: analyze_document_def analyze_image_def example_world_def example_image_def Let_def
                lower_suffixes)

theorem required_keys_are_strings_witness:
  "(\<exists>r. fst (analyze_document example_world \<lparr>path_str = ''uploads/a.pdf'', path_suffix = ''.pdf''\<rparr>) = Inr r \<and>
        (\<exists>s. map_of r ''file_type'' = Some (PStr s)) \<and>
        (\<exists>s. map_of r ''analysis_type'' = Some (PStr s)) \<and>
        (\<exists>s. map_of r ''summary'' = Some (PStr s)) \<and>
        (\<exists>s. map_of r ''text_content'' = Some (PStr s))) \<and>
   (\<exists>r. fst (analyze_document example_world \<lparr>path_str = ''uploads/a.docx'', path_suffix = ''.docx''\<rparr>) = Inr r \<and>
        (\<exists>s. map_of r ''file_type'' = Some (PStr s)) \<and>
        (\<exists>s. map_of r ''analysis_type'' = Some (PStr s)) \<and>
        (\<exists>s. map_of r ''summary'' = Some (PStr s)) \<and>
        (\<exists>s. map_of r ''text_content'' = Some (PStr s))) \<and>
   (\<exists>r. fst (analyze_document example_world \<lparr>path_str = ''uploads/a.xlsx'', path_suffix = ''.xlsx''\<rparr>) = Inr r \<and>
        (\<exists>s. map_of r ''file_type'' = Some (PStr s)) \<and>
        (\<exists>s. map_of r ''analysis_type'' = Some (PStr s)) \<and>
        (\<exists>s. map_of r ''summary'' = Some (PStr s)) \<and>
        (\<exists>s. map_of r ''text_content'' = Some (PStr s))) \<and>
   (\<exists>r. fst (analyze_document example_world \<lparr>path_str = ''uploads/a.csv'', path_suffix = ''.csv''\<rparr>) = Inr r \<and>
        (\<exists>s. map_of r ''file_type'' = Some (PStr s)) \<and>
        (\<exists>s. map_of r ''analysis_type'' = Some (PStr s)) \<and>
        (\<exists>s. map_of r ''summary'' = Some (PStr s)) \<and>
        (\<exists>s. map_of r ''text_content'' = Some (PStr s))) \<and>
   (\<exists>r. fst (analyze_document example_world \<lparr>path_str = ''uploads/a.png'', path_suffix = ''.png''\<rparr>) = Inr r \<and>
        (\<exists>s. map_of r ''file_type'' = Some (PStr s)) \<and>
        (\<exists>s. map_of r ''analysis_type'' = Some (PStr s)) \<and>
        (\<exists>s. map_of r ''summary'' = Some (PStr s)) \<and>
        (\<exists>s. map_of r ''text_content'' = Some (PStr s)))"
proof -
  have k: "\<exists>r. fst (analyze_document example_world f) = Inr r \<and>
          (\<exists>s. map_of r ''file_type'' = Some (PStr s)) \<and>
          (\<exists>s. map_of r ''analysis_type'' = Some (PStr s)) \<and>
          (\<exists>s. map_of r ''summary'' = Some (PStr s)) \<and>
          (\<exists>s. map_of r ''text_content'' = Some (PStr s))"
    if "\<exists>r w'. analyze_document example_world f = (Inr r, w')" for f
  proof -
    from that obtain r w' where r: "analyze_document example_world f = (Inr r, w')" by blast
    from required_keys_are_strings [OF r] r show ?thesis by auto
  qed
  show ?thesis
    by (intro conjI k example_pdf_returns example_docx_returns example_xlsx_returns
              example_csv_returns example_png_returns)
qed

subsection \<open>Insights\<close>

lemma the_strs_total: "list_all is_str xs \<Longrightarrow> \<exists>ss. the_strs xs = Inr ss"
proof (induction xs)
  case Nil
  then show ?case by simp
next
  case (Cons x xs)
  then obtain s where "x = PStr s" by (cases x) (auto simp: is_str_def)
  with Cons show ?case by auto
qed

lemma py_join_total: "is_str_list v \<Longrightarrow> \<exists>j. py_join sep v = Inr j"
proof (cases v)
  case (PList xs)
  assume "is_str_list v"
  with PList have "list_all is_str xs" by (simp add: is_str_list_def)
  from the_strs_total [OF this] PList show ?thesis by auto
qed (auto simp: is_str_list_def)

lemma financial_columns_join:
  assumes "analysis_record r"
  shows "\<exists>j. py_join sep (py_get r ''potential_financial_columns'' (PList [])) = Inr j"
proof (cases "map_of r ''potential_financial_columns''")
  case None
  then show ?thesis by (simp add: py_get_def)
next
  case (Some v)
  with assms have "is_str_list v" by (simp add: analysis_record_def field_ok_def)
  from py_join_total [OF this] Some show ?thesis by (simp add: py_get_def)
qed

lemma numeric_columns_len:
  assumes "analysis_record r"
  shows "\<exists>n. py_len_val (py_get r ''numeric_columns'' (PList [])) = Inr n"
proof (cases "map_of r ''numeric_columns''")
  case None
  then show ?thesis by (simp add: py_get_def)
next
  case (Some v)
  with assms have "is_list v" by (simp add: analysis_record_def field_ok_def)
  with Some show ?thesis by (cases v) (auto simp: py_get_def is_list_def)
qed

lemma table_count_compares:
  assumes "analysis_record r"
  shows "\<exists>b. py_gt_zero (py_get r ''table_count'' (PInt 0)) = Inr b"
proof (cases "map_of r ''table_count''")
  case None
  then show ?thesis by (auto simp: py_get_def)
next
  case (Some v)
  with assms have "is_int v" by (simp add: analysis_record_def field_ok_def)
  then obtain i where "v = PInt i" by (cases v) (simp_all add: is_int_def)
  with Some show ?thesis by (simp add: py_get_def)
qed

lemma image_size_indexes:
  assumes "analysis_record r"
  shows "\<exists>a b. py_index (py_get r ''image_size'' (PList [PInt 0, PInt 0])) 0 = Inr a \<and>
               py_index (py_get r ''image_size'' (PList [PInt 0, PInt 0])) 1 = Inr b"
proof (cases "map_of r ''image_size''")
  case None
  then show ?thesis by (simp add: py_get_def)
next
  case (Some v)
  with assms have "is_pair v" by (simp add: analysis_record_def field_ok_def)
  with Some show ?thesis by (cases v) (auto simp: py_get_def is_pair_def)
qed

lemma text_content_lowers:
  assumes "analysis_record r"
  shows "\<not> truthy (py_get_none r ''text_content'') \<or>
         (\<exists>t. py_lower_val (py_get r ''text_content'' (PStr [])) = Inr t)"
proof (cases "map_of r ''text_content''")
  case None
  then show ?thesis by (simp add: py_get_def py_get_none_def)
next
  case (Some v)
  with assms have "is_str v" by (simp add: analysis_record_def field_ok_def)
  with Some show ?thesis by (cases v) (auto simp: py_get_def is_str_def py_lower_val_def)
qed

lemma returns_Inr: "returns (Inr v)"
  by (simp add: returns_def)

lemma returns_if: "returns a \<Longrightarrow> returns b \<Longrightarrow> returns (if c then a else b)"
  by simp

lemma returns_case:
  "returns x \<Longrightarrow> (\<And>v. returns (f v)) \<Longrightarrow> returns (case x of Inl e \<Rightarrow> Inl e | Inr v \<Rightarrow> f v)"
  by (auto simp: returns_def)

lemma returns_Let: "returns (f v) \<Longrightarrow> returns (Let v f)"
  by simp

lemma file_type_insights_total:
  assumes "analysis_record r"
  shows "returns (file_type_insights U r)"
proof -
  have j: "returns (py_join '', '' (py_get r ''potential_financial_columns'' (PList [])))"
    using financial_columns_join [OF assms] by (simp add: returns_def)
  have n: "returns (py_len_val (py_get r ''numeric_columns'' (PList [])))"
    using numeric_columns_len [OF assms] by (simp add: returns_def)
  have b: "returns (py_gt_zero (py_get r ''table_count'' (PInt 0)))"
    using table_count_compares [OF assms] by (simp add: returns_def)
  have x: "returns (py_index (py_get r ''image_size'' (PList [PInt 0, PInt 0])) 0)"
    using image_size_indexes [OF assms] by (auto simp: returns_def)
  have y: "returns (py_index (py_get r ''image_size'' (PList [PInt 0, PInt 0])) 1)"
    using image_size_indexes [OF assms] by (auto simp: returns_def)
  show ?thesis
    unfolding file_type_insights_def
    by (intro returns_Let returns_if returns_case returns_Inr j n b x y)
qed

lemma keyword_insights_total:
  assumes "analysis_record r"
  shows "returns (keyword_insights r insights)"
proof (cases "truthy (py_get_none r ''text_content'')")
  case True
  with text_content_lowers [OF assms]
  have "returns (py_lower_val (py_get r ''text_content'' (PStr [])))"
    by (simp add: returns_def)
  then show ?thesis
    unfolding keyword_insights_def
    by (intro returns_Let returns_if returns_case returns_Inr)
next
  case False
  then show ?thesis by (simp add: keyword_insights_def returns_Inr)
qed

lemma generate_document_insights_total:
  assumes "analysis_record r"
  shows "returns (generate_document_insights U r)"
  unfolding generate_document_insights_def
  by (intro returns_Let returns_if returns_case returns_Inr
            file_type_insights_total [OF assms] keyword_insights_total [OF assms])

lemma analyze_dataframe_absent:
  assumes "analyze_dataframe df data_name = Inr a"
  shows "map_of a ''table_count'' = None \<and> map_of a ''image_size'' = None"
  using assms
  by (cases "financial_cols (map col_label (df_columns df))")
     (auto simp: analyze_dataframe_def Let_def map_of_dict_set split: if_splits)

lemma is_str_list_str_list: "is_str_list (str_list xs)"
  by (simp add: is_str_list_def str_list_def list_all_iff is_str_def)

lemma analyze_pdf_record:
  assumes "analyze_pdf w p = (Inr r, w')"
  shows "analysis_record r"
proof (cases "pdf_reader w (path_str p)")
  case (Inl m)
  with assms show ?thesis by (simp add: analyze_pdf_def Let_def)
next
  case (Inr pages)
  show ?thesis
  proof (cases "pdf_pages_loop pages []")
    case (Inl m)
    with Inr assms show ?thesis by (simp add: analyze_pdf_def Let_def)
  next
    case (Inr text_parts)
    with \<open>pdf_reader w (path_str p) = Inr pages\<close> assms show ?thesis
      by (auto simp: analyze_pdf_def Let_def analysis_record_def field_ok_def is_str_def)
  qed
qed

lemma analyze_word_document_record:
  assumes "analyze_word_document w p = (Inr r, w')"
  shows "analysis_record r"
  using assms
  by (cases "docx_document w (path_str p)")
     (auto simp: analyze_word_document_def Let_def tables_loop_concat analysis_record_def
                 field_ok_def is_str_def is_int_def)

lemma analyze_image_record:
  assumes "analyze_image w p = (Inr r, w')"
  shows "analysis_record r"
proof (cases "image_open w (path_str p)")
  case (Inl m)
  with assms show ?thesis by (simp add: analyze_image_def Let_def)
next
  case (Inr img)
  with assms show ?thesis
    by (cases "image_to_string img")
       (auto simp: analyze_image_def Let_def analysis_record_def field_ok_def is_str_def is_pair_def)
qed

lemma analyze_csv_file_record:
  assumes "analyze_csv_file w p = (Inr r, w')"
  shows "analysis_record r"
proof -
  from assms obtain df a where rd: "pd_read_csv w (path_str p) = Inr df"
    and a: "analyze_dataframe df ''CSV Data'' = Inr a"
    by (rule analyze_csv_file_Inr)
  from analyze_csv_file_success [OF rd a] assms
  have keep: "\<forall>k. k \<notin> {''file_type'', ''analysis_type'', ''summary'', ''text_content''} \<longrightarrow>
                  map_of r k = map_of a k"
    and tc: "\<exists>t. map_of r ''text_content'' = Some (PStr t)"
    by auto
  from a obtain fcols where f: "financial_cols (map col_label (df_columns df)) = Inr fcols"
    by (rule analyze_dataframe_Inr)
  have k1: "map_of r ''potential_financial_columns'' =
              (if fcols = [] then None else Some (str_list fcols))"
    using keep [rule_format, of "''potential_financial_columns''"] analyze_dataframe_financial [OF a f]
    by simp
  have k2: "map_of r ''numeric_columns'' = Some (PList (map label_val (select_dtypes df Number)))"
    using keep [rule_format, of "''numeric_columns''"] analyze_dataframe_numeric_columns [OF a]
    by simp
  have k3: "map_of r ''table_count'' = None"
    using keep [rule_format, of "''table_count''"] analyze_dataframe_absent [OF a] by simp
  have k4: "map_of r ''image_size'' = None"
    using keep [rule_format, of "''image_size''"] analyze_dataframe_absent [OF a] by simp
  from tc obtain t where k5: "map_of r ''text_content'' = Some (PStr t)" ..
  show ?thesis
    unfolding analysis_record_def field_ok_def k1 k2 k3 k4 k5
    by (simp add: is_str_list_str_list is_list_def is_str_def)
qed

lemma analyze_excel_file_record:
  assumes "analyze_excel_file w p = (Inr r, w')"
  shows "analysis_record r"
proof (cases "pd_read_excel w (path_str p)")
  case (Inl m)
  with assms show ?thesis by (simp add: analyze_excel_file_def Let_def)
next
  case (Inr excel_data)
  define analysis0 where "analysis0 =
     [(''file_type'', PStr ''Excel Spreadsheet''),
      (''sheet_count'', PInt (int (length excel_data))),
      (''sheets'', PDict []),
      (''analysis_type'', PStr ''data_analysis''),
      (''summary'', PStr (''Excel file with '' @ str_nat (length excel_data) @ '' sheets''))]"
  show ?thesis
  proof (cases "excel_loop excel_data (analysis0, [], 0, 0)")
    case (Inl e)
    with Inr assms show ?thesis by (simp add: analyze_excel_file_def Let_def analysis0_def)
  next
    case (Inr res)
    obtain an tc tr tcs where res: "res = (an, tc, tr, tcs)" by (cases res)
    from Inr res have loop: "excel_loop excel_data (analysis0, [], 0, 0) = Inr (an, tc, tr, tcs)"
      by simp
    have k1: "map_of an ''potential_financial_columns'' = None"
      using excel_loop_other_keys [OF loop, of "''potential_financial_columns''"]
      by (simp add: analysis0_def)
    have k2: "map_of an ''numeric_columns'' = None"
      using excel_loop_other_keys [OF loop, of "''numeric_columns''"] by (simp add: analysis0_def)
    have k3: "map_of an ''table_count'' = None"
      using excel_loop_other_keys [OF loop, of "''table_count''"] by (simp add: analysis0_def)
    have k4: "map_of an ''image_size'' = None"
      using excel_loop_other_keys [OF loop, of "''image_size''"] by (simp add: analysis0_def)
    from assms \<open>pd_read_excel w (path_str p) = Inr excel_data\<close> loop
    have "r = dict_set (dict_set (dict_set (dict_set an ''text_content'' (PStr (join [CHR 0x0A] tc)))
                 ''total_rows'' (PInt (int tr))) ''total_columns'' (PInt (int tcs))) ''summary''
                 (PStr (''Excel file with '' @ str_nat (length excel_data) @ '' sheets, '' @
                        str_nat tr @ '' total rows''))"
      by (simp add: analyze_excel_file_def Let_def analysis0_def)
    with k1 k2 k3 k4 show ?thesis
      by (simp add: analysis_record_def field_ok_def map_of_dict_set is_str_def)
  qed
qed

lemma analyze_document_record:
  assumes "analyze_document w p = (Inr r, w')"
  shows "analysis_record r"
proof -
  have "analyze_document w p = analyze_pdf w p \<or> analyze_document w p = analyze_word_document w p \<or>
        analyze_document w p = analyze_excel_file w p \<or> analyze_document w p = analyze_csv_file w p \<or>
        analyze_document w p = analyze_image w p \<or>
        analyze_document w p = (Inl (ValueError (''Unsupported file type: '' @ py_lower (path_suffix p))), w)"
    by (simp add: analyze_document_def Let_def)
  with assms show ?thesis
    using analyze_pdf_record [of w p r w'] analyze_word_document_record [of w p r w']
          analyze_excel_file_record [of w p r w'] analyze_csv_file_record [of w p r w']
          analyze_image_record [of w p r w']
    by (elim disjE) simp_all
qed

lemma py_str_zero: "py_str U (PInt 0) = ''0''"
  by (simp add: py_str_def str_int_def str_nat.simps digit_def)

lemma minimal_record:
  "analysis_record [(''file_type'', PStr ft), (''analysis_type'', PStr at), (''summary'', PStr s),
                    (''text_content'', PStr t)]"
  by (simp add: analysis_record_def field_ok_def is_str_def)

text \<open>
  Claim C5. The insight extraction is a function of the record alone (it takes no model
  and no state, so two calls on one record give the same list). It returns, without
  raising, on every record whose fields have the types of an analysis record, which every
  record returned by \<^verbatim>\<open>analyze_document\<close> has; in particular on a record of the four
  required keys only, where the missing counts read as 0 and the missing lists as empty.
\<close>

theorem insights_never_raise:
  "(analysis_record r \<longrightarrow> (\<exists>insights. generate_document_insights U r = Inr insights)) \<and>
   (analyze_document w p = (Inr r, w') \<longrightarrow> analysis_record r) \<and>
   (\<exists>insights. generate_document_insights U
        [(''file_type'', PStr ft), (''analysis_type'', PStr at), (''summary'', PStr s),
         (''text_content'', PStr t)] = Inr insights) \<and>
   generate_document_insights U
     [(''file_type'', PStr ''PDF Document''), (''analysis_type'', PStr at), (''summary'', PStr s),
      (''text_content'', PStr [])] =
     Inr [[CHR 0xF0, CHR 0x9F, CHR 0x93, CHR 0x84] @ '' PDF document with 0 pages'',
          [CHR 0xF0, CHR 0x9F, CHR 0x93, CHR 0x9D] @ '' Contains 0 words of text content''] \<and>
   generate_document_insights U
     [(''file_type'', PStr ''Word Document''), (''analysis_type'', PStr at), (''summary'', PStr s),
      (''text_content'', PStr [])] =
     Inr [[CHR 0xF0, CHR 0x9F, CHR 0x93, CHR 0x9D] @ '' Word document with 0 paragraphs''] \<and>
   generate_document_insights U
     [(''file_type'', PStr ''Excel Spreadsheet''), (''analysis_type'', PStr at), (''summary'', PStr s),
      (''text_content'', PStr [])] =
     Inr [[CHR 0xF0, CHR 0x9F, CHR 0x93, CHR 0x8A] @ '' Excel file contains 0 sheets with 0 total rows''] \<and>
   generate_document_insights U
     [(''file_type'', PStr ''CSV File''), (''analysis_type'', PStr at), (''summary'', PStr s),
      (''text_content'', PStr [])] =
     Inr [[CHR 0xF0, CHR 0x9F, CHR 0x93, CHR 0x8B] @ '' CSV file with 0 rows and 0 columns''] \<and>
   generate_document_insights U
     [(''file_type'', PStr ''Image''), (''analysis_type'', PStr at), (''summary'', PStr s),
      (''text_content'', PStr [])] =
     Inr [[CHR 0xF0, CHR 0x9F, CHR 0x96, CHR 0xBC, CHR 0xEF, CHR 0xB8, CHR 0x8F] @
          '' Image document (0x0)'',
          [CHR 0xF0, CHR 0x9F, CHR 0x94, CHR 0x8D] @ '' OCR extracted 0 words'']"
proof -
  have a: "analysis_record r \<longrightarrow> (\<exists>insights. generate_document_insights U r = Inr insights)"
    using generate_document_insights_total [of r] by (simp add: returns_def)
  have b: "analyze_document w p = (Inr r, w') \<longrightarrow> analysis_record r"
    using analyze_document_record [of w p r w'] by simp
  have c: "\<exists>insights. generate_document_insights U
        [(''file_type'', PStr ft), (''analysis_type'', PStr at), (''summary'', PStr s),
         (''text_content'', PStr t)] = Inr insights"
    using generate_document_insights_total [OF minimal_record [of ft at s t], of U]
    by (simp add: returns_def)
  have ev: "py_lower ''[]'' = ''[]''"
    by (simp add: py_lower_def lower_char_def upper_letters_def lower_letters_def)
  have cr: "\<not> list_ex (\<lambda>col. py_in col (py_lower (py_str U (PList [])))) [''credit'', ''debit'', ''balance'']"
    by (simp add: py_str_def ev py_in_def sublist_code prefix_code)
  have d: "generate_document_insights U
     [(''file_type'', PStr ''PDF Document''), (''analysis_type'', PStr at), (''summary'', PStr s),
      (''text_content'', PStr [])] =
     Inr [[CHR 0xF0, CHR 0x9F, CHR 0x93, CHR 0x84] @ '' PDF document with 0 pages'',
          [CHR 0xF0, CHR 0x9F, CHR 0x93, CHR 0x9D] @ '' Contains 0 words of text content'']"
    using cr
    by (simp add: generate_document_insights_def file_type_insights_def keyword_insights_def
                  py_get_def py_get_none_def py_str_zero Let_def)
  have e: "generate_document_insights U
     [(''file_type'', PStr ''Word Document''), (''analysis_type'', PStr at), (''summary'', PStr s),
      (''text_content'', PStr [])] =
     Inr [[CHR 0xF0, CHR 0x9F, CHR 0x93, CHR 0x9D] @ '' Word document with 0 paragraphs'']"
    using cr
    by (simp add: generate_document_insights_def file_type_insights_def keyword_insights_def
                  py_get_def py_get_none_def py_str_zero Let_def)
  have f: "generate_document_insights U
     [(''file_type'', PStr ''Excel Spreadsheet''), (''analysis_type'', PStr at), (''summary'', PStr s),
      (''text_content'', PStr [])] =
     Inr [[CHR 0xF0, CHR 0x9F, CHR 0x93, CHR 0x8A] @ '' Excel file contains 0 sheets with 0 total rows'']"
    using cr
    by (simp add: generate_document_insights_def file_type_insights_def keyword_insights_def
                  py_get_def py_get_none_def py_str_zero Let_def)
  have g: "generate_document_insights U
     [(''file_type'', PStr ''CSV File''), (''analysis_type'', PStr at), (''summary'', PStr s),
      (''text_content'', PStr [])] =
     Inr [[CHR 0xF0, CHR 0x9F, CHR 0x93, CHR 0x8B] @ '' CSV file with 0 rows and 0 columns'']"
    using cr
    by (simp add: generate_document_insights_def file_type_insights_def keyword_insights_def
                  py_get_def py_get_none_def py_str_zero Let_def)
  have h: "generate_document_insights U
     [(''file_type'', PStr ''Image''), (''analysis_type'', PStr at), (''summary'', PStr s),
      (''text_content'', PStr [])] =
     Inr [[CHR 0xF0, CHR 0x9F, CHR 0x96, CHR 0xBC, CHR 0xEF, CHR 0xB8, CHR 0x8F] @
          '' Image document (0x0)'',
          [CHR 0xF0, CHR 0x9F, CHR 0x94, CHR 0x8D] @ '' OCR extracted 0 words'']"
    using cr
    by (simp add: generate_document_insights_def file_type_insights_def keyword_insights_def
                  py_get_def py_get_none_def py_str_zero Let_def)
  show ?thesis
    by (intro conjI a b c d e f g h)
qed

theorem insights_never_raise_witness:
  "(\<exists>r. fst (analyze_document example_world \<lparr>path_str = ''uploads/a.csv'', path_suffix = ''.csv''\<rparr>) = Inr r \<and>
        analysis_record r \<and> (\<exists>insights. generate_document_insights example_unicode r = Inr insights)) \<and>
   analysis_record
     [(''file_type'', PStr ''CSV File''), (''rows'', PInt 3), (''columns'', PInt 3),
      (''column_names'', PList [PStr ''Date'', PStr ''Amount'', PStr ''Category'']),
      (''numeric_columns'', PList [PStr ''Amount'']),
      (''potential_financial_columns'', PList [PStr ''Amount'']),
      (''text_content'', PStr ''Total budget and tax'')] \<and>
   generate_document_insights example_unicode
     [(''file_type'', PStr ''CSV File''), (''rows'', PInt 3), (''columns'', PInt 3),
      (''column_names'', PList [PStr ''Date'', PStr ''Amount'', PStr ''Category'']),
      (''numeric_columns'', PList [PStr ''Amount'']),
      (''potential_financial_columns'', PList [PStr ''Amount'']),
      (''text_content'', PStr ''Total budget and tax'')] =
     Inr [[CHR 0xF0, CHR 0x9F, CHR 0x93, CHR 0x8B] @ '' CSV file with 3 rows and 3 columns'',
          [CHR 0xF0, CHR 0x9F, CHR 0x92, CHR 0xB0] @ '' Financial data columns identified: Amount'',
          [CHR 0xF0, CHR 0x9F, CHR 0x92, CHR 0xBC] @ '' Financial keywords found: budget, tax'',
          [CHR 0xF0, CHR 0x9F, CHR 0x92, CHR 0xB0] @ '' Expense data found'']"
proof -
  define R where "R =
     [(''file_type'', PStr ''CSV File''), (''rows'', PInt 3), (''columns'', PInt 3),
      (''column_names'', PList [PStr ''Date'', PStr ''Amount'', PStr ''Category'']),
      (''numeric_columns'', PList [PStr ''Amount'']),
      (''potential_financial_columns'', PList [PStr ''Amount'']),
      (''text_content'', PStr ''Total budget and tax'')]"
  define A where "A = \<lparr>path_str = ''uploads/a.csv'', path_suffix = ''.csv''\<rparr>"
  from example_csv_returns obtain r w' where r: "analyze_document example_world A = (Inr r, w')"
    unfolding A_def by blast
  note T = insights_never_raise [of r example_unicode example_world A w']
  from T [THEN conjunct2, THEN conjunct1, THEN mp, OF r] have ar: "analysis_record r" .
  from T [THEN conjunct1, THEN mp, OF ar]
  have "\<exists>insights. generate_document_insights example_unicode r = Inr insights" .
  with r ar have one: "\<exists>r. fst (analyze_document example_world A) = Inr r \<and>
        analysis_record r \<and> (\<exists>insights. generate_document_insights example_unicode r = Inr insights)"
    by auto
  have two: "analysis_record R"
    by (simp add: R_def analysis_record_def field_ok_def is_str_list_def is_list_def is_str_def)
  have s3: "py_str example_unicode (PInt 3) = ''3''"
    by (simp add: py_str_def str_int_def str_nat.simps digit_def)
  have low: "py_lower ''Total budget and tax'' = ''total budget and tax''"
    by (simp add: py_lower_def lower_char_def upper_letters_def lower_letters_def)
  have kw: "filter (\<lambda>keyword. py_in keyword ''total budget and tax'') text_keywords = [''budget'', ''tax'']"
    by (simp add: text_keywords_def py_in_def sublist_code prefix_code)
  have names: "py_lower (py_str example_unicode (PList [PStr ''Date'', PStr ''Amount'', PStr ''Category''])) =
                 ''['' @ [CHR 0x27] @ ''date'' @ [CHR 0x27] @ '', '' @ [CHR 0x27] @ ''amount'' @
                 [CHR 0x27] @ '', '' @ [CHR 0x27] @ ''category'' @ [CHR 0x27] @ '']''"
    by (simp add: py_str_def repr_str_def repr_quote_def escape_cp_def escape_char_def is_ascii_def
                  is_cont_def Let_def py_lower_def lower_char_def upper_letters_def
                  lower_letters_def)
  have cr: "\<not> list_ex (\<lambda>col. py_in col (py_lower (py_str example_unicode (PList [PStr ''Date'', PStr ''Amount'',
                 PStr ''Category''])))) [''credit'', ''debit'', ''balance'']"
    unfolding names by (simp add: py_in_def sublist_code prefix_code)
  have ft: "file_type_insights example_unicode R =
     Inr [[CHR 0xF0, CHR 0x9F, CHR 0x93, CHR 0x8B] @ '' CSV file with 3 rows and 3 columns'',
          [CHR 0xF0, CHR 0x9F, CHR 0x92, CHR 0xB0] @ '' Financial data columns identified: Amount'']"
    by (simp add: R_def file_type_insights_def py_get_def py_get_none_def s3 Let_def)
  have kwi: "keyword_insights R ins =
     Inr (ins @ [[CHR 0xF0, CHR 0x9F, CHR 0x92, CHR 0xBC] @ '' Financial keywords found: budget, tax''])"
    for ins
    by (simp add: R_def keyword_insights_def py_get_def py_get_none_def py_lower_val_def low kw Let_def)
  have three: "generate_document_insights example_unicode R =
     Inr [[CHR 0xF0, CHR 0x9F, CHR 0x93, CHR 0x8B] @ '' CSV file with 3 rows and 3 columns'',
          [CHR 0xF0, CHR 0x9F, CHR 0x92, CHR 0xB0] @ '' Financial data columns identified: Amount'',
          [CHR 0xF0, CHR 0x9F, CHR 0x92, CHR 0xBC] @ '' Financial keywords found: budget, tax'',
          [CHR 0xF0, CHR 0x9F, CHR 0x92, CHR 0xB0] @ '' Expense data found'']"
    using cr
    by (simp add: generate_document_insights_def ft kwi Let_def expense_insight_def)
       (simp add: R_def py_get_def py_get_none_def)
  from one two three show ?thesis unfolding R_def A_def by (intro conjI)
qed

subsection \<open>Words inside an escaped string\<close>

text \<open>
  A word \<open>k\<close> over an alphabet \<open>L\<close>, searched in a text written item by item: the item \<open>x\<close>
  is written \<open>f x\<close> in one text and \<open>p x\<close> in the other. An item is written as the same
  single character in both texts, or as a block without a character of \<open>L\<close> in the first.
\<close>

lemma sublist_past_block:
  assumes k: "set k \<subseteq> L" "k \<noteq> []"
      and blk: "set b \<inter> L = {}"
      and sub: "sublist k (b @ rest)"
  shows "sublist k rest"
proof -
  from sub [unfolded sublist_append]
  consider "sublist k b" | "sublist k rest"
    | k1 k2 where "k = k1 @ k2" "suffix k1 b" "prefix k2 rest"
    by blast
  then show ?thesis
  proof cases
    case 1
    then have "set k \<subseteq> set b" by (rule set_mono_sublist)
    with k blk show ?thesis by (cases k) auto
  next
    case 2
    then show ?thesis .
  next
    case 3
    from 3(2) have "set k1 \<subseteq> set b" by (auto simp: suffix_def)
    moreover from k(1) 3(1) have "set k1 \<subseteq> L" by simp
    ultimately have "k1 = []" using blk by (cases k1) auto
    with 3 show ?thesis by simp
  qed
qed

lemma prefix_through_items:
  assumes shape: "\<forall>x\<in>set xs. (\<exists>a. f x = [a] \<and> p x = [a]) \<or> (f x \<noteq> [] \<and> set (f x) \<inter> L = {})"
      and k: "set k \<subseteq> L"
      and pre: "prefix k (concat (map f xs))"
  shows "prefix k (concat (map p xs))"
  using shape k pre
proof (induction xs arbitrary: k)
  case Nil
  then show ?case by simp
next
  case (Cons x xs)
  from Cons.prems(1) have rest: "\<forall>x\<in>set xs. (\<exists>a. f x = [a] \<and> p x = [a]) \<or> (f x \<noteq> [] \<and> set (f x) \<inter> L = {})"
    and here: "(\<exists>a. f x = [a] \<and> p x = [a]) \<or> (f x \<noteq> [] \<and> set (f x) \<inter> L = {})"
    by simp_all
  show ?case
  proof (cases k)
    case Nil
    then show ?thesis by simp
  next
    case (Cons a k')
    from here show ?thesis
    proof
      assume "\<exists>a. f x = [a] \<and> p x = [a]"
      then obtain b where fx: "f x = [b]" and px: "p x = [b]" by blast
      with Cons.prems(3) Cons have "a = b" "prefix k' (concat (map f xs))" by simp_all
      moreover from Cons.prems(2) Cons have "set k' \<subseteq> L" by simp
      ultimately show ?thesis using Cons.IH [OF rest, of k'] Cons px by simp
    next
      assume blk: "f x \<noteq> [] \<and> set (f x) \<inter> L = {}"
      then obtain b bs where b: "f x = b # bs" by (cases "f x") auto
      with Cons.prems(3) Cons have "a = b" by simp
      moreover from Cons.prems(2) Cons have "a \<in> L" by simp
      ultimately show ?thesis using blk b by auto
    qed
  qed
qed

lemma word_through_items:
  assumes shape: "\<forall>x\<in>set xs. (\<exists>a. f x = [a] \<and> p x = [a]) \<or> (f x \<noteq> [] \<and> set (f x) \<inter> L = {})"
      and k: "set k \<subseteq> L" "k \<noteq> []"
      and sub: "sublist k (concat (map f xs))"
  shows "sublist k (concat (map p xs))"
  using shape sub
proof (induction xs)
  case Nil
  then show ?case by simp
next
  case (Cons x xs)
  from Cons.prems(1) have rest: "\<forall>x\<in>set xs. (\<exists>a. f x = [a] \<and> p x = [a]) \<or> (f x \<noteq> [] \<and> set (f x) \<inter> L = {})"
    and here: "(\<exists>a. f x = [a] \<and> p x = [a]) \<or> (f x \<noteq> [] \<and> set (f x) \<inter> L = {})"
    by simp_all
  from here show ?case
  proof
    assume "\<exists>a. f x = [a] \<and> p x = [a]"
    then obtain b where fx: "f x = [b]" and px: "p x = [b]" by blast
    with Cons.prems(2) have "prefix k (b # concat (map f xs)) \<or> sublist k (concat (map f xs))"
      by (simp add: sublist_Cons_right)
    then show ?thesis
    proof
      assume "prefix k (b # concat (map f xs))"
      with fx have "prefix k (concat (map f (x # xs)))" by simp
      from prefix_through_items [OF Cons.prems(1) k(1) this]
      show ?thesis by (rule prefix_imp_sublist)
    next
      assume "sublist k (concat (map f xs))"
      from Cons.IH [OF rest this] show ?thesis by (simp add: px sublist_Cons_right)
    qed
  next
    assume blk: "f x \<noteq> [] \<and> set (f x) \<inter> L = {}"
    from Cons.prems(2) have "sublist k (f x @ concat (map f xs))" by simp
    from sublist_past_block [OF k _ this] blk have "sublist k (concat (map f xs))" by blast
    from Cons.IH [OF rest this] have "sublist k (concat (map p xs))" .
    then have "sublist k (p x @ concat (map p xs))"
      by (metis sublist_append_leftI sublist_order.order_trans)
    then show ?thesis by simp
  qed
qed

lemma sublist_past_char:
  assumes "c \<notin> set k" "k \<noteq> []" "sublist k (c # rest)"
  shows "sublist k rest"
  using assms by (cases k) (auto simp: sublist_Cons_right)

lemma sublist_split_at_char:
  assumes c: "c \<notin> set k" and k: "k \<noteq> []"
      and sub: "sublist k (xs @ c # ys)"
  shows "sublist k xs \<or> sublist k ys"
proof -
  from sub [unfolded sublist_append]
  consider "sublist k xs" | "sublist k (c # ys)"
    | k1 k2 where "k = k1 @ k2" "suffix k1 xs" "prefix k2 (c # ys)"
    by blast
  then show ?thesis
  proof cases
    case 1
    then show ?thesis ..
  next
    case 2
    from sublist_past_char [OF c k this] show ?thesis ..
  next
    case 3
    show ?thesis
    proof (cases k2)
      case Nil
      with 3 show ?thesis by (auto intro: suffix_imp_sublist)
    next
      case (Cons a k2')
      with 3(3) have "a = c" by simp
      with 3(1) Cons c show ?thesis by simp
    qed
  qed
qed

subsection \<open>The words of the credit rule in the rendering of the column names\<close>

lemma letter_of_lower:
  assumes "lower_char c \<in> set lower_letters"
  shows "c \<in> set upper_letters \<union> set lower_letters"
proof (cases "map_of (zip upper_letters lower_letters) c")
  case None
  with assms show ?thesis by (simp add: lower_char_def)
next
  case (Some l)
  then have "c \<in> set upper_letters"
    by (auto dest!: map_of_SomeD set_zip_leftD)
  then show ?thesis by simp
qed

lemma letter_not_escaped:
  assumes "c \<in> set upper_letters \<union> set lower_letters" and "q = CHR 0x27 \<or> q = CHR 0x22"
  shows "escape_char q c = [c]"
  using assms
  by (auto simp: upper_letters_def lower_letters_def escape_char_def Let_def)

lemma printable_escape:
  assumes "\<not> is_control c"
  shows "escape_char q c = [c] \<or> escape_char q c = [CHR 0x5C, CHR 0x5C] \<or>
         escape_char q c = [CHR 0x5C, q]"
  using assms by (auto simp: escape_char_def is_control_def Let_def)

lemma lower_nonletters:
  "lower_char (CHR 0x5C) = CHR 0x5C" "lower_char (CHR 0x27) = CHR 0x27"
  "lower_char (CHR 0x22) = CHR 0x22" "lower_char CHR ''['' = CHR ''[''"
  "lower_char CHR '']'' = CHR '']''" "lower_char CHR '','' = CHR '',''"
  "lower_char CHR '' '' = CHR '' ''"
  by (simp_all add: lower_char_def upper_letters_def lower_letters_def)

lemma nonletters:
  "CHR 0x5C \<notin> set lower_letters" "CHR 0x27 \<notin> set lower_letters" "CHR 0x22 \<notin> set lower_letters"
  "CHR ''['' \<notin> set lower_letters" "CHR '']'' \<notin> set lower_letters"
  "CHR '','' \<notin> set lower_letters" "CHR '' '' \<notin> set lower_letters"
  by (simp_all add: lower_letters_def)

lemma credit_word_letters:
  assumes "k \<in> set credit_words"
  shows "set k \<subseteq> set lower_letters \<and> k \<noteq> []"
  using assms by (auto simp: credit_words_def lower_letters_def)

lemma repr_quote_cases: "repr_quote s = CHR 0x27 \<or> repr_quote s = CHR 0x22"
  by (simp add: repr_quote_def)

lemma letters_ascii:
  assumes "c \<in> set upper_letters \<union> set lower_letters"
  shows "is_ascii c"
  using assms by (auto simp: upper_letters_def lower_letters_def is_ascii_def)

lemma lower_char_outside_ascii:
  assumes "\<not> is_ascii b"
  shows "lower_char b \<notin> set lower_letters"
  using assms letters_ascii [OF letter_of_lower [of b]] by blast

text \<open>A code point of a string is one ASCII character, or bytes outside ASCII.\<close>

lemma code_points_groups:
  "g \<in> set (code_points s) \<Longrightarrow>
     g \<noteq> [] \<and> ((\<exists>c. g = [c] \<and> is_ascii c) \<or> (\<forall>b\<in>set g. \<not> is_ascii b))"
proof (induction s arbitrary: g)
  case Nil
  then show ?case by simp
next
  case (Cons c cs)
  show ?case
  proof (cases "code_points cs")
    case Nil
    with Cons.prems have "g = [c]" by simp
    then show ?thesis by auto
  next
    case (Cons h hs)
    have h: "h \<noteq> [] \<and> ((\<exists>c. h = [c] \<and> is_ascii c) \<or> (\<forall>b\<in>set h. \<not> is_ascii b))"
      using Cons.IH [of h] Cons by simp
    have others: "g \<noteq> [] \<and> ((\<exists>c. g = [c] \<and> is_ascii c) \<or> (\<forall>b\<in>set g. \<not> is_ascii b))"
      if "g \<in> set hs"
      using Cons.IH [of g] Cons that by simp
    show ?thesis
    proof (cases "\<not> is_ascii c \<and> h \<noteq> [] \<and> is_cont (hd h)")
      case True
      with Cons.prems Cons have "g = c # h \<or> g \<in> set hs" by auto
      moreover from True h have "\<forall>b\<in>set h. \<not> is_ascii b"
        by (auto simp: is_cont_def is_ascii_def)
      ultimately show ?thesis using True others by auto
    next
      case False
      with Cons.prems Cons have "g = [c] \<or> g = h \<or> g \<in> set hs" by auto
      then show ?thesis using h others by auto
    qed
  qed
qed

lemma py_lower_code_points: "py_lower s = concat (map (map lower_char) (code_points s))"
proof -
  have "py_lower s = py_lower (concat (code_points s))" by (simp only: code_points_concat)
  then show ?thesis by (simp add: py_lower_def map_concat)
qed

lemma py_lower_repr_str:
  "py_lower (repr_str U s) =
     repr_quote s #
     concat (map (\<lambda>g. map lower_char (escape_cp U (repr_quote s) g)) (code_points s)) @
     [repr_quote s]"
  using repr_quote_cases [of s]
  by (auto simp: repr_str_def Let_def py_lower_def map_concat comp_def lower_nonletters)

text \<open>
  A code point is written by \<^verbatim>\<open>repr\<close> as it is when it is a letter, and otherwise it holds
  no letter.
\<close>

lemma escaped_letter_or_plain_block:
  assumes g: "g \<noteq> [] \<and> ((\<exists>c. g = [c] \<and> is_ascii c) \<or> (\<forall>b\<in>set g. \<not> is_ascii b))"
      and q: "q = CHR 0x27 \<or> q = CHR 0x22"
  shows "(\<exists>a. map lower_char g = [a] \<and> map lower_char (escape_cp U q g) = [a]) \<or>
         (map lower_char g \<noteq> [] \<and> set (map lower_char g) \<inter> set lower_letters = {})"
proof (cases "\<exists>c. g = [c] \<and> is_ascii c")
  case True
  then obtain c where c: "g = [c]" "is_ascii c" by blast
  show ?thesis
  proof (cases "lower_char c \<in> set lower_letters")
    case True
    from letter_not_escaped [OF letter_of_lower [OF True] q] c
    show ?thesis by (simp add: escape_cp_def)
  next
    case False
    with c show ?thesis by simp
  qed
next
  case False
  with g have "\<forall>b\<in>set g. \<not> is_ascii b" and "g \<noteq> []" by auto
  then show ?thesis using lower_char_outside_ascii by auto
qed

text \<open>
  A printable code point is written by \<^verbatim>\<open>repr\<close> as it is when it is a letter, and otherwise
  what is written holds no letter.
\<close>

lemma plain_letter_or_escaped_block:
  assumes g: "g \<noteq> [] \<and> ((\<exists>c. g = [c] \<and> is_ascii c) \<or> (\<forall>b\<in>set g. \<not> is_ascii b))"
      and q: "q = CHR 0x27 \<or> q = CHR 0x22"
      and p: "printable_cp U g"
  shows "(\<exists>a. map lower_char (escape_cp U q g) = [a] \<and> map lower_char g = [a]) \<or>
         (map lower_char (escape_cp U q g) \<noteq> [] \<and>
          set (map lower_char (escape_cp U q g)) \<inter> set lower_letters = {})"
proof (cases "\<exists>c. g = [c] \<and> is_ascii c")
  case True
  then obtain c where c: "g = [c]" "is_ascii c" by blast
  with p have nc: "\<not> is_control c" by (simp add: printable_cp_def)
  from c have e: "escape_cp U q g = escape_char q c" by (simp add: escape_cp_def)
  from printable_escape [OF nc, of q] q show ?thesis
    unfolding e using c(1) by (auto simp: lower_nonletters nonletters)
next
  case False
  with g have na: "\<forall>b\<in>set g. \<not> is_ascii b" and ne: "g \<noteq> []" by auto
  then have "\<not> is_ascii (hd g)" by simp
  with p have "escape_cp U q g = g" by (simp add: escape_cp_def printable_cp_def)
  with na ne show ?thesis using lower_char_outside_ascii by auto
qed

lemma repr_keeps_word:
  assumes k: "k \<in> set credit_words" and sub: "sublist k (py_lower s)"
  shows "sublist k (py_lower (repr_str U s))"
proof -
  define q where "q = repr_quote s"
  have q: "q = CHR 0x27 \<or> q = CHR 0x22" unfolding q_def by (rule repr_quote_cases)
  from credit_word_letters [OF k] have kl: "set k \<subseteq> set lower_letters" and kn: "k \<noteq> []"
    by simp_all
  have shape: "\<forall>g\<in>set (code_points s).
         (\<exists>a. map lower_char g = [a] \<and> map lower_char (escape_cp U q g) = [a]) \<or>
         (map lower_char g \<noteq> [] \<and> set (map lower_char g) \<inter> set lower_letters = {})"
    using escaped_letter_or_plain_block [OF code_points_groups q] by blast
  from sub have "sublist k (concat (map (map lower_char) (code_points s)))"
    by (simp only: py_lower_code_points)
  from word_through_items [of "code_points s" "map lower_char"
         "\<lambda>g. map lower_char (escape_cp U q g)" "set lower_letters" k, OF shape kl kn this]
  have "sublist k (concat (map (\<lambda>g. map lower_char (escape_cp U q g)) (code_points s)))" .
  then have "sublist k ([q] @ concat (map (\<lambda>g. map lower_char (escape_cp U q g)) (code_points s)) @ [q])"
    by (metis sublist_appendI sublist_order.order_trans)
  then show ?thesis by (simp add: py_lower_repr_str q_def)
qed

lemma repr_word_found:
  assumes k: "k \<in> set credit_words" and p: "printable U s"
      and sub: "sublist k (py_lower (repr_str U s))"
  shows "sublist k (py_lower s)"
proof -
  define q where "q = repr_quote s"
  have q: "q = CHR 0x27 \<or> q = CHR 0x22" unfolding q_def by (rule repr_quote_cases)
  from credit_word_letters [OF k] have kl: "set k \<subseteq> set lower_letters" and kn: "k \<noteq> []"
    by simp_all
  from q kl have qk: "q \<notin> set k" using nonletters by auto
  from p have pr: "\<forall>g\<in>set (code_points s). printable_cp U g"
    by (simp add: printable_def list_all_iff)
  have shape: "\<forall>g\<in>set (code_points s).
         (\<exists>a. map lower_char (escape_cp U q g) = [a] \<and> map lower_char g = [a]) \<or>
         (map lower_char (escape_cp U q g) \<noteq> [] \<and>
          set (map lower_char (escape_cp U q g)) \<inter> set lower_letters = {})"
    using plain_letter_or_escaped_block [OF code_points_groups q] pr by blast
  from sub have "sublist k (q # concat (map (\<lambda>g. map lower_char (escape_cp U q g)) (code_points s)) @ [q])"
    by (simp add: py_lower_repr_str q_def [symmetric])
  from sublist_past_char [OF qk kn this]
  have "sublist k (concat (map (\<lambda>g. map lower_char (escape_cp U q g)) (code_points s)) @ q # [])" .
  from sublist_split_at_char [OF qk kn this] kn
  have "sublist k (concat (map (\<lambda>g. map lower_char (escape_cp U q g)) (code_points s)))" by auto
  from word_through_items [of "code_points s" "\<lambda>g. map lower_char (escape_cp U q g)"
         "map lower_char" "set lower_letters" k, OF shape kl kn this]
  show ?thesis by (simp only: py_lower_code_points)
qed

lemma part_in_join: "x \<in> set xs \<Longrightarrow> sublist x (join sep xs)"
proof (induction sep xs rule: join.induct)
  case (1 sep)
  then show ?case by simp
next
  case (2 sep y)
  then show ?case by simp
next
  case (3 sep y z zs)
  show ?case
  proof (cases "x = y")
    case True
    then show ?thesis by simp
  next
    case False
    with 3 have "sublist x (join sep (z # zs))" by simp
    then have "sublist x ((y @ sep) @ join sep (z # zs))"
      by (metis sublist_append_leftI sublist_order.order_trans)
    then show ?thesis by simp
  qed
qed

lemma word_in_join:
  assumes k: "k \<in> set credit_words"
  shows "sublist k (py_lower (join '', '' xs)) \<Longrightarrow> \<exists>x\<in>set xs. sublist k (py_lower x)"
proof (induction "'', ''" xs rule: join.induct)
  case 1
  from credit_word_letters [OF k] 1 show ?case by (simp add: py_lower_def)
next
  case (2 y)
  then show ?case by simp
next
  case (3 y z zs)
  from credit_word_letters [OF k] have kl: "set k \<subseteq> set lower_letters" and kn: "k \<noteq> []"
    by simp_all
  from kl have c: "CHR '','' \<notin> set k" and s: "CHR '' '' \<notin> set k" using nonletters by auto
  from 3(2) have "sublist k (py_lower y @ CHR '','' # CHR '' '' # py_lower (join '', '' (z # zs)))"
    by (simp add: py_lower_def lower_nonletters)
  from sublist_split_at_char [OF c kn this]
  show ?case
  proof
    assume "sublist k (py_lower y)"
    then show ?thesis by simp
  next
    assume "sublist k (CHR '' '' # py_lower (join '', '' (z # zs)))"
    from sublist_past_char [OF s kn this] 3(1) show ?thesis by simp
  qed
qed

lemma py_str_names: "py_str U (PList (map PStr names)) = ''['' @ join '', '' (map (repr_str U) names) @ '']''"
  by (simp add: py_str_def comp_def)

lemma word_of_entry_in_rendering:
  assumes k: "k \<in> set credit_words" and c: "c \<in> set names" and sub: "sublist k (py_lower c)"
  shows "sublist k (py_lower (py_str U (PList (map PStr names))))"
proof -
  from repr_keeps_word [OF k sub] have "sublist k (py_lower (repr_str U c))" .
  moreover from c have "sublist (repr_str U c) (join '', '' (map (repr_str U) names))"
    by (intro part_in_join) simp
  then have "sublist (py_lower (repr_str U c)) (py_lower (join '', '' (map (repr_str U) names)))"
    unfolding py_lower_def by (rule map_mono_sublist)
  ultimately have "sublist k (py_lower (join '', '' (map (repr_str U) names)))"
    by (rule sublist_order.order_trans)
  then have "sublist k (py_lower ''['' @ py_lower (join '', '' (map (repr_str U) names)) @ py_lower '']'')"
    by (metis sublist_appendI sublist_order.order_trans)
  then show ?thesis by (simp add: py_str_names py_lower_def)
qed

lemma word_in_rendering_of_entry:
  assumes k: "k \<in> set credit_words" and p: "list_all (printable U) names"
      and sub: "sublist k (py_lower (py_str U (PList (map PStr names))))"
  shows "\<exists>c\<in>set names. sublist k (py_lower c)"
proof -
  from credit_word_letters [OF k] have kl: "set k \<subseteq> set lower_letters" and kn: "k \<noteq> []"
    by simp_all
  from kl have o: "CHR ''['' \<notin> set k" and cl: "CHR '']'' \<notin> set k" using nonletters by auto
  from sub have "sublist k (CHR ''['' # py_lower (join '', '' (map (repr_str U) names)) @ [CHR '']''])"
    by (simp add: py_str_names py_lower_def lower_nonletters)
  from sublist_past_char [OF o kn this]
  have "sublist k (py_lower (join '', '' (map (repr_str U) names)) @ CHR '']'' # [])" .
  from sublist_split_at_char [OF cl kn this] kn
  have "sublist k (py_lower (join '', '' (map (repr_str U) names)))" by auto
  from word_in_join [OF k this] obtain c where c: "c \<in> set names"
    and r: "sublist k (py_lower (repr_str U c))"
    by auto
  from p c have "printable U c" by (simp add: list_all_iff)
  from repr_word_found [OF k this r] c show ?thesis by blast
qed

lemma file_type_insights_no_credit:
  "file_type_insights U r = Inr xs \<Longrightarrow> credit_insight \<notin> set xs"
  by (auto simp: file_type_insights_def Let_def credit_insight_def split: if_splits sum.splits)

lemma keyword_insights_no_credit:
  "keyword_insights r ins = Inr xs \<Longrightarrow> credit_insight \<notin> set ins \<Longrightarrow> credit_insight \<notin> set xs"
  by (auto simp: keyword_insights_def Let_def credit_insight_def split: if_splits sum.splits)

lemma credit_insight_membership:
  assumes "generate_document_insights U r = Inr insights"
  shows "credit_insight \<in> set insights \<longleftrightarrow>
           (\<exists>k\<in>set credit_words.
              sublist k (py_lower (py_str U (py_get r ''column_names'' (PList [])))))"
proof -
  from assms obtain i1 where i1: "file_type_insights U r = Inr i1"
    by (cases "file_type_insights U r") (auto simp: generate_document_insights_def)
  from assms i1 obtain i2 where i2: "keyword_insights r i1 = Inr i2"
    by (cases "keyword_insights r i1") (auto simp: generate_document_insights_def)
  from keyword_insights_no_credit [OF i2 file_type_insights_no_credit [OF i1]]
  have n2: "credit_insight \<notin> set i2" .
  have ne: "credit_insight \<noteq> expense_insight"
    by (simp add: credit_insight_def expense_insight_def)
  from assms i1 i2 n2 ne show ?thesis
    by (auto simp: generate_document_insights_def Let_def list_ex_iff py_in_def credit_words_def
             split: if_splits)
qed

text \<open>
  A code point outside ASCII that is not printable is written by its number: the name
  made of U+008C and \<^verbatim>\<open>redit\<close> is rendered as \<^verbatim>\<open>['\x8credit']\<close>. A printable one is kept:
  \<^verbatim>\<open>Cr\<close>, U+00E9, \<^verbatim>\<open>dit\<close> is rendered as it is.
\<close>

lemma rendering_outside_ascii:
  "py_lower (py_str example_unicode (PList [PStr ([CHR 0xC2, CHR 0x8C] @ ''redit'')])) =
     ''['' @ [CHR 0x27, CHR 0x5C] @ ''x8credit'' @ [CHR 0x27] @ '']'' \<and>
   py_lower (py_str example_unicode (PList [PStr (''Cr'' @ [CHR 0xC3, CHR 0xA9] @ ''dit'')])) =
     ''['' @ [CHR 0x27] @ ''cr'' @ [CHR 0xC3, CHR 0xA9] @ ''dit'' @ [CHR 0x27] @ '']''"
  by (simp add: py_str_def repr_str_def repr_quote_def escape_cp_def escape_char_def is_ascii_def
                is_cont_def example_unicode_def cp_value_def numeral_2_eq_2 digit_def Let_def
                py_lower_def lower_char_def upper_letters_def lower_letters_def)

text \<open>
  Claim C8, as the code has it. On an analysis record whose \<^verbatim>\<open>column_names\<close> are the
  strings \<open>names\<close> (or are missing, \<open>names\<close> being empty), the extraction returns, and its
  list holds the credit line exactly when one of the three words occurs in the lower-cased
  text of \<^verbatim>\<open>str(column_names)\<close>. That is the case whenever a column name contains one of
  the words, whatever its letter case; and when every code point of the column names is
  printable (\<^verbatim>\<open>str.isprintable\<close>), so that \<^verbatim>\<open>repr\<close> writes none of them as an escape with
  letters or digits, it is the case only then.
\<close>

theorem credit_insight_rule:
  assumes "analysis_record r"
      and "py_get r ''column_names'' (PList []) = PList (map PStr names)"
  shows "\<exists>insights. generate_document_insights U r = Inr insights \<and>
           (credit_insight \<in> set insights \<longleftrightarrow>
              (\<exists>k\<in>set credit_words. sublist k (py_lower (py_str U (PList (map PStr names)))))) \<and>
           ((\<exists>c\<in>set names. \<exists>k\<in>set credit_words. sublist k (py_lower c)) \<longrightarrow>
              credit_insight \<in> set insights) \<and>
           (list_all (printable U) names \<and> credit_insight \<in> set insights \<longrightarrow>
              (\<exists>c\<in>set names. \<exists>k\<in>set credit_words. sublist k (py_lower c)))"
proof -
  from generate_document_insights_total [OF assms(1)]
  obtain insights where i: "generate_document_insights U r = Inr insights"
    by (auto simp: returns_def)
  from credit_insight_membership [OF i] assms(2)
  have m: "credit_insight \<in> set insights \<longleftrightarrow>
              (\<exists>k\<in>set credit_words. sublist k (py_lower (py_str U (PList (map PStr names)))))"
    by simp
  have a: "(\<exists>c\<in>set names. \<exists>k\<in>set credit_words. sublist k (py_lower c)) \<longrightarrow>
              credit_insight \<in> set insights"
    unfolding m using word_of_entry_in_rendering by blast
  have b: "list_all (printable U) names \<and> credit_insight \<in> set insights \<longrightarrow>
              (\<exists>c\<in>set names. \<exists>k\<in>set credit_words. sublist k (py_lower c))"
    unfolding m using word_in_rendering_of_entry by blast
  from i m a b show ?thesis by blast
qed

theorem credit_insight_rule_witness:
  "analysis_record
     [(''file_type'', PStr ''CSV File''),
      (''column_names'', PList (map PStr [''Date'', ''Account Balance'', ''Cr'' @ [CHR 0xC3, CHR 0xA9] @ ''dit''])),
      (''text_content'', PStr [])] \<and>
   list_all (printable example_unicode) [''Date'', ''Account Balance'', ''Cr'' @ [CHR 0xC3, CHR 0xA9] @ ''dit''] \<and>
   sublist ''balance'' (py_lower ''Account Balance'') \<and>
   (\<exists>insights. generate_document_insights example_unicode
        [(''file_type'', PStr ''CSV File''),
         (''column_names'', PList (map PStr [''Date'', ''Account Balance'', ''Cr'' @ [CHR 0xC3, CHR 0xA9] @ ''dit''])),
         (''text_content'', PStr [])] = Inr insights \<and>
      credit_insight \<in> set insights)"
proof -
  define R where "R = [(''file_type'', PStr ''CSV File''),
      (''column_names'', PList (map PStr [''Date'', ''Account Balance'', ''Cr'' @ [CHR 0xC3, CHR 0xA9] @ ''dit''])),
      (''text_content'', PStr [])]"
  have ar: "analysis_record R"
    by (simp add: R_def analysis_record_def field_ok_def is_str_def)
  have cn: "py_get R ''column_names'' (PList []) = PList (map PStr [''Date'', ''Account Balance'', ''Cr'' @ [CHR 0xC3, CHR 0xA9] @ ''dit''])"
    by (simp add: R_def py_get_def)
  have pr: "list_all (printable example_unicode) [''Date'', ''Account Balance'', ''Cr'' @ [CHR 0xC3, CHR 0xA9] @ ''dit'']"
    by (simp add: printable_def printable_cp_def is_control_def is_ascii_def is_cont_def
                  example_unicode_def cp_value_def)
  have low: "py_lower ''Account Balance'' = ''account balance''"
    by (simp add: py_lower_def lower_char_def upper_letters_def lower_letters_def)
  have sub: "sublist ''balance'' (py_lower ''Account Balance'')"
    unfolding low by (simp add: sublist_code prefix_code)
  then have ex: "\<exists>c\<in>set [''Date'', ''Account Balance'', ''Cr'' @ [CHR 0xC3, CHR 0xA9] @ ''dit''].
                   \<exists>k\<in>set credit_words. sublist k (py_lower c)"
    by (simp add: credit_words_def)
  from credit_insight_rule [OF ar cn] ex
  have "\<exists>insights. generate_document_insights example_unicode R = Inr insights \<and> credit_insight \<in> set insights"
    by blast
  with ar pr sub show ?thesis unfolding R_def by (intro conjI)
qed

text \<open>
  The converse fails without the restriction: \<^verbatim>\<open>repr\<close> writes a form feed as \<^verbatim>\<open>\x0c\<close>, so the
  one column name made of a form feed and \<^verbatim>\<open>redit\<close> is rendered with \<^verbatim>\<open>credit\<close> in it, and the
  credit line is emitted although no column name contains any of the three words.
\<close>

theorem credit_insight_counterexample:
  "generate_document_insights example_unicode
     [(''file_type'', PStr ''CSV File''),
      (''analysis_type'', PStr ''data_analysis''),
      (''summary'', PStr ''CSV file with 0 rows and 1 columns''),
      (''rows'', PInt 0),
      (''columns'', PInt 1),
      (''column_names'', PList [PStr (CHR 0x0C # ''redit'')]),
      (''text_content'', PStr [])] =
     Inr [[CHR 0xF0, CHR 0x9F, CHR 0x93, CHR 0x8B] @ '' CSV file with 0 rows and 1 columns'',
          credit_insight] \<and>
   \<not> (\<exists>c\<in>set [CHR 0x0C # ''redit'']. \<exists>k\<in>set [''credit'', ''debit'', ''balance''].
          sublist k (py_lower c))"
proof -
  have s0: "py_str example_unicode (PInt 0) = ''0''" "py_str example_unicode (PInt 1) = ''1''"
    by (simp_all add: py_str_def str_int_def str_nat.simps digit_def)
  have rendering: "py_lower (py_str example_unicode (PList [PStr (CHR 0x0C # ''redit'')])) =
                     ''['' @ [CHR 0x27, CHR 0x5C] @ ''x0credit'' @ [CHR 0x27] @ '']''"
    by (simp add: py_str_def repr_str_def repr_quote_def escape_cp_def escape_char_def is_ascii_def
                  is_cont_def digit_def Let_def py_lower_def lower_char_def upper_letters_def
                  lower_letters_def)
  have found: "list_ex (\<lambda>col. py_in col (py_lower (py_str example_unicode (PList [PStr (CHR 0x0C # ''redit'')]))))
                 [''credit'', ''debit'', ''balance'']"
    unfolding rendering by (simp add: py_in_def sublist_code prefix_code)
  have name: "py_lower (CHR 0x0C # ''redit'') = CHR 0x0C # ''redit''"
    by (simp add: py_lower_def lower_char_def upper_letters_def lower_letters_def)
  have a: "generate_document_insights example_unicode
     [(''file_type'', PStr ''CSV File''),
      (''analysis_type'', PStr ''data_analysis''),
      (''summary'', PStr ''CSV file with 0 rows and 1 columns''),
      (''rows'', PInt 0),
      (''columns'', PInt 1),
      (''column_names'', PList [PStr (CHR 0x0C # ''redit'')]),
      (''text_content'', PStr [])] =
     Inr [[CHR 0xF0, CHR 0x9F, CHR 0x93, CHR 0x8B] @ '' CSV file with 0 rows and 1 columns'',
          credit_insight]"
    using found
    by (simp add: generate_document_insights_def file_type_insights_def keyword_insights_def
                  py_get_def py_get_none_def s0 Let_def)
  have b: "\<not> (\<exists>c\<in>set [CHR 0x0C # ''redit'']. \<exists>k\<in>set [''credit'', ''debit'', ''balance''].
          sublist k (py_lower c))"
    by (simp add: name sublist_code prefix_code)
  from a b show ?thesis by (rule conjI)
qed

end
